(* ===== verification/Yo_Prelude.thy ===== *)
theory Yo_Prelude
  imports Main "HOL-Library.Sublist"
begin

text \<open>
  The prelude: the effect type every stateful operation of the model uses, its Hoare
  triples, and generic facts on lists. An operation of the program that can raise and that
  touches the outside is a value of \<open>('s, 'e, 'a) eff\<close>: from a state it gives a result
  (\<open>Inl\<close> an exception, \<open>Inr\<close> a value) and the state after it. An exception keeps the
  effects made before it, as in Python.
\<close>

named_theorems eff_simps "unfolding of the effect combinators"
named_theorems hoare_rules "syntax-directed rules of the Hoare triples"

type_synonym ('s, 'e, 'a) eff = "'s \<Rightarrow> ('e + 'a) \<times> 's"

subsection \<open>Combinators\<close>

definition ret :: "'a \<Rightarrow> ('s, 'e, 'a) eff" where
  "ret x = (\<lambda>s. (Inr x, s))"

definition raise :: "'e \<Rightarrow> ('s, 'e, 'a) eff" where
  "raise e = (\<lambda>s. (Inl e, s))"

definition bnd :: "('s, 'e, 'a) eff \<Rightarrow> ('a \<Rightarrow> ('s, 'e, 'b) eff) \<Rightarrow> ('s, 'e, 'b) eff" where
  "bnd m f = (\<lambda>s. case m s of (Inl e, t) \<Rightarrow> (Inl e, t) | (Inr x, t) \<Rightarrow> f x t)"

abbreviation sq :: "('s, 'e, 'a) eff \<Rightarrow> ('s, 'e, 'b) eff \<Rightarrow> ('s, 'e, 'b) eff" where
  "sq m n \<equiv> bnd m (\<lambda>_. n)"

text \<open>\<open>try: m; except E as e: h e\<close>.\<close>

definition catch :: "('s, 'e, 'a) eff \<Rightarrow> ('e \<Rightarrow> ('s, 'e, 'a) eff) \<Rightarrow> ('s, 'e, 'a) eff" where
  "catch m h = (\<lambda>s. case m s of (Inl e, t) \<Rightarrow> h e t | (Inr x, t) \<Rightarrow> (Inr x, t))"

text \<open>\<open>try: m; finally: f\<close>, for a finaliser that cannot raise.\<close>

definition finally_do :: "('s, 'e, 'a) eff \<Rightarrow> ('s \<Rightarrow> 's) \<Rightarrow> ('s, 'e, 'a) eff" where
  "finally_do m f = (\<lambda>s. case m s of (r, t) \<Rightarrow> (r, f t))"

definition lift :: "'e + 'a \<Rightarrow> ('s, 'e, 'a) eff" where
  "lift r = (\<lambda>s. (r, s))"

definition reads :: "('s \<Rightarrow> 'a) \<Rightarrow> ('s, 'e, 'a) eff" where
  "reads f = (\<lambda>s. (Inr (f s), s))"

definition modifies :: "('s \<Rightarrow> 's) \<Rightarrow> ('s, 'e, unit) eff" where
  "modifies f = (\<lambda>s. (Inr (), f s))"

definition when_do :: "bool \<Rightarrow> ('s, 'e, unit) eff \<Rightarrow> ('s, 'e, unit) eff" where
  "when_do b m = (if b then m else ret ())"

definition opt_raise :: "'e option \<Rightarrow> ('s, 'e, unit) eff" where
  "opt_raise r = (case r of None \<Rightarrow> ret () | Some e \<Rightarrow> raise e)"

fun for_each :: "'a list \<Rightarrow> ('a \<Rightarrow> ('s, 'e, unit) eff) \<Rightarrow> ('s, 'e, unit) eff" where
  "for_each [] f = ret ()"
| "for_each (x # xs) f = sq (f x) (for_each xs f)"

lemmas eff_defs = ret_def raise_def bnd_def catch_def finally_do_def lift_def reads_def
  modifies_def when_do_def opt_raise_def

lemma bnd_ret [eff_simps]: "bnd (ret x) f = f x"
  and bnd_raise [eff_simps]: "bnd (raise e) f = raise e"
  and bnd_lift_Inl [eff_simps]: "bnd (lift (Inl e)) f = raise e"
  and bnd_lift_Inr [eff_simps]: "bnd (lift (Inr x)) f = f x"
  by (simp_all add: eff_defs)

lemma bnd_run_Inl: "m s = (Inl e, t) \<Longrightarrow> bnd m f s = (Inl e, t)"
  and bnd_run_Inr: "m s = (Inr x, t) \<Longrightarrow> bnd m f s = f x t"
  by (simp_all add: bnd_def)

lemma bnd_assoc: "bnd (bnd m f) g = bnd m (\<lambda>x. bnd (f x) g)"
  by (auto simp: bnd_def fun_eq_iff split: prod.splits sum.splits)

lemma bnd_InrE:
  assumes "bnd m f s = (Inr y, t)"
  obtains x u where "m s = (Inr x, u)" "f x u = (Inr y, t)"
  using assms by (auto simp: bnd_def split: prod.splits sum.splits)

lemma fst_bnd: "(\<And>h. fst (m h) = Inr x) \<Longrightarrow> fst (bnd m f h) = fst (f x (snd (m h)))"
  by (simp add: bnd_def split: prod.split) (metis fst_conv old.sum.simps(6))

subsection \<open>Hoare triples\<close>

text \<open>
  \<open>hoare P m Q E\<close>: from a state with \<open>P\<close>, \<open>m\<close> ends in a state with \<open>Q x\<close> when it
  returns \<open>x\<close>, and with \<open>E e\<close> when it raises \<open>e\<close>.
\<close>

definition hoare :: "('s \<Rightarrow> bool) \<Rightarrow> ('s, 'e, 'a) eff \<Rightarrow> ('a \<Rightarrow> 's \<Rightarrow> bool) \<Rightarrow> ('e \<Rightarrow> 's \<Rightarrow> bool) \<Rightarrow> bool" where
  "hoare P m Q E \<longleftrightarrow> (\<forall>s. P s \<longrightarrow> (case m s of (Inl e, t) \<Rightarrow> E e t | (Inr x, t) \<Rightarrow> Q x t))"

lemma hoareI:
  assumes "\<And>s e t. P s \<Longrightarrow> m s = (Inl e, t) \<Longrightarrow> E e t"
    and "\<And>s x t. P s \<Longrightarrow> m s = (Inr x, t) \<Longrightarrow> Q x t"
  shows "hoare P m Q E"
  using assms by (auto simp: hoare_def split: prod.splits sum.splits)

lemma hoare_Inr: "hoare P m Q E \<Longrightarrow> P s \<Longrightarrow> m s = (Inr x, t) \<Longrightarrow> Q x t"
  and hoare_Inl: "hoare P m Q E \<Longrightarrow> P s \<Longrightarrow> m s = (Inl e, t) \<Longrightarrow> E e t"
  by (force simp: hoare_def)+

lemma hoare_weaken:
  assumes "hoare P' m Q' E'" and "\<And>s. P s \<Longrightarrow> P' s"
    and "\<And>x s. Q' x s \<Longrightarrow> Q x s" and "\<And>e s. E' e s \<Longrightarrow> E e s"
  shows "hoare P m Q E"
  using assms by (fastforce simp: hoare_def split: prod.splits sum.splits)

lemma hoare_ret [hoare_rules]: "(\<And>s. P s \<Longrightarrow> Q x s) \<Longrightarrow> hoare P (ret x) Q E"
  and hoare_raise [hoare_rules]: "(\<And>s. P s \<Longrightarrow> E e s) \<Longrightarrow> hoare P (raise e) Q E"
  and hoare_reads [hoare_rules]: "(\<And>s. P s \<Longrightarrow> Q (f s) s) \<Longrightarrow> hoare P (reads f) Q E"
  and hoare_modifies [hoare_rules]: "(\<And>s. P s \<Longrightarrow> Q () (g s)) \<Longrightarrow> hoare P (modifies g) Q E"
  by (simp_all add: hoare_def eff_defs)

lemma hoare_lift [hoare_rules]:
  "(\<And>x s. r = Inr x \<Longrightarrow> P s \<Longrightarrow> Q x s) \<Longrightarrow> (\<And>e s. r = Inl e \<Longrightarrow> P s \<Longrightarrow> E e s) \<Longrightarrow>
   hoare P (lift r) Q E"
  by (auto simp: hoare_def lift_def split: sum.splits)

lemma hoare_bnd:
  assumes "hoare P m R E" and "\<And>x. hoare (R x) (f x) Q E"
  shows "hoare P (bnd m f) Q E"
  using assms by (fastforce simp: hoare_def bnd_def split: prod.splits sum.splits)

lemma hoare_catch:
  assumes "hoare P m Q R" and "\<And>e. hoare (R e) (h e) Q E"
  shows "hoare P (catch m h) Q E"
  using assms by (fastforce simp: hoare_def catch_def split: prod.splits sum.splits)

lemma hoare_finally:
  assumes "hoare P m (\<lambda>x s. Q x (f s)) (\<lambda>e s. E e (f s))"
  shows "hoare P (finally_do m f) Q E"
  using assms by (fastforce simp: hoare_def finally_do_def split: prod.splits sum.splits)

lemma hoare_if [hoare_rules]:
  "(b \<Longrightarrow> hoare P m Q E) \<Longrightarrow> (\<not> b \<Longrightarrow> hoare P n Q E) \<Longrightarrow> hoare P (if b then m else n) Q E"
  by simp

text \<open>
  The invariant form: \<open>keeps I m\<close> says that \<open>m\<close> keeps \<open>I\<close> whatever it returns or
  raises. It composes through every combinator with no intermediate assertion.
\<close>

definition keeps :: "('s \<Rightarrow> bool) \<Rightarrow> ('s, 'e, 'a) eff \<Rightarrow> bool" where
  "keeps I m \<longleftrightarrow> hoare I m (\<lambda>_. I) (\<lambda>_. I)"

lemma keepsD: "keeps I m \<Longrightarrow> I s \<Longrightarrow> m s = (r, t) \<Longrightarrow> I t"
  by (cases r) (auto simp: keeps_def hoare_def split: sum.splits)

lemma keepsI: "(\<And>s r t. I s \<Longrightarrow> m s = (r, t) \<Longrightarrow> I t) \<Longrightarrow> keeps I m"
  by (auto simp: keeps_def intro!: hoareI)

lemma keeps_ret [hoare_rules]: "keeps I (ret x)"
  and keeps_raise [hoare_rules]: "keeps I (raise e)"
  and keeps_reads [hoare_rules]: "keeps I (reads f)"
  and keeps_lift [hoare_rules]: "keeps I (lift r)"
  by (auto intro!: keepsI simp: eff_defs)

lemma keeps_modifies: "(\<And>s. I s \<Longrightarrow> I (g s)) \<Longrightarrow> keeps I (modifies g)"
  by (auto intro!: keepsI simp: eff_defs)

lemma keeps_bnd [hoare_rules]: "keeps I m \<Longrightarrow> (\<And>x. keeps I (f x)) \<Longrightarrow> keeps I (bnd m f)"
  unfolding keeps_def by (rule hoare_bnd)

lemma keeps_catch [hoare_rules]: "keeps I m \<Longrightarrow> (\<And>e. keeps I (h e)) \<Longrightarrow> keeps I (catch m h)"
  unfolding keeps_def by (rule hoare_catch)

lemma keeps_finally: "keeps I m \<Longrightarrow> (\<And>s. I s \<Longrightarrow> I (f s)) \<Longrightarrow> keeps I (finally_do m f)"
  unfolding keeps_def by (rule hoare_finally) (auto intro: hoare_weaken)

lemma keeps_if [hoare_rules]: "(b \<Longrightarrow> keeps I m) \<Longrightarrow> (\<not> b \<Longrightarrow> keeps I n) \<Longrightarrow> keeps I (if b then m else n)"
  by simp

lemma keeps_when [hoare_rules]: "(b \<Longrightarrow> keeps I m) \<Longrightarrow> keeps I (when_do b m)"
  by (simp add: when_do_def keeps_ret)

lemma keeps_opt_raise [hoare_rules]: "keeps I (opt_raise r)"
  by (cases r) (simp_all add: opt_raise_def keeps_ret keeps_raise)

lemma keeps_case_option [hoare_rules]:
  "(x = None \<Longrightarrow> keeps I m) \<Longrightarrow> (\<And>y. x = Some y \<Longrightarrow> keeps I (f y)) \<Longrightarrow>
   keeps I (case x of None \<Rightarrow> m | Some y \<Rightarrow> f y)"
  by (cases x) simp_all

lemma keeps_case_sum [hoare_rules]:
  "(\<And>y. x = Inl y \<Longrightarrow> keeps I (f y)) \<Longrightarrow> (\<And>y. x = Inr y \<Longrightarrow> keeps I (g y)) \<Longrightarrow>
   keeps I (case x of Inl y \<Rightarrow> f y | Inr y \<Rightarrow> g y)"
  by (cases x) simp_all

lemma keeps_case_prod [hoare_rules]:
  "(\<And>a b. x = (a, b) \<Longrightarrow> keeps I (f a b)) \<Longrightarrow> keeps I (case x of (a, b) \<Rightarrow> f a b)"
  by (cases x) simp_all

lemma keeps_let [hoare_rules]: "(\<And>x. x = e \<Longrightarrow> keeps I (f x)) \<Longrightarrow> keeps I (let x = e in f x)"
  by simp

lemma keeps_for_each [hoare_rules]: "(\<And>x. x \<in> set xs \<Longrightarrow> keeps I (f x)) \<Longrightarrow> keeps I (for_each xs f)"
  by (induction xs) (auto intro: keeps_ret keeps_bnd)

subsection \<open>Lists\<close>

text \<open>\<open>list(dict.fromkeys(xs))\<close>: the first occurrence of each element, in order.\<close>

fun fromkeys_acc :: "'a list \<Rightarrow> 'a list \<Rightarrow> 'a list" where
  "fromkeys_acc seen [] = []"
| "fromkeys_acc seen (x # xs) =
     (if x \<in> set seen then fromkeys_acc seen xs else x # fromkeys_acc (x # seen) xs)"

definition fromkeys :: "'a list \<Rightarrow> 'a list" where
  "fromkeys xs = fromkeys_acc [] xs"

lemma set_fromkeys_acc: "set (fromkeys_acc seen xs) = set xs - set seen"
  by (induction xs arbitrary: seen) auto

lemma set_fromkeys [simp]: "set (fromkeys xs) = set xs"
  by (simp add: fromkeys_def set_fromkeys_acc)

lemma distinct_fromkeys_acc: "distinct (fromkeys_acc seen xs)"
  by (induction xs arbitrary: seen) (auto simp: set_fromkeys_acc)

lemma distinct_fromkeys [simp]: "distinct (fromkeys xs)"
  by (simp add: fromkeys_def distinct_fromkeys_acc)

lemma fromkeys_Nil_iff [simp]: "fromkeys xs = [] \<longleftrightarrow> xs = []"
  by (metis set_fromkeys set_empty)

end
