(* ===== verification/Yo_Text.thy ===== *)
theory Yo_Text
  imports Yo_Prelude
begin

text \<open>
  Python's \<open>str\<close> and \<open>bytes\<close> as the program uses them. A \<open>str\<close> is a list of code points
  below 256 (\<open>char\<close>), a \<open>bytes\<close> value a list of bytes: the program compares, splits and
  searches text, and nothing it decides depends on a code point above that. Every operation
  is Python's own: \<open>splitlines\<close> breaks at each of its line boundaries, \<open>strip\<close> and
  \<open>split()\<close> take every white-space character, \<open>int\<close> reads decimal digits.
\<close>

subsection \<open>Prefixes, suffixes and substrings\<close>

definition startswith :: "string \<Rightarrow> string \<Rightarrow> bool" where
  "startswith s p = prefix p s"

definition endswith :: "string \<Rightarrow> string \<Rightarrow> bool" where
  "endswith s p = suffix p s"

text \<open>\<open>p in s\<close>\<close>

fun contains :: "string \<Rightarrow> string \<Rightarrow> bool" where
  "contains [] p = (p = [])"
| "contains (c # s) p = (prefix p (c # s) \<or> contains s p)"

lemma contains_sublist: "contains s p \<longleftrightarrow> sublist p s"
  by (induction s) (auto simp: sublist_Cons_right)

lemma startswith_iff: "startswith s p \<longleftrightarrow> (\<exists>r. s = p @ r)"
  by (auto simp: startswith_def prefix_def)

lemma startswith_append [simp]: "startswith (p @ r) p"
  by (auto simp: startswith_iff)

text \<open>\<open>s[len(p):]\<close> after a prefix test.\<close>

definition after :: "string \<Rightarrow> string \<Rightarrow> string" where
  "after p s = drop (length p) s"

lemma after_append [simp]: "after p (p @ r) = r"
  by (simp add: after_def)

lemma startswith_after: "startswith s p \<Longrightarrow> s = p @ after p s"
  by (auto simp: startswith_iff)

subsection \<open>Characters\<close>

text \<open>The code points \<open>str.isspace\<close> admits below 256, and the line boundaries of
  \<open>str.splitlines\<close> below 256.\<close>

definition is_space :: "char \<Rightarrow> bool" where
  "is_space c \<longleftrightarrow> of_char c \<in> ({9, 10, 11, 12, 13, 28, 29, 30, 31, 32, 133, 160} :: nat set)"

definition is_line_end :: "char \<Rightarrow> bool" where
  "is_line_end c \<longleftrightarrow> of_char c \<in> ({10, 11, 12, 13, 28, 29, 30, 133} :: nat set)"

definition is_digit :: "char \<Rightarrow> bool" where
  "is_digit c \<longleftrightarrow> 48 \<le> (of_char c :: nat) \<and> (of_char c :: nat) \<le> 57"

definition is_lower :: "char \<Rightarrow> bool" where
  "is_lower c \<longleftrightarrow> 97 \<le> (of_char c :: nat) \<and> (of_char c :: nat) \<le> 122"

definition is_upper :: "char \<Rightarrow> bool" where
  "is_upper c \<longleftrightarrow> 65 \<le> (of_char c :: nat) \<and> (of_char c :: nat) \<le> 90"

definition is_alnum :: "char \<Rightarrow> bool" where
  "is_alnum c \<longleftrightarrow> is_digit c \<or> is_lower c \<or> is_upper c"

lemmas char_class_defs = is_space_def is_line_end_def is_digit_def is_lower_def is_upper_def
  is_alnum_def

text \<open>ASCII lower-casing, \<open>str.lower\<close> on ASCII text.\<close>

definition to_lower :: "char \<Rightarrow> char" where
  "to_lower c = (if is_upper c then char_of ((of_char c :: nat) + 32) else c)"

definition lower :: "string \<Rightarrow> string" where
  "lower s = map to_lower s"

subsection \<open>Stripping and splitting\<close>

definition lstrip_by :: "(char \<Rightarrow> bool) \<Rightarrow> string \<Rightarrow> string" where
  "lstrip_by f s = dropWhile f s"

definition rstrip_by :: "(char \<Rightarrow> bool) \<Rightarrow> string \<Rightarrow> string" where
  "rstrip_by f s = rev (dropWhile f (rev s))"

definition strip :: "string \<Rightarrow> string" where
  "strip s = rstrip_by is_space (lstrip_by is_space s)"

definition strip_char :: "char \<Rightarrow> string \<Rightarrow> string" where
  "strip_char c s = rstrip_by (\<lambda>d. d = c) (lstrip_by (\<lambda>d. d = c) s)"

definition rstrip_char :: "char \<Rightarrow> string \<Rightarrow> string" where
  "rstrip_char c s = rstrip_by (\<lambda>d. d = c) s"

fun line_scan :: "string \<Rightarrow> string \<Rightarrow> string list" where
  "line_scan acc [] = (if acc = [] then [] else [rev acc])"
| "line_scan acc [c] = (if is_line_end c then [rev acc] else [rev (c # acc)])"
| "line_scan acc (c # d # s) =
     (if c = CHR 0x0D \<and> d = CHR 0x0A then rev acc # line_scan [] s
      else if is_line_end c then rev acc # line_scan [] (d # s)
      else line_scan (c # acc) (d # s))"

definition splitlines :: "string \<Rightarrow> string list" where
  "splitlines s = line_scan [] s"

text \<open>\<open>s.split()\<close>: runs of white space separate.\<close>

fun word_scan :: "string \<Rightarrow> string \<Rightarrow> string list" where
  "word_scan acc [] = (if acc = [] then [] else [rev acc])"
| "word_scan acc (c # s) =
     (if is_space c then (if acc = [] then word_scan [] s else rev acc # word_scan [] s)
      else word_scan (c # acc) s)"

definition split_words :: "string \<Rightarrow> string list" where
  "split_words s = word_scan [] s"

text \<open>\<open>s.split(sep)\<close> for a one-character separator; never empty.\<close>

fun split_on :: "'a \<Rightarrow> 'a list \<Rightarrow> 'a list list" where
  "split_on sep [] = [[]]"
| "split_on sep (c # s) =
     (if c = sep then [] # split_on sep s
      else (case split_on sep s of [] \<Rightarrow> [[c]] | p # ps \<Rightarrow> (c # p) # ps))"

fun join_on :: "'a \<Rightarrow> 'a list list \<Rightarrow> 'a list" where
  "join_on sep [] = []"
| "join_on sep [p] = p"
| "join_on sep (p # q # ps) = p @ sep # join_on sep (q # ps)"

text \<open>\<open>s.partition(c)\<close> as (head, found, tail).\<close>

fun partition_on :: "char \<Rightarrow> string \<Rightarrow> string \<times> bool \<times> string" where
  "partition_on sep [] = ([], False, [])"
| "partition_on sep (c # s) =
     (if c = sep then ([], True, s)
      else (case partition_on sep s of (h, b, t) \<Rightarrow> (c # h, b, t)))"

text \<open>\<open>sep.join(parts)\<close> for a separator of any length.\<close>

fun join_with :: "string \<Rightarrow> string list \<Rightarrow> string" where
  "join_with sep [] = []"
| "join_with sep [p] = p"
| "join_with sep (p # q # ps) = p @ sep @ join_with sep (q # ps)"

lemma split_on_nonempty [simp]: "split_on sep s \<noteq> []"
  by (induction s) (auto split: list.splits)

lemma join_split_on [simp]: "join_on sep (split_on sep s) = s"
proof (induction s)
  case Nil
  show ?case by simp
next
  case (Cons c s)
  then show ?case
    by (cases "split_on sep s"; cases "tl (split_on sep s)") auto
qed

lemma split_on_no_sep: "\<forall>p \<in> set (split_on sep s). sep \<notin> set p"
proof (induction s)
  case Nil
  show ?case by simp
next
  case (Cons c s)
  then show ?case by (cases "split_on sep s") auto
qed

lemma set_split_on: "p \<in> set (split_on sep s) \<Longrightarrow> set p \<subseteq> set s"
proof (induction s arbitrary: p)
  case (Cons c s)
  obtain q qs where q: "split_on sep s = q # qs"
    using split_on_nonempty [of sep s] by (cases "split_on sep s") auto
  with Cons.IH have "set q \<subseteq> set s" "\<forall>p \<in> set qs. set p \<subseteq> set s" by auto
  with Cons.prems q show ?case by (auto split: if_splits)
qed simp

lemma split_on_clean: "sep \<notin> set p \<Longrightarrow> split_on sep p = [p]"
  by (induction p) auto

lemma split_on_append_sep: "sep \<notin> set p \<Longrightarrow> split_on sep (p @ sep # s) = p # split_on sep s"
  by (induction p) auto

lemma split_join_on:
  assumes "ps \<noteq> []" and "\<forall>p \<in> set ps. sep \<notin> set p"
  shows "split_on sep (join_on sep ps) = ps"
  using assms
  by (induction sep ps rule: join_on.induct) (auto simp: split_on_clean split_on_append_sep)

lemma set_join_on: "set (join_on sep ps) \<subseteq> \<Union> (set ` set ps) \<union> {sep}"
  by (induction sep ps rule: join_on.induct) auto

lemma join_on_Nil_iff: "join_on sep ps = [] \<longleftrightarrow> ps = [] \<or> ps = [[]]"
  by (cases "(sep, ps)" rule: join_on.cases) auto

lemma join_on_Cons: "ps \<noteq> [] \<Longrightarrow> join_on sep (p # ps) = p @ sep # join_on sep ps"
  by (cases ps) auto

lemma partition_on_spec:
  "partition_on sep s = (h, b, t) \<Longrightarrow> sep \<notin> set h \<and> (if b then s = h @ sep # t else s = h \<and> t = [])"
  by (induction s arbitrary: h b t) (auto split: if_splits prod.splits)

lemma split_on_append: "split_on sep (s @ t) =
  butlast (split_on sep s) @ (last (split_on sep s) @ hd (split_on sep t)) # tl (split_on sep t)"
proof (induction s)
  case Nil
  then show ?case by (cases "split_on sep t") auto
next
  case (Cons c s)
  then show ?case
    by (cases "split_on sep s"; cases "tl (split_on sep s)") (auto split: list.splits)
qed

subsection \<open>Decimal numbers\<close>

text \<open>\<open>text.isascii() and text.isdigit()\<close> is false for the empty string.\<close>

definition digit_value :: "char \<Rightarrow> nat" where
  "digit_value c = (of_char c :: nat) - 48"

definition decimal :: "string \<Rightarrow> nat" where
  "decimal s = foldl (\<lambda>n c. 10 * n + digit_value c) 0 s"

fun show_nat :: "nat \<Rightarrow> string" where
  "show_nat n = (if n < 10 then [char_of (n + 48)] else show_nat (n div 10) @ [char_of (n mod 10 + 48)])"

declare show_nat.simps [simp del]

definition show_int :: "int \<Rightarrow> string" where
  "show_int i = (if i < 0 then CHR ''-'' # show_nat (nat (- i)) else show_nat (nat i))"

lemma decimal_snoc: "decimal (s @ [c]) = 10 * decimal s + digit_value c"
  by (simp add: decimal_def)

lemma of_char_small: "(of_char (char_of (n :: nat)) :: nat) = n mod 256"
  by simp

lemma digit_value_of: "(n :: nat) < 10 \<Longrightarrow> digit_value (char_of (n + 48)) = n"
  by (simp add: digit_value_def of_char_small)

lemma is_digit_of: "(n :: nat) < 10 \<Longrightarrow> is_digit (char_of (n + 48))"
  by (simp add: is_digit_def of_char_small)

lemma show_nat_digits: "show_nat n \<noteq> [] \<and> list_all is_digit (show_nat n)"
proof (induction n rule: show_nat.induct)
  case (1 n)
  then show ?case
    by (cases "n < 10") (simp_all add: show_nat.simps [of n] is_digit_of)
qed

lemma decimal_show_nat [simp]: "decimal (show_nat n) = n"
proof (induction n rule: show_nat.induct)
  case (1 n)
  show ?case
  proof (cases "n < 10")
    case True
    then show ?thesis
      by (simp add: show_nat.simps [of n] decimal_def digit_value_of)
  next
    case False
    with 1 have "decimal (show_nat (n div 10)) = n div 10" by simp
    with False show ?thesis
      by (simp add: show_nat.simps [of n] decimal_snoc digit_value_of)
  qed
qed

lemma show_nat_inject [simp]: "show_nat m = show_nat n \<longleftrightarrow> m = n"
  by (metis decimal_show_nat)

subsection \<open>Texts built from clean lines\<close>

definition clean_line :: "string \<Rightarrow> bool" where
  "clean_line l \<longleftrightarrow> list_all (\<lambda>c. \<not> is_line_end c) l"

lemma clean_line_simps [simp]:
  "clean_line []" "clean_line (c # l) \<longleftrightarrow> \<not> is_line_end c \<and> clean_line l"
  "clean_line (k @ l) \<longleftrightarrow> clean_line k \<and> clean_line l"
  by (simp_all add: clean_line_def)

lemma line_end_facts:
  "is_line_end CHR 0x0A" "is_line_end CHR 0x0D"
  by (simp_all add: is_line_end_def)

lemma line_scan_clean: "clean_line l \<Longrightarrow> line_scan acc l = (if acc = [] \<and> l = [] then [] else [rev acc @ l])"
  by (induction acc l rule: line_scan.induct) (auto simp: line_end_facts)

lemma line_scan_LF:
  "clean_line l \<Longrightarrow> line_scan acc (l @ CHR 0x0A # s) = (rev acc @ l) # line_scan [] s"
proof (induction l arbitrary: acc)
  case Nil
  then show ?case by (cases s) (simp_all add: line_end_facts)
next
  case (Cons c l)
  then have "c \<noteq> CHR 0x0D" by (auto simp: line_end_facts)
  with Cons show ?case by (cases l) simp_all
qed

lemma splitlines_LF: "clean_line l \<Longrightarrow> splitlines (l @ CHR 0x0A # s) = l # splitlines s"
  by (simp add: splitlines_def line_scan_LF)

lemma splitlines_clean: "clean_line l \<Longrightarrow> l \<noteq> [] \<Longrightarrow> splitlines l = [l]"
  by (simp add: splitlines_def line_scan_clean)

lemma splitlines_Nil [simp]: "splitlines [] = []"
  by (simp add: splitlines_def)

text \<open>Every line \<open>splitlines\<close> gives is clean.\<close>

lemma line_scan_lines: "clean_line (rev acc) \<Longrightarrow> l \<in> set (line_scan acc s) \<Longrightarrow> clean_line l"
proof (induction acc s rule: line_scan.induct)
  case (3 acc c d s)
  then show ?case by (auto split: if_splits)
qed (auto split: if_splits)

lemma splitlines_lines: "l \<in> set (splitlines s) \<Longrightarrow> clean_line l"
  using line_scan_lines [of "[]" l s] by (simp add: splitlines_def)

lemma set_lstrip: "set (lstrip_by f s) \<subseteq> set s"
  by (auto simp: lstrip_by_def dest: set_dropWhileD)

lemma set_rstrip: "set (rstrip_by f s) \<subseteq> set s"
  by (auto simp: rstrip_by_def dest: set_dropWhileD)

lemma clean_line_subset: "set l \<subseteq> set k \<Longrightarrow> clean_line k \<Longrightarrow> clean_line l"
  by (auto simp: clean_line_def list_all_iff)

lemma clean_strip [simp]: "clean_line s \<Longrightarrow> clean_line (strip s)"
  by (rule clean_line_subset [of _ s]) (use set_lstrip set_rstrip in \<open>fastforce simp: strip_def\<close>)

lemma clean_strip_char [simp]: "clean_line s \<Longrightarrow> clean_line (strip_char c s)"
  by (rule clean_line_subset [of _ s]) (use set_lstrip set_rstrip in \<open>fastforce simp: strip_char_def\<close>)

lemma partition_on_set: "partition_on sep s = (h, b, t) \<Longrightarrow> set h \<subseteq> set s \<and> set t \<subseteq> set s"
  using partition_on_spec [of sep s h b t] by (auto split: if_splits)

subsection \<open>\<open>shlex.quote\<close> and \<open>shlex.join\<close>\<close>

text \<open>The characters \<open>[\w@%+=:,./-]\<close> of Python's \<open>shlex\<close>, under \<open>re.ASCII\<close>.\<close>

definition shell_safe :: "char \<Rightarrow> bool" where
  "shell_safe c \<longleftrightarrow> is_alnum c \<or> c \<in> set ''_@%+=:,./-''"

fun quote_single :: "string \<Rightarrow> string" where
  "quote_single [] = []"
| "quote_single (c # s) =
     (if c = CHR 0x27 then [CHR 0x27, CHR 0x22, CHR 0x27, CHR 0x22, CHR 0x27] else [c]) @ quote_single s"

definition shlex_quote :: "string \<Rightarrow> string" where
  "shlex_quote s =
     (if s = [] then [CHR 0x27, CHR 0x27]
      else if list_all shell_safe s then s
      else CHR 0x27 # quote_single s @ [CHR 0x27])"

definition shlex_join :: "string list \<Rightarrow> string" where
  "shlex_join argv = join_on CHR '' '' (map shlex_quote argv)"

text \<open>
  How a POSIX shell reads such a text back: words are separated by spaces, a text in single
  quotes stands for itself, and so does one in double quotes that holds none of the
  characters special there. Any other character is one the shell might interpret, and the
  reading fails (\<open>None\<close>). The scan's first argument is the word being read, none between
  words.
\<close>

datatype quoting = Bare | Single | Double

fun shell_scan :: "quoting \<Rightarrow> string option \<Rightarrow> string \<Rightarrow> string list option" where
  "shell_scan Bare w [] = Some (case w of None \<Rightarrow> [] | Some u \<Rightarrow> [u])"
| "shell_scan Single w [] = None"
| "shell_scan Double w [] = None"
| "shell_scan Bare w (c # s) =
     (let u = (case w of None \<Rightarrow> [] | Some u \<Rightarrow> u) in
      if c = CHR '' '' then
        (case w of None \<Rightarrow> shell_scan Bare None s | Some _ \<Rightarrow> map_option ((#) u) (shell_scan Bare None s))
      else if c = CHR 0x27 then shell_scan Single (Some u) s
      else if c = CHR 0x22 then shell_scan Double (Some u) s
      else if shell_safe c then shell_scan Bare (Some (u @ [c])) s
      else None)"
| "shell_scan Single w (c # s) =
     (let u = (case w of None \<Rightarrow> [] | Some u \<Rightarrow> u) in
      if c = CHR 0x27 then shell_scan Bare (Some u) s else shell_scan Single (Some (u @ [c])) s)"
| "shell_scan Double w (c # s) =
     (let u = (case w of None \<Rightarrow> [] | Some u \<Rightarrow> u) in
      if c = CHR 0x22 then shell_scan Bare (Some u) s
      else if c \<in> {CHR 0x24, CHR 0x60, CHR 0x5C, CHR 0x21} then None
      else shell_scan Double (Some (u @ [c])) s)"

definition shell_words :: "string \<Rightarrow> string list option" where
  "shell_words s = shell_scan Bare None s"

definition word_of :: "string option \<Rightarrow> string" where
  "word_of w = (case w of None \<Rightarrow> [] | Some u \<Rightarrow> u)"

lemma word_of_simps [simp]: "word_of None = []" "word_of (Some u) = u"
  by (simp_all add: word_of_def)

lemma safe_not_quote: "shell_safe c \<Longrightarrow> c \<noteq> CHR '' '' \<and> c \<noteq> CHR 0x27 \<and> c \<noteq> CHR 0x22"
  by (auto simp: shell_safe_def char_class_defs)

lemma scan_safe:
  "list_all shell_safe s \<Longrightarrow> s \<noteq> [] \<Longrightarrow> shell_scan Bare w (s @ r) = shell_scan Bare (Some (word_of w @ s)) r"
proof (induction s arbitrary: w)
  case Nil
  then show ?case by simp
next
  case (Cons c s)
  then have c: "shell_safe c" by simp
  with safe_not_quote have step: "shell_scan Bare w ((c # s) @ r) = shell_scan Bare (Some (word_of w @ [c])) (s @ r)"
    by (simp add: word_of_def Let_def)
  show ?case
  proof (cases "s = []")
    case True
    then show ?thesis unfolding step by simp
  next
    case False
    with Cons.IH [of "Some (word_of w @ [c])"] Cons.prems show ?thesis
      unfolding step by simp
  qed
qed

lemma scan_quote_single:
  "shell_scan Single (Some u) (quote_single s @ CHR 0x27 # r) = shell_scan Bare (Some (u @ s)) r"
proof (induction s arbitrary: u)
  case Nil
  show ?case by (simp add: Let_def)
next
  case (Cons c s)
  then show ?case by (simp add: Let_def)
qed

lemma scan_shlex_quote: "shell_scan Bare None (shlex_quote s @ r) = shell_scan Bare (Some s) r"
  by (auto simp: shlex_quote_def scan_safe scan_quote_single Let_def)

lemma scan_shlex_join: "shell_scan Bare None (shlex_join argv) = Some argv"
proof (induction argv)
  case Nil
  show ?case by (simp add: shlex_join_def)
next
  case (Cons a argv)
  have last_word: "shell_scan Bare (Some a) [] = Some [a]" by simp
  show ?case
  proof (cases "argv = []")
    case True
    then show ?thesis
      using scan_shlex_quote [of a "[]"] by (simp add: shlex_join_def)
  next
    case False
    then have "shlex_join (a # argv) = shlex_quote a @ CHR '' '' # shlex_join argv"
      by (simp add: shlex_join_def join_on_Cons)
    then show ?thesis using Cons by (simp add: scan_shlex_quote Let_def)
  qed
qed

end
