(* ===== verification/Yo_Regex.thy ===== *)
theory Yo_Regex
  imports Yo_Text
begin

text \<open>
  Python's \<open>re.fullmatch\<close> for the patterns of the program: the patterns are written
  down as terms of \<open>rx\<close>, \<open>lang\<close> is the set of texts a pattern stands for, and
  \<open>fullmatch\<close> decides membership by derivatives, so that a pattern of the model is the
  source's pattern and still computes. \<open>fullmatch_iff\<close> is the link between the two.
\<close>

datatype rx = Never | Eps | Cls "char \<Rightarrow> bool" | Cat rx rx | Or rx rx | Star rx

inductive_set star_of :: "string set \<Rightarrow> string set" for L where
  star_Nil: "[] \<in> star_of L"
| star_app: "u \<in> L \<Longrightarrow> v \<in> star_of L \<Longrightarrow> u @ v \<in> star_of L"

fun lang :: "rx \<Rightarrow> string set" where
  "lang Never = {}"
| "lang Eps = {[]}"
| "lang (Cls f) = {[c] | c. f c}"
| "lang (Cat r q) = {u @ v | u v. u \<in> lang r \<and> v \<in> lang q}"
| "lang (Or r q) = lang r \<union> lang q"
| "lang (Star r) = star_of (lang r)"

text \<open>The derived forms: a literal, an optional part, one or more, and \<open>{m,n}\<close>.\<close>

fun Lit :: "string \<Rightarrow> rx" where
  "Lit [] = Eps"
| "Lit [c] = Cls (\<lambda>d. d = c)"
| "Lit (c # d # s) = Cat (Cls (\<lambda>e. e = c)) (Lit (d # s))"

definition Opt :: "rx \<Rightarrow> rx" where "Opt r = Or Eps r"

definition Plus :: "rx \<Rightarrow> rx" where "Plus r = Cat r (Star r)"

fun Upto :: "nat \<Rightarrow> rx \<Rightarrow> rx" where
  "Upto 0 r = Eps"
| "Upto (Suc n) r = Or Eps (Cat r (Upto n r))"

fun Times :: "nat \<Rightarrow> rx \<Rightarrow> rx" where
  "Times 0 r = Eps"
| "Times (Suc n) r = Cat r (Times n r)"

fun Seqs :: "rx list \<Rightarrow> rx" where
  "Seqs [] = Eps"
| "Seqs [r] = r"
| "Seqs (r # q # rs) = Cat r (Seqs (q # rs))"

subsection \<open>The matcher\<close>

fun nullable :: "rx \<Rightarrow> bool" where
  "nullable Never = False"
| "nullable Eps = True"
| "nullable (Cls f) = False"
| "nullable (Cat r q) = (nullable r \<and> nullable q)"
| "nullable (Or r q) = (nullable r \<or> nullable q)"
| "nullable (Star r) = True"

fun cat :: "rx \<Rightarrow> rx \<Rightarrow> rx" where
  "cat Never q = Never"
| "cat Eps q = q"
| "cat r q = Cat r q"

fun alt :: "rx \<Rightarrow> rx \<Rightarrow> rx" where
  "alt Never q = q"
| "alt r Never = r"
| "alt r q = Or r q"

fun deriv :: "char \<Rightarrow> rx \<Rightarrow> rx" where
  "deriv c Never = Never"
| "deriv c Eps = Never"
| "deriv c (Cls f) = (if f c then Eps else Never)"
| "deriv c (Cat r q) = (if nullable r then alt (cat (deriv c r) q) (deriv c q) else cat (deriv c r) q)"
| "deriv c (Or r q) = alt (deriv c r) (deriv c q)"
| "deriv c (Star r) = cat (deriv c r) (Star r)"

fun fullmatch :: "rx \<Rightarrow> string \<Rightarrow> bool" where
  "fullmatch r [] = nullable r"
| "fullmatch r (c # s) = fullmatch (deriv c r) s"

lemma nullable_iff: "nullable r \<longleftrightarrow> [] \<in> lang r"
  by (induction r) (auto intro: star_Nil)

lemma lang_cat [simp]: "lang (cat r q) = lang (Cat r q)"
  by (cases "(r, q)" rule: cat.cases) auto

lemma lang_alt [simp]: "lang (alt r q) = lang (Or r q)"
  by (cases "(r, q)" rule: alt.cases) auto

lemma star_ConsD:
  "w \<in> star_of L \<Longrightarrow> w = c # s \<Longrightarrow> \<exists>u v. s = u @ v \<and> c # u \<in> L \<and> v \<in> star_of L"
proof (induction arbitrary: c s rule: star_of.induct)
  case star_Nil
  then show ?case by simp
next
  case (star_app u v)
  show ?case
  proof (cases u)
    case Nil
    with star_app.prems star_app.IH show ?thesis by simp
  next
    case (Cons d u')
    with star_app show ?thesis by auto
  qed
qed

lemma star_Cons_iff:
  "c # s \<in> star_of L \<longleftrightarrow> (\<exists>u v. s = u @ v \<and> c # u \<in> L \<and> v \<in> star_of L)"
proof
  assume "c # s \<in> star_of L"
  then show "\<exists>u v. s = u @ v \<and> c # u \<in> L \<and> v \<in> star_of L"
    by (rule star_ConsD) simp
next
  assume "\<exists>u v. s = u @ v \<and> c # u \<in> L \<and> v \<in> star_of L"
  then obtain u v where "s = u @ v" "c # u \<in> L" "v \<in> star_of L" by blast
  with star_app [of "c # u" L v] show "c # s \<in> star_of L" by simp
qed

lemma cat_Cons_iff:
  "c # s \<in> {u @ v | u v. u \<in> A \<and> v \<in> B} \<longleftrightarrow>
   (\<exists>u v. s = u @ v \<and> c # u \<in> A \<and> v \<in> B) \<or> [] \<in> A \<and> c # s \<in> B"
  by (auto simp: Cons_eq_append_conv)

lemma deriv_iff: "s \<in> lang (deriv c r) \<longleftrightarrow> c # s \<in> lang r"
proof (induction r arbitrary: s)
  case (Cat r q)
  show ?case
    unfolding lang.simps cat_Cons_iff using Cat by (auto simp: nullable_iff)
next
  case (Star r)
  show ?case
    unfolding lang.simps star_Cons_iff using Star by auto
qed auto

theorem fullmatch_iff: "fullmatch r s \<longleftrightarrow> s \<in> lang r"
  by (induction s arbitrary: r) (auto simp: nullable_iff deriv_iff)

subsection \<open>What the derived forms stand for\<close>

lemma lang_Lit [simp]: "lang (Lit s) = {s}"
  by (induction s rule: Lit.induct) auto

lemma lang_Opt [simp]: "lang (Opt r) = insert [] (lang r)"
  by (simp add: Opt_def)

lemma star_Cls: "s \<in> star_of {[c] | c. f c} \<longleftrightarrow> list_all f s"
proof
  assume "s \<in> star_of {[c] | c. f c}"
  then show "list_all f s" by (induction rule: star_of.induct) auto
next
  show "list_all f s \<Longrightarrow> s \<in> star_of {[c] | c. f c}"
  proof (induction s)
    case Nil
    show ?case by (rule star_Nil)
  next
    case (Cons c s)
    then have "[c] @ s \<in> star_of {[c] | c. f c}" by (intro star_app) auto
    then show ?case by simp
  qed
qed

lemma lang_Star_Cls [simp]: "lang (Star (Cls f)) = {s. list_all f s}"
  using star_Cls [of _ f] by auto

lemma lang_Cat_Cls: "s \<in> lang (Cat (Cls f) r) \<longleftrightarrow> (case s of [] \<Rightarrow> False | c # t \<Rightarrow> f c \<and> t \<in> lang r)"
proof (cases s)
  case (Cons c t)
  have "(\<exists>u v. s = u @ v \<and> (\<exists>c. u = [c] \<and> f c) \<and> v \<in> lang r) \<longleftrightarrow> f c \<and> t \<in> lang r"
    by (auto simp: Cons intro: exI [of _ "[c]"])
  with Cons show ?thesis by simp
qed auto

lemma lang_Plus_Cls [simp]: "lang (Plus (Cls f)) = {s. s \<noteq> [] \<and> list_all f s}"
  by (simp add: Plus_def set_eq_iff lang_Cat_Cls del: lang.simps split: list.splits)

lemma lang_Times_Cls [simp]: "lang (Times n (Cls f)) = {s. length s = n \<and> list_all f s}"
  by (induction n) (auto simp: set_eq_iff lang_Cat_Cls simp del: lang.simps(4) split: list.splits)

lemma lang_Upto_Cls [simp]: "lang (Upto n (Cls f)) = {s. length s \<le> n \<and> list_all f s}"
proof (induction n)
  case 0
  then show ?case by auto
next
  case (Suc n)
  have "s \<in> lang (Upto (Suc n) (Cls f)) \<longleftrightarrow> s \<in> {s. length s \<le> Suc n \<and> list_all f s}" for s
    using Suc lang_Cat_Cls [of s f "Upto n (Cls f)"] by (cases s) (auto simp del: lang.simps(4))
  then show ?case by blast
qed

lemma lang_Cat_iff: "s \<in> lang (Cat r q) \<longleftrightarrow> (\<exists>u v. s = u @ v \<and> u \<in> lang r \<and> v \<in> lang q)"
  by auto

lemma lang_CatI: "u \<in> lang r \<Longrightarrow> v \<in> lang q \<Longrightarrow> u @ v \<in> lang (Cat r q)"
  by auto

lemma lang_CatE:
  assumes "s \<in> lang (Cat r q)"
  obtains u v where "s = u @ v" "u \<in> lang r" "v \<in> lang q"
  using assms by auto

text \<open>A pattern built from character classes only accepts characters of one of them.\<close>

fun rx_chars :: "(char \<Rightarrow> bool) \<Rightarrow> rx \<Rightarrow> bool" where
  "rx_chars P Never = True"
| "rx_chars P Eps = True"
| "rx_chars P (Cls f) = (\<forall>c. f c \<longrightarrow> P c)"
| "rx_chars P (Cat r q) = (rx_chars P r \<and> rx_chars P q)"
| "rx_chars P (Or r q) = (rx_chars P r \<and> rx_chars P q)"
| "rx_chars P (Star r) = rx_chars P r"

lemma rx_chars_lang: "rx_chars P r \<Longrightarrow> s \<in> lang r \<Longrightarrow> list_all P s"
proof (induction r arbitrary: s)
  case (Star r)
  from Star.prems(2) have "s \<in> star_of (lang r)" by simp
  then show ?case
    by (induction rule: star_of.induct) (use Star in auto)
qed auto

lemma rx_chars_fullmatch: "rx_chars P r \<Longrightarrow> fullmatch r s \<Longrightarrow> list_all P s"
  by (simp add: fullmatch_iff rx_chars_lang)

lemma rx_chars_Lit [simp]: "rx_chars P (Lit s) \<longleftrightarrow> list_all P s"
  by (induction s rule: Lit.induct) auto

lemma rx_chars_Opt [simp]: "rx_chars P (Opt r) \<longleftrightarrow> rx_chars P r"
  by (simp add: Opt_def)

lemma rx_chars_Plus [simp]: "rx_chars P (Plus r) \<longleftrightarrow> rx_chars P r"
  by (simp add: Plus_def)

lemma rx_chars_Upto: "rx_chars P r \<Longrightarrow> rx_chars P (Upto n r)"
  by (induction n) auto

lemma rx_chars_Times: "rx_chars P r \<Longrightarrow> rx_chars P (Times n r)"
  by (induction n) auto

end
