(* ===== verification/Yo_World.thy ===== *)
theory Yo_World
  imports Yo_Regex Complex_Main
begin

text \<open>
  The world outside yo. A run of the program is a function of the history of events so far:
  every process it starts, file it writes, lock it takes and line it prints is appended to
  the history, and every answer (what a process printed, what a file held, what the clock
  said) is read off an environment \<open>env\<close> whose fields are functions of that history. No
  law is assumed of an environment, so a theorem for all environments holds whatever the
  guest, the host and other processes do between two steps of yo.

  Exceptions are values of \<open>exn\<close>: the class, the message (its opening words and the values
  interpolated into it; none for a \<open>YoError(None, code)\<close>) and the exit code.
\<close>

subsection \<open>Text shown on a terminal (common.py, ui.py)\<close>

text \<open>\<open>CONTROL_BYTES_RE\<close> and \<open>sanitize\<close>: tab and newline stay.\<close>

definition control_byte :: "char \<Rightarrow> bool" where
  "control_byte c \<longleftrightarrow>
     (let n = (of_char c :: nat)
      in n \<le> 8 \<or> 11 \<le> n \<and> n \<le> 31 \<or> 127 \<le> n \<and> n \<le> 159)"

definition sanitize :: "string \<Rightarrow> string" where
  "sanitize text = map (\<lambda>c. if control_byte c then CHR ''?'' else c) text"


text \<open>
  \<open>ui.shown\<close>: a text that is printable throughout as it is, any other with Python's
  backslash escapes (\<open>repr\<close> without its quotes).
\<close>

definition is_printable :: "char \<Rightarrow> bool" where
  "is_printable c \<longleftrightarrow>
     (let n = (of_char c :: nat) in 32 \<le> n \<and> n \<le> 126 \<or> 161 \<le> n \<and> n \<noteq> 173)"

definition low_hex :: "nat \<Rightarrow> char" where
  "low_hex n = char_of (if n < 10 then n + 48 else n + 87)"

definition repr_char :: "bool \<Rightarrow> char \<Rightarrow> string" where
  "repr_char single c =
     (let n = (of_char c :: nat) in
      if c = CHR 0x5C then [CHR 0x5C, CHR 0x5C]
      else if single \<and> c = CHR 0x27 then [CHR 0x5C, CHR 0x27]
      else if n = 10 then [CHR 0x5C, CHR ''n'']
      else if n = 13 then [CHR 0x5C, CHR ''r'']
      else if n = 9 then [CHR 0x5C, CHR ''t'']
      else if is_printable c then [c]
      else [CHR 0x5C, CHR ''x'', low_hex (n div 16), low_hex (n mod 16)])"

definition shown :: "string \<Rightarrow> string" where
  "shown txt =
     (if list_all is_printable txt then txt
      else (let single = \<not> (CHR 0x27 \<in> set txt \<and> CHR 0x22 \<notin> set txt)
            in concat (map (repr_char single) txt)))"

lemma control_byte_question [simp]: "\<not> control_byte CHR ''?''"
  by (simp add: control_byte_def)

lemma sanitize_no_controls: "\<forall>c \<in> set (sanitize text). \<not> control_byte c"
  by (auto simp: sanitize_def)

lemma sanitize_idem: "sanitize (sanitize text) = sanitize text"
  by (simp add: sanitize_def)

lemma sanitize_id: "\<forall>c \<in> set t. \<not> control_byte c \<Longrightarrow> sanitize t = t"
  by (induction t) (auto simp: sanitize_def)

lemma low_hex_printable: "n < 16 \<Longrightarrow> is_printable (low_hex n)"
  by (simp add: is_printable_def low_hex_def Let_def)

lemma shown_printable: "list_all is_printable (shown txt)"
proof -
  have "list_all is_printable (repr_char b c)" for b c
  proof -
    have byte: "(of_char c :: nat) < 256" by simp
    then have "(of_char c :: nat) div 16 < 16" "(of_char c :: nat) mod 16 < 16"
      by (simp_all add: less_mult_imp_div_less)
    moreover have "is_printable CHR 0x5C" "is_printable CHR ''x''" "is_printable CHR ''n''"
      "is_printable CHR ''r''" "is_printable CHR ''t''" "is_printable CHR 0x27"
      by (simp_all add: is_printable_def)
    ultimately show ?thesis
      by (auto simp: repr_char_def Let_def low_hex_printable)
  qed
  then show ?thesis by (auto simp: shown_def Let_def list_all_iff)
qed

subsection \<open>Exceptions (yolobox_cli/ui.py)\<close>

datatype exn_class = Yo | Run_Timeout | Unreachable_Box | Stop_Refused | Agent_Hung_Up
  | Broker_Disable | Still_Running | Argument_Type | Value_Error | Attribute_Error | Lock_Busy | Os_Error
  | Keyboard_Interrupt | Broken_Pipe | Name_Error

type_synonym message = "string \<times> string list"

datatype exn = Exn (exn_class: exn_class) (exn_message: "message option") (exn_code: int)

definition YoError :: "string \<Rightarrow> string list \<Rightarrow> exn" where
  "YoError what args = Exn Yo (Some (what, args)) 1"

definition YoExit :: "int \<Rightarrow> exn" where
  "YoExit code = Exn Yo None code"

definition ArgumentTypeError :: "string \<Rightarrow> string list \<Rightarrow> exn" where
  "ArgumentTypeError what args = Exn Argument_Type (Some (what, args)) 2"

text \<open>
  Not an exception of the program: the model's value for a waiting loop that has not ended
  within its fuel. Nothing catches it.
\<close>

definition StillRunning :: exn where
  "StillRunning = Exn Still_Running None 0"

definition await :: "('s, exn, 'a option) eff \<Rightarrow> ('s, exn, 'a) eff" where
  "await m = bnd m (\<lambda>r. case r of None \<Rightarrow> raise StillRunning | Some x \<Rightarrow> ret x)"

text \<open>The subclasses of \<open>YoError\<close>: what an \<open>except YoError\<close> catches.\<close>

definition is_yo_error :: "exn \<Rightarrow> bool" where
  "is_yo_error e \<longleftrightarrow> exn_class e \<in> {Yo, Run_Timeout, Unreachable_Box, Stop_Refused, Agent_Hung_Up, Broker_Disable}"

text \<open>\<open>except YoError as e: h e\<close>; any other exception passes.\<close>

definition except_yo :: "('s, exn, 'a) eff \<Rightarrow> (exn \<Rightarrow> ('s, exn, 'a) eff) \<Rightarrow> ('s, exn, 'a) eff" where
  "except_yo m h = catch m (\<lambda>e. if is_yo_error e then h e else raise e)"

lemma is_yo_error_YoError [simp]: "is_yo_error (YoError w a)"
  by (simp add: is_yo_error_def YoError_def)

lemma is_yo_error_YoExit [simp]: "is_yo_error (YoExit c)"
  by (simp add: is_yo_error_def YoExit_def)

lemma keeps_except_yo [hoare_rules]:
  "keeps I m \<Longrightarrow> (\<And>e. keeps I (h e)) \<Longrightarrow> keeps I (except_yo m h)"
  unfolding except_yo_def by (intro keeps_catch keeps_if keeps_raise)

text \<open>\<open>except LockBusy: h\<close>\<close>

definition except_busy :: "('s, exn, 'a) eff \<Rightarrow> ('s, exn, 'a) eff \<Rightarrow> ('s, exn, 'a) eff" where
  "except_busy m h = catch m (\<lambda>e. if exn_class e = Lock_Busy then h else raise e)"

text \<open>\<open>failure.message\<close>, and the error raised again with more to its text.\<close>

definition message_of :: "exn \<Rightarrow> message" where
  "message_of e = (case exn_message e of None \<Rightarrow> ([], []) | Some m \<Rightarrow> m)"

definition message_texts :: "message list \<Rightarrow> string list" where
  "message_texts ms = concat (map (\<lambda>m. fst m # snd m) ms)"

definition YoErrorAfter :: "exn \<Rightarrow> string \<Rightarrow> string list \<Rightarrow> exn" where
  "YoErrorAfter failure what args =
     Exn Yo (Some (fst (message_of failure), snd (message_of failure) @ what # args)) (exn_code failure)"

lemma is_yo_error_After [simp]: "is_yo_error (YoErrorAfter e w a)"
  by (simp add: YoErrorAfter_def is_yo_error_def)

subsection \<open>Events and the environment\<close>

datatype event =
    Ran "string list" "string option"      \<comment> \<open>a process run to its end: argv and its stdin\<close>
  | Spawned "string list" "string option"  \<comment> \<open>a process started beside yo\<close>
  | Said message                           \<comment> \<open>a line on yo's stdout\<close>
  | Warned message                         \<comment> \<open>a line on yo's stderr\<close>
  | Wrote string string nat                \<comment> \<open>path, content and mode of an atomic write\<close>
  | Deleted string                         \<comment> \<open>a file or tree deleted\<close>
  | Made_Dir string
  | Took_Lock string
  | Dropped_Lock string
  | Slept rat
  | Called_Agent string string             \<comment> \<open>socket path and request of an ssh-agent call\<close>
  | Dialled string nat                     \<comment> \<open>a TCP connect that reads the sshd's banner\<close>
  | Execed "string list"                   \<comment> \<open>yo replaces itself by this process\<close>
  | Did string "string list"               \<comment> \<open>any other call that changes the host: what, and on what\<close>

type_synonym history = "event list"        \<comment> \<open>oldest first\<close>

type_synonym 'a io = "(history, exn, 'a) eff"

datatype proc_answer =
    Finished int string string             \<comment> \<open>exit code, stdout, stderr\<close>
  | Not_On_Path

datatype file_answer = No_File | Unreadable | Text string

text \<open>What a connection to the ssh agent gives: the chunks \<open>recv\<close> meets in order, and how the
  stream ends.\<close>

datatype stream_end = Closes | Resets | Stalls

datatype agent_answer = Not_Answering | Connected "string list" stream_end

text \<open>
  What a walk of a host path finds: a directory has its mode and its entries in the order
  \<open>os.scandir\<close> gives them, a link its target and whether that is a directory; \<open>Sealed\<close> is a
  directory that cannot be listed, \<open>Special\<close> a socket, fifo or device.
\<close>

datatype tree = File string | Link string bool | Special | Sealed | Dir nat "(string \<times> tree) list"

text \<open>
  Answers of the other calls yo makes: a signal sent to a process, a watch on a process's
  exit, and the sections of an ini file as \<open>configparser\<close> gives them (each with its options,
  those of \<open>[DEFAULT]\<close> included, names in lower case).
\<close>

datatype kill_answer = Signalled | No_Such_Process | Not_Permitted

datatype watch_answer = Already_Gone | Unwatchable string | Exits_Within bool

datatype ini_answer = No_Ini | Ini_Failure string | Sections "(string \<times> (string \<times> string) list) list"

text \<open>An element of an XML document, as \<open>ElementTree\<close> gives it.\<close>

datatype xml =
  Element (xml_tag: string) (xml_attrs: "(string \<times> string) list") (xml_text: string) (xml_children: "xml list")

record env =
  env_home :: string
  env_user :: string
  env_version :: string
  env_uid :: nat
  env_socket_limit :: nat                \<comment> \<open>\<open>UNIX_SOCKET_PATH_LIMIT\<close>: 104 on macOS, else 108\<close>
  env_cpus :: "nat option"               \<comment> \<open>\<open>os.cpu_count()\<close>\<close>
  env_tty :: bool                        \<comment> \<open>stdin is a terminal\<close>
  typed_ans :: "history \<Rightarrow> string option" \<comment> \<open>a line typed; none at end of file\<close>
  stat_ans :: "history \<Rightarrow> string \<Rightarrow> (nat \<times> nat) option" \<comment> \<open>owner and mode of a file\<close>
  proc_ans :: "history \<Rightarrow> string list \<Rightarrow> string option \<Rightarrow> proc_answer"
  overruns :: "history \<Rightarrow> string list \<Rightarrow> rat \<Rightarrow> bool"  \<comment> \<open>not ended within the timeout\<close>
  file_ans :: "history \<Rightarrow> string \<Rightarrow> file_answer"
  exists_ans :: "history \<Rightarrow> string \<Rightarrow> bool"
  lock_busy :: "history \<Rightarrow> string \<Rightarrow> bool"
  clock :: "history \<Rightarrow> rat"
  agent_ans :: "history \<Rightarrow> string \<Rightarrow> string \<Rightarrow> agent_answer"
  tree_ans :: "history \<Rightarrow> string \<Rightarrow> tree option"      \<comment> \<open>what is at a host path\<close>
  os_error :: "history \<Rightarrow> string \<Rightarrow> string list \<Rightarrow> string option" \<comment> \<open>why a call on the host fails\<close>
  banner_ans :: "history \<Rightarrow> string \<Rightarrow> nat \<Rightarrow> string list"
  which_ans :: "history \<Rightarrow> string \<Rightarrow> string option"  \<comment> \<open>\<open>shutil.which\<close>\<close>
  ini_ans :: "history \<Rightarrow> string \<Rightarrow> ini_answer"
  health_ans :: "history \<Rightarrow> string \<Rightarrow> (nat \<times> string) option"
    \<comment> \<open>HTTP status and body of a GET on a unix socket; none for any failure of it\<close>
  kill_ans :: "history \<Rightarrow> int \<Rightarrow> kill_answer"
  watch_ans :: "history \<Rightarrow> int \<Rightarrow> rat \<Rightarrow> watch_answer"
  child_ans :: "history \<Rightarrow> string list \<Rightarrow> (rat \<times> string) list option"
    \<comment> \<open>what a started child writes, with the times; none when it is not on the PATH\<close>
  exit_ans :: "history \<Rightarrow> string list \<Rightarrow> int option"  \<comment> \<open>a started child's exit within the time left\<close>
  env_signal_name :: "nat \<Rightarrow> string option"
  env_script_dir :: string               \<comment> \<open>where yo's own files are installed\<close>
  env_platform :: string                 \<comment> \<open>\<open>sys.platform\<close>\<close>
  env_stdout_tty :: bool
  env_in_herdr :: bool                   \<comment> \<open>\<open>HERDR_ENV\<close> is 1\<close>
  xml_of :: "string \<Rightarrow> xml option"      \<comment> \<open>\<open>ElementTree.fromstring\<close>; none for a parse error\<close>
  ip_unspecified :: "string \<Rightarrow> bool"    \<comment> \<open>a valid address, and the unspecified one\<close>
  account_ans :: "history \<Rightarrow> string \<Rightarrow> (nat \<times> nat) option" \<comment> \<open>uid and gid of an account\<close>
  bind_ans :: "history \<Rightarrow> nat \<Rightarrow> string + bool" \<comment> \<open>is a loopback port bound, or why the probe failed\<close>
  blocks_ans :: "history \<Rightarrow> string \<Rightarrow> string + nat option" \<comment> \<open>blocks a file allocates, or why not read\<close>
  free_bytes :: "history \<Rightarrow> string \<Rightarrow> nat"
  file_size :: "history \<Rightarrow> string \<Rightarrow> nat"
  sha512_ans :: "history \<Rightarrow> string \<Rightarrow> string" \<comment> \<open>the hex digest of a file\<close>
  fetch_ans :: "history \<Rightarrow> string \<Rightarrow> string option" \<comment> \<open>why a download fails\<close>
  may_run :: "history \<Rightarrow> string \<Rightarrow> bool"     \<comment> \<open>\<open>os.access(path, X_OK)\<close>\<close>
  child_err :: "history \<Rightarrow> string list \<Rightarrow> string" \<comment> \<open>what a started child wrote to its stderr\<close>
  poll_ans :: "history \<Rightarrow> string list \<Rightarrow> int option" \<comment> \<open>a started child's exit code, if it has ended\<close>
  wait_ans :: "history \<Rightarrow> string list \<Rightarrow> int"    \<comment> \<open>a started child's exit code, waited for\<close>

subsection \<open>Primitive operations\<close>

definition emit :: "event \<Rightarrow> unit io" where
  "emit e = modifies (\<lambda>h. h @ [e])"

definition say :: "string \<Rightarrow> string list \<Rightarrow> unit io" where
  "say what args = emit (Said (sanitize what, map sanitize args))"

definition warn :: "string \<Rightarrow> string list \<Rightarrow> unit io" where
  "warn what args = emit (Warned (sanitize what, map sanitize args))"

definition now :: "env \<Rightarrow> rat io" where
  "now E = reads (clock E)"

definition sleep :: "rat \<Rightarrow> unit io" where
  "sleep t = emit (Slept t)"

definition which :: "env \<Rightarrow> string \<Rightarrow> string option io" where
  "which E name = reads (\<lambda>h. which_ans E h name)"

definition path_exists :: "env \<Rightarrow> string \<Rightarrow> bool io" where
  "path_exists E p = reads (\<lambda>h. exists_ans E h p)"

text \<open>A call on the host that may raise an \<open>OSError\<close>, with its reason.\<close>

definition OsError :: "string \<Rightarrow> exn" where
  "OsError reason = Exn Os_Error (Some (reason, [])) 1"

definition host_op :: "env \<Rightarrow> string \<Rightarrow> string list \<Rightarrow> unit io" where
  "host_op E call args =
     bnd (reads (\<lambda>h. os_error E h call args)) (\<lambda>failure.
     case failure of None \<Rightarrow> emit (Did call args) | Some reason \<Rightarrow> raise (OsError reason))"

definition os_reason :: "exn \<Rightarrow> string" where
  "os_reason e = (case exn_message e of Some (reason, _) \<Rightarrow> reason | None \<Rightarrow> [])"

text \<open>\<open>except OSError as failure: h failure\<close>\<close>

definition except_os :: "('s, exn, 'a) eff \<Rightarrow> (exn \<Rightarrow> ('s, exn, 'a) eff) \<Rightarrow> ('s, exn, 'a) eff" where
  "except_os m h = catch m (\<lambda>e. if exn_class e = Os_Error then h e else raise e)"

lemma hoare_emit [hoare_rules]: "(\<And>h. P h \<Longrightarrow> Q () (h @ [e])) \<Longrightarrow> hoare P (emit e) Q X"
  unfolding emit_def by (rule hoare_modifies)

lemma keeps_emit: "(\<And>h. I h \<Longrightarrow> I (h @ [e])) \<Longrightarrow> keeps I (emit e)"
  unfolding emit_def by (rule keeps_modifies)

text \<open>
  \<open>logs_only A m\<close>: whatever \<open>m\<close> does, it only appends events of \<open>A\<close> to the history.
  It is the footprint every property of the form ``never runs'' or ``only after'' rests on.
\<close>

definition logs_only :: "event set \<Rightarrow> 'a io \<Rightarrow> bool" where
  "logs_only A m \<longleftrightarrow> (\<forall>h r t. m h = (r, t) \<longrightarrow> (\<exists>es. t = h @ es \<and> set es \<subseteq> A))"

named_theorems footprint "footprints of operations"

lemma logs_onlyI: "(\<And>h r t. m h = (r, t) \<Longrightarrow> \<exists>es. t = h @ es \<and> set es \<subseteq> A) \<Longrightarrow> logs_only A m"
  by (simp add: logs_only_def)

lemma logs_onlyE:
  assumes "logs_only A m" and "m h = (r, t)"
  obtains es where "t = h @ es" "set es \<subseteq> A"
  using assms unfolding logs_only_def by blast

lemma logs_only_mono: "logs_only A m \<Longrightarrow> A \<subseteq> B \<Longrightarrow> logs_only B m"
  unfolding logs_only_def by (meson subset_trans)

lemma logs_ret [footprint]: "logs_only A (ret x)"
  and logs_raise [footprint]: "logs_only A (raise e)"
  and logs_reads [footprint]: "logs_only A (reads f)"
  and logs_lift [footprint]: "logs_only A (lift r)"
  by (auto intro!: logs_onlyI exI [of _ "[]"] simp: eff_defs)

lemma logs_emit [footprint]: "e \<in> A \<Longrightarrow> logs_only A (emit e)"
  by (auto intro!: logs_onlyI simp: emit_def eff_defs)

lemma logs_bnd [footprint]:
  assumes "logs_only A m" and "\<And>x. logs_only A (f x)"
  shows "logs_only A (bnd m f)"
proof (rule logs_onlyI)
  fix h r t
  assume run: "bnd m f h = (r, t)"
  obtain q u where mu: "m h = (q, u)" by fastforce
  with assms(1) obtain es where es: "u = h @ es" "set es \<subseteq> A" by (rule logs_onlyE)
  show "\<exists>es. t = h @ es \<and> set es \<subseteq> A"
  proof (cases q)
    case (Inl e)
    with run mu es show ?thesis by (auto simp: bnd_def)
  next
    case (Inr x)
    with run mu have "f x u = (r, t)" by (simp add: bnd_def)
    with assms(2) obtain es' where "t = u @ es'" "set es' \<subseteq> A" by (rule logs_onlyE)
    with es show ?thesis by (auto intro!: exI [of _ "es @ es'"])
  qed
qed

lemma logs_catch [footprint]:
  assumes "logs_only A m" and "\<And>e. logs_only A (f e)"
  shows "logs_only A (catch m f)"
proof (rule logs_onlyI)
  fix h r t
  assume run: "catch m f h = (r, t)"
  obtain q u where mu: "m h = (q, u)" by fastforce
  with assms(1) obtain es where es: "u = h @ es" "set es \<subseteq> A" by (rule logs_onlyE)
  show "\<exists>es. t = h @ es \<and> set es \<subseteq> A"
  proof (cases q)
    case (Inr x)
    with run mu es show ?thesis by (auto simp: catch_def)
  next
    case (Inl e)
    with run mu have "f e u = (r, t)" by (simp add: catch_def)
    with assms(2) obtain es' where "t = u @ es'" "set es' \<subseteq> A" by (rule logs_onlyE)
    with es show ?thesis by (auto intro!: exI [of _ "es @ es'"])
  qed
qed

lemma logs_if [footprint]: "logs_only A m \<Longrightarrow> logs_only A n \<Longrightarrow> logs_only A (if b then m else n)"
  by simp

lemma logs_except_yo [footprint]:
  "logs_only A m \<Longrightarrow> (\<And>e. logs_only A (f e)) \<Longrightarrow> logs_only A (except_yo m f)"
  unfolding except_yo_def by (intro footprint)

lemma logs_when [footprint]: "logs_only A m \<Longrightarrow> logs_only A (when_do b m)"
  by (simp add: when_do_def logs_ret)

lemma logs_opt_raise [footprint]: "logs_only A (opt_raise r)"
  by (cases r) (simp_all add: opt_raise_def logs_ret logs_raise)

lemma logs_case_option [footprint]:
  "logs_only A m \<Longrightarrow> (\<And>y. logs_only A (f y)) \<Longrightarrow> logs_only A (case x of None \<Rightarrow> m | Some y \<Rightarrow> f y)"
  by (cases x) simp_all

lemma logs_case_prod [footprint]: "(\<And>a b. logs_only A (f a b)) \<Longrightarrow> logs_only A (case x of (a, b) \<Rightarrow> f a b)"
  by (cases x) simp_all

lemma logs_case_sum [footprint]:
  "(\<And>a. logs_only A (f a)) \<Longrightarrow> (\<And>b. logs_only A (g b)) \<Longrightarrow>
   logs_only A (case x of Inl a \<Rightarrow> f a | Inr b \<Rightarrow> g b)"
  by (cases x) simp_all

lemma logs_case_list [footprint]:
  "logs_only A m \<Longrightarrow> (\<And>y ys. logs_only A (f y ys)) \<Longrightarrow> logs_only A (case x of [] \<Rightarrow> m | y # ys \<Rightarrow> f y ys)"
  by (cases x) simp_all

lemma logs_let [footprint]: "logs_only A (f e) \<Longrightarrow> logs_only A (let x = e in f x)"
  by simp

lemma logs_for_each [footprint]: "(\<And>x. logs_only A (f x)) \<Longrightarrow> logs_only A (for_each xs f)"
  by (induction xs) (auto intro: footprint)

lemma logs_say [footprint]: "Said (sanitize w, map sanitize a) \<in> A \<Longrightarrow> logs_only A (say w a)"
  and logs_warn [footprint]: "Warned (sanitize w, map sanitize a) \<in> A \<Longrightarrow> logs_only A (warn w a)"
  and logs_sleep [footprint]: "Slept t \<in> A \<Longrightarrow> logs_only A (sleep t)"
  by (auto simp: say_def warn_def sleep_def intro: footprint)

lemma logs_host_op [footprint]: "Did call args \<in> A \<Longrightarrow> logs_only A (host_op E call args)"
  unfolding host_op_def by (intro footprint)

lemma logs_except_os [footprint]:
  "logs_only A m \<Longrightarrow> (\<And>e. logs_only A (f e)) \<Longrightarrow> logs_only A (except_os m f)"
  unfolding except_os_def by (intro footprint)

lemma logs_now [footprint]: "logs_only A (now E)"
  and logs_path_exists [footprint]: "logs_only A (path_exists E p)"
  and logs_which [footprint]: "logs_only A (which E n)"
  by (auto simp: now_def path_exists_def which_def intro: footprint)

subsection \<open>Processes (yolobox_cli/proc.py)\<close>

record completed =
  returncode :: int
  stdout :: string
  stderr :: string

record run_opts =
  capture :: bool
  check :: bool
  stdin_of :: "string option"
  merge_stderr :: bool
  binary :: bool
  filtered :: bool
  timeout :: "rat option"

definition plain :: run_opts where
  "plain = \<lparr>capture = True, check = False, stdin_of = None, merge_stderr = False,
            binary = False, filtered = False, timeout = None\<rparr>"

definition checked :: run_opts where
  "checked = plain\<lparr>check := True\<rparr>"

definition no_cr :: "string \<Rightarrow> string" where
  "no_cr s = filter (\<lambda>c. c \<noteq> CHR 0x0D) s"

definition failure_detail :: "completed \<Rightarrow> string" where
  "failure_detail c = strip (if stderr c \<noteq> [] then stderr c else stdout c)"

text \<open>\<open>failed_message\<close>: what failed, where, the code and what it said.\<close>

definition failed_message :: "string \<Rightarrow> int \<Rightarrow> string option \<Rightarrow> string \<Rightarrow> message" where
  "failed_message what code said whr =
     (what @ '' failed'' @ (if whr \<noteq> [] then '' '' @ whr else []),
      [show_int code,
       (case said of None \<Rightarrow> [] | Some d \<Rightarrow> if d \<noteq> [] then '': '' @ d else '' with no output'')])"

definition unsupported_filtered :: "run_opts \<Rightarrow> string list" where
  "unsupported_filtered ro =
     (if stdin_of ro \<noteq> None then [''stdin''] else []) @
     (if timeout ro \<noteq> None then [''timeout''] else []) @
     (if merge_stderr ro then [''merge_stderr''] else []) @
     (if binary ro then [''binary''] else [])"

definition argv0 :: "string list \<Rightarrow> string" where
  "argv0 argv = (case argv of [] \<Rightarrow> [] | a # _ \<Rightarrow> a)"

text \<open>
  The completed process as yo reads it. A filtered child's output is streamed to the terminal,
  so nothing of it is left to read.
\<close>

definition captured :: "run_opts \<Rightarrow> int \<Rightarrow> string \<Rightarrow> string \<Rightarrow> completed" where
  "captured ro code out err =
     (if filtered ro then \<lparr>returncode = code, stdout = [], stderr = []\<rparr>
      else if capture ro then
        \<lparr>returncode = code,
         stdout = (let raw = out @ (if merge_stderr ro then err else [])
                   in if binary ro then raw else no_cr raw),
         stderr = (if merge_stderr ro then [] else no_cr err)\<rparr>
      else \<lparr>returncode = code, stdout = [], stderr = []\<rparr>)"

definition run :: "env \<Rightarrow> string list \<Rightarrow> run_opts \<Rightarrow> completed io" where
  "run E argv ro =
     (if filtered ro \<and> unsupported_filtered ro \<noteq> [] then
        raise (Exn Value_Error (Some (''run(filtered=True) cannot honour'', unsupported_filtered ro)) 1)
      else
        bnd (reads (\<lambda>h. (proc_ans E h argv (stdin_of ro),
                        case timeout ro of None \<Rightarrow> False | Some t \<Rightarrow> overruns E h argv t)))
        (\<lambda>(ans, late).
        case ans of
          Not_On_Path \<Rightarrow> raise (YoError ''not found on PATH'' [argv0 argv])
        | Finished code out err \<Rightarrow>
            sq (emit (Ran argv (stdin_of ro)))
            (if late then raise (Exn Run_Timeout (Some (''did not finish within'', argv)) 1)
             else
               let c = captured ro code out err in
               if check ro \<and> code \<noteq> 0 then
                 raise (Exn Yo (Some (failed_message (join_with '' '' argv) code
                          (if capture ro then Some (failure_detail c) else None) [])) 1)
               else ret c)))"

lemma logs_run [footprint]: "Ran argv (stdin_of ro) \<in> A \<Longrightarrow> logs_only A (run E argv ro)"
  unfolding run_def
  by (auto intro!: footprint simp: Let_def split: proc_answer.split)

text \<open>\<open>read_text_file(path, missing=None)\<close>\<close>

definition read_text_file :: "env \<Rightarrow> string \<Rightarrow> string option io" where
  "read_text_file E p =
     bnd (reads (\<lambda>h. file_ans E h p)) (\<lambda>a.
     case a of No_File \<Rightarrow> ret None
     | Unreadable \<Rightarrow> raise (YoError ''cannot read'' [p])
     | Text t \<Rightarrow> ret (Some t))"

lemma logs_read_text_file [footprint]: "logs_only A (read_text_file E p)"
  unfolding read_text_file_def
  by (intro footprint) (auto split: file_answer.splits intro: footprint)

text \<open>
  \<open>atomic_write\<close> writes a temporary file beside the path and renames it there: it either
  leaves the whole content or, on an \<open>OSError\<close> (which nothing in yo catches), the old file.
\<close>

definition atomic_write :: "env \<Rightarrow> string \<Rightarrow> string \<Rightarrow> nat \<Rightarrow> unit io" where
  "atomic_write E p content mode =
     bnd (reads (\<lambda>h. os_error E h ''write'' [p])) (\<lambda>failure.
     case failure of
       None \<Rightarrow> emit (Wrote p content mode)
     | Some reason \<Rightarrow> raise (OsError reason))"

text \<open>
  \<open>delete_path\<close>, with \<open>os.remove\<close>: a file already gone is the wanted end state, any other
  failure a \<open>YoError\<close>.
\<close>

definition delete_file :: "env \<Rightarrow> string \<Rightarrow> unit io" where
  "delete_file E p =
     bnd (reads (\<lambda>h. (tree_ans E h p = None, os_error E h ''remove'' [p]))) (\<lambda>(gone, failure).
     if gone then ret ()
     else case failure of
       None \<Rightarrow> emit (Deleted p)
     | Some reason \<Rightarrow> raise (YoError ''cannot delete'' [p, reason]))"

definition delete_tree :: "env \<Rightarrow> string \<Rightarrow> unit io" where
  "delete_tree E p =
     bnd (reads (\<lambda>h. (tree_ans E h p = None, os_error E h ''rmtree'' [p]))) (\<lambda>(gone, failure).
     if gone then ret ()
     else case failure of
       None \<Rightarrow> emit (Deleted p)
     | Some reason \<Rightarrow> raise (YoError ''cannot delete'' [p, reason]))"

text \<open>\<open>proc.require_tool\<close> and \<open>proc.spawn\<close>: what the started child will write, with the times.\<close>

definition require_tool_on :: "env \<Rightarrow> string \<Rightarrow> string \<Rightarrow> string io" where
  "require_tool_on E name hint =
     bnd (which E name) (\<lambda>p.
     case p of None \<Rightarrow> raise (YoError ''not found'' [name, hint]) | Some path \<Rightarrow> ret path)"

definition spawn :: "env \<Rightarrow> string list \<Rightarrow> (rat \<times> string) list io" where
  "spawn E argv =
     bnd (reads (\<lambda>h. child_ans E h argv)) (\<lambda>child.
     case child of
       None \<Rightarrow> raise (YoError ''not found on PATH'' [argv0 argv])
     | Some writes \<Rightarrow> sq (emit (Spawned argv None)) (ret writes))"

definition private_dir :: "string \<Rightarrow> unit io" where
  "private_dir p = emit (Made_Dir p)"

text \<open>
  \<open>exec_process\<close>: on success yo is gone, so the event is the last of the run and the exit code is
  the new process's.
\<close>

definition NO_SUCH_FILE :: string where "NO_SUCH_FILE = ''No such file or directory''"

definition exec_process :: "env \<Rightarrow> string list \<Rightarrow> unit io" where
  "exec_process E argv =
     bnd (reads (\<lambda>h. os_error E h ''execvpe'' argv)) (\<lambda>failure.
     case failure of
       None \<Rightarrow> emit (Execed argv)
     | Some reason \<Rightarrow>
         if reason = NO_SUCH_FILE then raise (YoError ''not found on PATH'' [argv0 argv]) else raise (OsError reason))"

lemma logs_files [footprint]:
  "Wrote p c m \<in> A \<Longrightarrow> logs_only A (atomic_write E p c m)"
  "Deleted p \<in> A \<Longrightarrow> logs_only A (delete_file E p)"
  "Made_Dir p \<in> A \<Longrightarrow> logs_only A (private_dir p)"
  "Execed argv \<in> A \<Longrightarrow> logs_only A (exec_process E argv)"
  by (auto simp: atomic_write_def delete_file_def private_dir_def exec_process_def intro!: footprint)

lemma logs_delete_tree [footprint]: "Deleted p \<in> A \<Longrightarrow> logs_only A (delete_tree E p)"
  and logs_require_tool_on [footprint]: "logs_only A (require_tool_on E n x)"
  and logs_spawn [footprint]: "Spawned argv None \<in> A \<Longrightarrow> logs_only A (spawn E argv)"
  by (auto simp: delete_tree_def require_tool_on_def spawn_def intro!: footprint)

text \<open>
  Where a process run to its end may get an input from yo: an ssh on a configuration file of yo's
  own (a command in the box), and fzf, which is given the names it is to show. Every other
  process reads nothing.
\<close>

definition fed :: "string list \<Rightarrow> string option \<Rightarrow> bool" where
  "fed argv input \<longleftrightarrow>
     input \<in> {None, Some []} \<or> prefix [''ssh'', ''-F''] argv \<or> prefix [''fzf''] argv"

text \<open>
  The events of a call that takes no lock and gives no input but such a one: sets that hold all of
  them make the footprint of such a call a matter of its shape alone.
\<close>

definition ordinary :: "event set \<Rightarrow> bool" where
  "ordinary A \<longleftrightarrow>
     (\<forall>a i. fed a i \<longrightarrow> Ran a i \<in> A) \<and> (\<forall>a. Spawned a None \<in> A) \<and> (\<forall>m. Said m \<in> A \<and> Warned m \<in> A)
     \<and> (\<forall>p c m. Wrote p c m \<in> A) \<and> (\<forall>p. Deleted p \<in> A \<and> Made_Dir p \<in> A) \<and> (\<forall>t. Slept t \<in> A)
     \<and> (\<forall>p q. Called_Agent p q \<in> A) \<and> (\<forall>p n. Dialled p n \<in> A) \<and> (\<forall>a. Execed a \<in> A)
     \<and> (\<forall>c a. Did c a \<in> A)"

lemma fed_nothing [simp]: "fed a None" "fed a (Some [])"
  and fed_ssh [simp]: "fed (''ssh'' # ''-F'' # args) i"
  and fed_fzf [simp]: "fed (''fzf'' # args) i"
  by (simp_all add: fed_def)

lemma fed_opts [simp]:
  "fed a (stdin_of plain)" "fed a (stdin_of checked)"
  "fed a (stdin_of ro) \<Longrightarrow> fed a (stdin_of (ro\<lparr>capture := x\<rparr>))"
  "fed a (stdin_of ro) \<Longrightarrow> fed a (stdin_of (ro\<lparr>check := x\<rparr>))"
  "fed a (stdin_of ro) \<Longrightarrow> fed a (stdin_of (ro\<lparr>merge_stderr := x\<rparr>))"
  "fed a (stdin_of ro) \<Longrightarrow> fed a (stdin_of (ro\<lparr>binary := x\<rparr>))"
  "fed a (stdin_of ro) \<Longrightarrow> fed a (stdin_of (ro\<lparr>filtered := x\<rparr>))"
  "fed a (stdin_of ro) \<Longrightarrow> fed a (stdin_of (ro\<lparr>timeout := y\<rparr>))"
  "fed a (stdin_of (ro\<lparr>stdin_of := Some []\<rparr>))"
  by (simp_all add: fed_def plain_def checked_def)

lemma ordinary_ran: "ordinary A \<Longrightarrow> fed a i \<Longrightarrow> Ran a i \<in> A"
  by (simp add: ordinary_def)

lemma ordinary_marks:
  assumes "ordinary A"
  shows "Spawned a None \<in> A" "Said m \<in> A" "Warned m \<in> A" "Wrote p c n \<in> A"
    "Deleted p \<in> A" "Made_Dir p \<in> A" "Slept t \<in> A" "Called_Agent p q \<in> A" "Dialled p k \<in> A"
    "Execed a \<in> A" "Did p a \<in> A"
  using assms unfolding ordinary_def by blast+

lemmas ordinary_events = ordinary_ran ordinary_marks fed_nothing fed_ssh fed_fzf fed_opts

lemma ordinary_UNIV [simp]: "ordinary UNIV"
  by (simp add: ordinary_def)

text \<open>\<open>is_ascii_number\<close>: only digits, and at least one.\<close>

definition is_ascii_number :: "string \<Rightarrow> bool" where
  "is_ascii_number s \<longleftrightarrow> s \<noteq> [] \<and> list_all is_digit s"

lemma is_ascii_number_show_nat [simp]: "is_ascii_number (show_nat n)"
  by (simp add: is_ascii_number_def show_nat_digits)

subsection \<open>Locks (yolobox_cli/state.py, held_flock)\<close>

text \<open>
  \<open>with_lock E path wait body\<close>: with \<open>wait\<close> the lock is taken whoever holds it now (yo
  blocks until it is free), without it a held lock raises \<open>LockBusy\<close>; whatever the body
  does, the lock is dropped at its end.
\<close>

definition LockBusy :: exn where
  "LockBusy = Exn Lock_Busy None 1"

definition with_lock :: "env \<Rightarrow> string \<Rightarrow> bool \<Rightarrow> 'a io \<Rightarrow> 'a io" where
  "with_lock E path wait body =
     bnd (reads (\<lambda>h. lock_busy E h path)) (\<lambda>busy.
     if busy \<and> \<not> wait then raise LockBusy
     else sq (emit (Took_Lock path))
             (finally_do body (\<lambda>h. h @ [Dropped_Lock path])))"

lemma logs_finally_emit:
  assumes "logs_only A m" and "e \<in> A"
  shows "logs_only A (finally_do m (\<lambda>h. h @ [e]))"
proof (rule logs_onlyI)
  fix h r t
  assume run: "finally_do m (\<lambda>h. h @ [e]) h = (r, t)"
  obtain q u where mu: "m h = (q, u)" by fastforce
  with assms(1) obtain es where "u = h @ es" "set es \<subseteq> A" by (rule logs_onlyE)
  with run mu assms(2) show "\<exists>es. t = h @ es \<and> set es \<subseteq> A"
    by (auto simp: finally_do_def)
qed

lemma logs_with_lock [footprint]:
  "Took_Lock p \<in> A \<Longrightarrow> Dropped_Lock p \<in> A \<Longrightarrow> logs_only A m \<Longrightarrow> logs_only A (with_lock E p w m)"
  unfolding with_lock_def by (intro footprint logs_finally_emit) auto

subsection \<open>Properties\<close>

text \<open>
  Whatever a name or an output from the guest holds, the text yo prints has no terminal
  control character, a name it shows is printable throughout, and sanitizing twice changes
  nothing more.
\<close>

lemma terminal_text_is_safe:
  "list_all (\<lambda>c. \<not> control_byte c) (sanitize t) \<and> sanitize (sanitize t) = sanitize t
   \<and> length (sanitize t) = length t \<and> list_all is_printable (shown t)"
proof -
  have "list_all (\<lambda>c. \<not> control_byte c) (sanitize t)"
    using sanitize_no_controls by (simp add: list_all_iff)
  moreover have "length (sanitize t) = length t" by (simp add: sanitize_def)
  ultimately show ?thesis by (simp add: sanitize_idem shown_printable)
qed

end
