(* ===== verification/Yo_State.thy ===== *)
theory Yo_State
  imports Yo_World
begin

text \<open>
  The machine yo drives and every name that derives from it: \<open>yolobox_cli/config.py\<close>,
  \<open>yolobox_cli/common.py\<close>, \<open>yolobox_cli/state.py\<close> and \<open>instance_name\<close> of
  \<open>yolobox_cli/cli.py\<close>. The lemmas show which machine names are accepted, that the names
  derived from two accepted machines never collide except by letter case, and that text
  shown on a terminal carries no control character.
\<close>

subsection \<open>Constants (config.py)\<close>

definition DEFAULT_INSTANCE :: string where "DEFAULT_INSTANCE = ''yolobox''"
definition AGENT_USER :: string where "AGENT_USER = ''agent''"
definition AGENT_HOME :: string where "AGENT_HOME = ''/home/agent''"
definition HELPER :: string where "HELPER = ''yolobox-guest''"
definition HELPER_NO_SUBCOMMAND :: int where "HELPER_NO_SUBCOMMAND = 64"
definition USAGE_EXIT :: int where "USAGE_EXIT = 64"
definition SSH_UNREACHABLE :: int where "SSH_UNREACHABLE = 255"
definition OPERATOR_GUEST_UID :: int where "OPERATOR_GUEST_UID = 501"
definition STAGE2_SSH_BANNER_MARK :: string where "STAGE2_SSH_BANNER_MARK = ''yolobox-stage2''"
definition OP_GUEST_SOCK :: string where "OP_GUEST_SOCK = ''/run/yolobox-op/agent.sock''"
definition AWS_BROKER_GUEST_SOCK :: string where "AWS_BROKER_GUEST_SOCK = ''/run/yolobox-op/aws-broker.sock''"
definition AGENT_AWS_BROKER_SOCK :: string where "AGENT_AWS_BROKER_SOCK = ''/run/yolobox/aws-broker.sock''"
definition LUKS_DEVICE :: string where "LUKS_DEVICE = ''/dev/vda2''"
definition LUKS_KEY_ITEM :: string where "LUKS_KEY_ITEM = ''yolobox-disk''"
definition LOOPBACK :: string where "LOOPBACK = ''127.0.0.1''"
definition MAX_PORT :: nat where "MAX_PORT = 65535"
definition KIB :: nat where "KIB = 1024"
definition MIB :: nat where "MIB = 1024 * KIB"
definition GIB :: nat where "GIB = 1024 * MIB"
definition MIN_MEMORY_GIB :: nat where "MIN_MEMORY_GIB = 8"
definition MIN_DISK_GIB :: nat where "MIN_DISK_GIB = 40"
definition FILE_MODE_PRIVATE :: nat where "FILE_MODE_PRIVATE = 384"
definition FILE_MODE_READABLE :: nat where "FILE_MODE_READABLE = 420"
definition SSH_CONFIG_INCLUDE_LINE :: string where
  "SSH_CONFIG_INCLUDE_LINE =
     ''Include ~/.local/state/yolobox/instances/*/ssh.config ~/.lima/*/ssh.config''"
definition PROXY_SOCKET_UNITS :: "string list" where
  "PROXY_SOCKET_UNITS = [''yolobox-op-agent.socket'', ''yolobox-aws-broker.socket'']"

lemmas size_consts = KIB_def MIB_def GIB_def

text \<open>\<open>[a-z0-9]([a-z0-9-]{0,61}[a-z0-9])?\<close>\<close>

definition low_alnum :: "char \<Rightarrow> bool" where
  "low_alnum c \<longleftrightarrow> is_lower c \<or> is_digit c"

definition HOSTNAME_LABEL_RE :: rx where
  "HOSTNAME_LABEL_RE =
     Cat (Cls low_alnum)
       (Opt (Cat (Upto 61 (Cls (\<lambda>c. low_alnum c \<or> c = CHR ''-''))) (Cls low_alnum)))"

subsection \<open>Profile names (common.py)\<close>

text \<open>\<open>PROFILE_NAME_PATTERN\<close>: \<open>[A-Za-z0-9][A-Za-z0-9._-]*\<close>\<close>

definition profile_char :: "char \<Rightarrow> bool" where
  "profile_char c \<longleftrightarrow> is_alnum c \<or> c = CHR ''.'' \<or> c = CHR ''_'' \<or> c = CHR ''-''"

definition PROFILE_NAME_RE :: rx where
  "PROFILE_NAME_RE = Cat (Cls is_alnum) (Star (Cls profile_char))"

subsection \<open>Machine names (state.py, cli.py)\<close>

definition hostname_for :: "string \<Rightarrow> string" where
  "hostname_for name = (if name = DEFAULT_INSTANCE then name else lower (''yolobox-'' @ name))"

text \<open>\<open>[A-Za-z0-9]+(?:[._-][A-Za-z0-9]+)*\<close>\<close>

definition INSTANCE_NAME_RE :: rx where
  "INSTANCE_NAME_RE =
     Cat (Plus (Cls is_alnum))
       (Star (Cat (Cls (\<lambda>c. c = CHR ''.'' \<or> c = CHR ''_'' \<or> c = CHR ''-'')) (Plus (Cls is_alnum))))"

definition instance_name :: "string \<Rightarrow> exn + string" where
  "instance_name value =
     (if \<not> fullmatch INSTANCE_NAME_RE value
        \<or> startswith value ''lima-''
        \<or> \<not> fullmatch HOSTNAME_LABEL_RE (hostname_for value)
      then Inl (ArgumentTypeError ''not a usable machine name'' [value])
      else Inr value)"

text \<open>\<open>Box\<close>: the machine's name and where its driver keeps instances.\<close>

record box =
  instances_dir :: string
  box_name :: string

definition vm_name :: "box \<Rightarrow> string" where
  "vm_name b = ''yolobox-'' @ box_name b"

definition box_hostname :: "box \<Rightarrow> string" where
  "box_hostname b = hostname_for (box_name b)"

definition vm_host :: "box \<Rightarrow> string" where
  "vm_host b = ''lima-'' @ box_name b"

definition herdr_alias :: "box \<Rightarrow> string" where
  "herdr_alias b = box_name b"

definition tilde_dir :: "box \<Rightarrow> string" where
  "tilde_dir b = ''~/'' @ instances_dir b @ ''/'' @ box_name b"

definition NL :: string where "NL = [CHR 0x0A]"

definition editor_ssh_block :: "box \<Rightarrow> string" where
  "editor_ssh_block b =
     ''Match host '' @ vm_host b @ '' user '' @ AGENT_USER @ NL @
     ''  ControlPath '' @ tilde_dir b @ ''/ssh-agent.sock'' @ NL @
     ''  ForwardAgent no''"

definition yo_cmd :: "box \<Rightarrow> string list \<Rightarrow> string" where
  "yo_cmd b words =
     (if box_name b = DEFAULT_INSTANCE then ''yo '' @ join_with '' '' words
      else ''yo -m '' @ box_name b @ '' '' @ join_with '' '' words)"

definition not_up_hint :: "box \<Rightarrow> string \<Rightarrow> message" where
  "not_up_hint b what = (what, [yo_cmd b [''status'']])"

subsection \<open>Paths of the machine (state.py)\<close>

text \<open>\<open>os.path.join\<close> of two parts.\<close>

definition path_join :: "string \<Rightarrow> string \<Rightarrow> string" where
  "path_join a b =
     (if startswith b ''/'' then b
      else if a = [] \<or> endswith a ''/'' then a @ b
      else a @ ''/'' @ b)"

definition instance_dir :: "env \<Rightarrow> box \<Rightarrow> string" where
  "instance_dir E b = path_join (path_join (env_home E) (instances_dir b)) (box_name b)"

definition ssh_cfg :: "env \<Rightarrow> box \<Rightarrow> string" where
  "ssh_cfg E b = path_join (instance_dir E b) ''ssh.config''"

definition agent_control_path :: "env \<Rightarrow> box \<Rightarrow> string" where
  "agent_control_path E b = path_join (instance_dir E b) ''ssh-agent.sock''"

definition known_hosts_path :: "env \<Rightarrow> box \<Rightarrow> string" where
  "known_hosts_path E b = path_join (instance_dir E b) ''known_hosts''"

definition state_dir :: "env \<Rightarrow> string" where
  "state_dir E = path_join (env_home E) ''.local/state/yolobox''"

definition tilde :: "env \<Rightarrow> string \<Rightarrow> string" where
  "tilde E path =
     (let pre = env_home E @ ''/''
      in if startswith path pre then ''~/'' @ after pre path else path)"

definition flake_ref_file :: "env \<Rightarrow> box \<Rightarrow> string" where
  "flake_ref_file E b = path_join (state_dir E) (box_name b @ ''.flake-ref'')"

definition SSH_MUX_TEMP_SUFFIX_LENGTH :: nat where
  "SSH_MUX_TEMP_SUFFIX_LENGTH = length ''.'' + 16"

definition require_control_path_fits :: "env \<Rightarrow> box \<Rightarrow> exn + unit" where
  "require_control_path_fits E b =
     (let path = agent_control_path E b; len = length path + SSH_MUX_TEMP_SUFFIX_LENGTH
      in if len \<ge> env_socket_limit E
         then Inl (YoError ''$HOME is too long for the ssh master socket'' [path, show_nat len])
         else Inr ())"

definition remembered_flake_ref :: "env \<Rightarrow> box \<Rightarrow> string option io" where
  "remembered_flake_ref E b =
     bnd (read_text_file E (flake_ref_file E b)) (\<lambda>text.
     let ref = (case text of None \<Rightarrow> [] | Some t \<Rightarrow> strip t)
     in ret (if ref = [] then None else Some ref))"

definition destroy_then_bootstrap_command :: "env \<Rightarrow> box \<Rightarrow> string io" where
  "destroy_then_bootstrap_command E b =
     bnd (remembered_flake_ref E b) (\<lambda>ref.
     let version = (case ref of None \<Rightarrow> [] | Some r \<Rightarrow> [''--version'', shlex_quote r])
     in ret (yo_cmd b [''destroy'', ''--yes''] @ '' && '' @ yo_cmd b (''bootstrap'' # version)))"

definition unlock_lock_path :: "env \<Rightarrow> box \<Rightarrow> string" where
  "unlock_lock_path E b = path_join (state_dir E) (box_name b @ ''.unlock.lock'')"

text \<open>\<open>host_state_lock\<close> and \<open>unlock_lock\<close>.\<close>

definition host_state_lock :: "env \<Rightarrow> string \<Rightarrow> bool \<Rightarrow> 'a io \<Rightarrow> 'a io" where
  "host_state_lock E name wait body =
     sq (private_dir (state_dir E)) (with_lock E (path_join (state_dir E) name) wait body)"

definition unlock_lock :: "env \<Rightarrow> box \<Rightarrow> bool \<Rightarrow> 'a io \<Rightarrow> 'a io" where
  "unlock_lock E b wait body = host_state_lock E (box_name b @ ''.unlock.lock'') wait body"

lemma logs_remembered_flake_ref [footprint]: "logs_only A (remembered_flake_ref E b)"
  unfolding remembered_flake_ref_def Let_def by (intro footprint)

lemma logs_unlock_lock [footprint]:
  assumes "Made_Dir (state_dir E) \<in> A" and "Took_Lock (unlock_lock_path E b) \<in> A"
    and "Dropped_Lock (unlock_lock_path E b) \<in> A" and "logs_only A m"
  shows "logs_only A (unlock_lock E b w m)"
  unfolding unlock_lock_def host_state_lock_def
  using assms by (intro footprint) (auto simp: unlock_lock_path_def)

subsection \<open>Which machine names are accepted\<close>

lemma lower_append: "lower (s @ t) = lower s @ lower t"
  by (simp add: lower_def)

lemma length_lower [simp]: "length (lower s) = length s"
  by (simp add: lower_def)

lemma to_lower_lower: "low_alnum (to_lower c) \<or> to_lower c = CHR ''-'' \<Longrightarrow> is_alnum c \<or> c = CHR ''-''"
  by (cases "is_upper c") (auto simp: to_lower_def is_alnum_def low_alnum_def)

lemma instance_name_Inr:
  "instance_name v = Inr w \<longleftrightarrow>
     w = v \<and> fullmatch INSTANCE_NAME_RE v \<and> \<not> startswith v ''lima-''
     \<and> fullmatch HOSTNAME_LABEL_RE (hostname_for v)"
  by (auto simp: instance_name_def)

lemma hostname_label_iff:
  "fullmatch HOSTNAME_LABEL_RE s \<Longrightarrow>
     s \<noteq> [] \<and> length s \<le> 63 \<and> list_all (\<lambda>c. low_alnum c \<or> c = CHR ''-'') s
     \<and> low_alnum (hd s) \<and> low_alnum (last s)"
  unfolding fullmatch_iff HOSTNAME_LABEL_RE_def
  by (auto simp: lang_Cat_iff simp del: Upto.simps)

lemma instance_name_length:
  assumes "instance_name v = Inr w" and "v \<noteq> DEFAULT_INSTANCE"
  shows "length v \<le> 55"
proof -
  from assms have "fullmatch HOSTNAME_LABEL_RE (lower (''yolobox-'' @ v))"
    by (simp add: instance_name_Inr hostname_for_def)
  then have "length (lower (''yolobox-'' @ v)) \<le> 63"
    using hostname_label_iff by blast
  then show ?thesis by simp
qed

lemma instance_name_chars:
  assumes "instance_name v = Inr w"
  shows "list_all (\<lambda>c. is_alnum c \<or> c = CHR ''-'') v"
proof (cases "v = DEFAULT_INSTANCE")
  case True
  then show ?thesis
    by (simp add: DEFAULT_INSTANCE_def char_class_defs)
next
  case False
  with assms have "fullmatch HOSTNAME_LABEL_RE (lower (''yolobox-'' @ v))"
    by (simp add: instance_name_Inr hostname_for_def)
  then have "list_all (\<lambda>c. low_alnum c \<or> c = CHR ''-'') (lower (''yolobox-'' @ v))"
    using hostname_label_iff by blast
  then have "list_all (\<lambda>c. low_alnum (to_lower c) \<or> to_lower c = CHR ''-'') v"
    by (simp add: lower_append) (simp add: lower_def list_all_iff)
  then show ?thesis
    using to_lower_lower by (auto simp: list_all_iff)
qed

lemma hostname_for_eq_iff:
  "hostname_for m = hostname_for n \<longleftrightarrow>
     m = n \<or> m \<noteq> DEFAULT_INSTANCE \<and> n \<noteq> DEFAULT_INSTANCE \<and> lower m = lower n"
proof -
  have other: "lower (''yolobox-'' @ k) \<noteq> DEFAULT_INSTANCE" for k
  proof
    assume "lower (''yolobox-'' @ k) = DEFAULT_INSTANCE"
    then have "length (lower (''yolobox-'' @ k)) = length DEFAULT_INSTANCE" by (rule arg_cong)
    then show False by (simp add: DEFAULT_INSTANCE_def)
  qed
  have same: "lower (''yolobox-'' @ k) = lower (''yolobox-'' @ l) \<longleftrightarrow> lower k = lower l" for k l
    by (simp add: lower_def)
  show ?thesis
    unfolding hostname_for_def using other other [THEN not_sym] same by auto
qed

text \<open>An accepted machine's ssh host name is never the alias of another accepted machine.\<close>

lemma vm_host_not_alias:
  assumes "instance_name v = Inr v"
  shows "herdr_alias \<lparr>instances_dir = d, box_name = v\<rparr> \<noteq> vm_host b"
  using assms by (auto simp: instance_name_Inr herdr_alias_def vm_host_def startswith_iff)

subsection \<open>Properties\<close>

text \<open>
  An accepted machine name is at most 55 letters, digits and dashes (the default name
  aside) and its ssh alias is never the ssh host name of any machine.
\<close>

lemma accepted_machine_name:
  assumes "instance_name v = Inr w"
  shows "w = v \<and> list_all (\<lambda>c. is_alnum c \<or> c = CHR ''-'') v
    \<and> (if v = DEFAULT_INSTANCE then True else length v \<le> 55)
    \<and> herdr_alias \<lparr>instances_dir = d, box_name = v\<rparr> \<noteq> vm_host b"
proof -
  from assms have "w = v" by (simp add: instance_name_Inr)
  with assms have "instance_name v = Inr v" by simp
  then show ?thesis
    using \<open>w = v\<close> instance_name_chars instance_name_length vm_host_not_alias by auto
qed

theorem accepted_machine_name_witness:
  "list_all (\<lambda>c. is_alnum c \<or> c = CHR ''-'') ''work-2''"
proof -
  have "instance_name ''work-2'' = Inr ''work-2''" by code_simp
  from accepted_machine_name [OF this] show ?thesis by blast
qed


end
