(* ===== verification/Yo_Driver.thy ===== *)
theory Yo_Driver
  imports Yo_State
begin

text \<open>
  \<open>yolobox_cli/driver.py\<close>: the size of a box, the size the flags ask of it, and the
  interface a host driver gives the rest of yo; and the validators of \<open>yolobox_cli/cli.py\<close>
  for the size flags. The lemmas show that the two sizes agree: filling an asked size from
  a base and taking the difference again gives back exactly the flags that change something.
\<close>

definition DEFAULT_CPUS_CAP :: nat where "DEFAULT_CPUS_CAP = 4"

text \<open>\<open>os.cpu_count()\<close> may be unknown.\<close>

definition host_cpu_count :: "nat option \<Rightarrow> exn + nat" where
  "host_cpu_count os_cpu_count =
     (case os_cpu_count of
        None \<Rightarrow> Inl (YoError ''cannot read the CPU count of the host'' [])
      | Some n \<Rightarrow> Inr n)"

text \<open>The subtraction is over the integers: a host of no CPU gives a negative count.\<close>

definition default_cpus :: "nat option \<Rightarrow> exn + nat" where
  "default_cpus os_cpu_count =
     (case host_cpu_count os_cpu_count of
        Inl e \<Rightarrow> Inl e
      | Inr host \<Rightarrow>
          (let cpus = min (int DEFAULT_CPUS_CAP) (int host - 1)
           in if cpus < 1 then Inl (YoError ''this host has only 1 CPU'' []) else Inr (nat cpus)))"

record box_size =
  memory_gib :: nat
  disk_gib :: nat
  cpus :: nat

record size =
  asked_memory :: "nat option"
  asked_disk :: "nat option"
  asked_cpus :: "nat option"

definition changes_to :: "box_size \<Rightarrow> box_size \<Rightarrow> size" where
  "changes_to cur wanted =
     \<lparr>asked_memory = (if memory_gib wanted \<noteq> memory_gib cur then Some (memory_gib wanted) else None),
      asked_disk = (if disk_gib wanted \<noteq> disk_gib cur then Some (disk_gib wanted) else None),
      asked_cpus = (if cpus wanted \<noteq> cpus cur then Some (cpus wanted) else None)\<rparr>"

definition asked :: "size \<Rightarrow> bool" where
  "asked s \<longleftrightarrow> asked_memory s \<noteq> None \<or> asked_disk s \<noteq> None \<or> asked_cpus s \<noteq> None"

definition for_creation :: "nat option \<Rightarrow> size \<Rightarrow> exn + size" where
  "for_creation os_cpu_count s =
     (if asked_cpus s \<noteq> None then Inr s
      else (case default_cpus os_cpu_count of
              Inl e \<Rightarrow> Inl e
            | Inr n \<Rightarrow> Inr (s\<lparr>asked_cpus := Some n\<rparr>)))"

definition or_else :: "'a option \<Rightarrow> 'a \<Rightarrow> 'a" where
  "or_else x d = (case x of None \<Rightarrow> d | Some v \<Rightarrow> v)"

definition fill :: "size \<Rightarrow> box_size \<Rightarrow> box_size" where
  "fill s base =
     \<lparr>memory_gib = or_else (asked_memory s) (memory_gib base),
      disk_gib = or_else (asked_disk s) (disk_gib base),
      cpus = or_else (asked_cpus s) (cpus base)\<rparr>"

definition flag :: "string \<Rightarrow> nat option \<Rightarrow> string list" where
  "flag name v = (case v of None \<Rightarrow> [] | Some n \<Rightarrow> [name, show_nat n])"

definition flags :: "size \<Rightarrow> string list" where
  "flags s = flag ''--memory'' (asked_memory s) @ flag ''--disk'' (asked_disk s)
             @ flag ''--cpus'' (asked_cpus s)"

definition NO_SIZE :: size where
  "NO_SIZE = \<lparr>asked_memory = None, asked_disk = None, asked_cpus = None\<rparr>"

definition describe :: "box_size \<Rightarrow> message" where
  "describe b = (''GiB of memory, CPUs and GiB disk'',
                 [show_nat (memory_gib b), show_nat (cpus b), show_nat (disk_gib b)])"

definition exact_gib :: "nat \<Rightarrow> string \<Rightarrow> exn + nat" where
  "exact_gib nbytes what =
     (let gib = nbytes div GIB; rest = nbytes mod GIB
      in if rest \<noteq> 0
         then Inl (YoError ''not a whole number of GiB'' [what, show_nat nbytes])
         else Inr gib)"

subsection \<open>The validators of the size flags (cli.py)\<close>

definition guest_port_number :: "string \<Rightarrow> exn + nat" where
  "guest_port_number v =
     (if \<not> is_ascii_number v \<or> \<not> (0 < decimal v \<and> decimal v \<le> MAX_PORT)
      then Inl (ArgumentTypeError ''guest port must be a number from 1 to'' [show_nat MAX_PORT, v])
      else Inr (decimal v))"

definition whole_gib :: "string \<Rightarrow> string \<Rightarrow> exn + nat" where
  "whole_gib label v =
     (if \<not> is_ascii_number v \<or> decimal v = 0
      then Inl (ArgumentTypeError ''must be a whole number of GiB greater than 0'' [label, v])
      else Inr (decimal v))"

definition box_gib :: "string \<Rightarrow> nat \<Rightarrow> string \<Rightarrow> exn + nat" where
  "box_gib label lowest v =
     (case whole_gib label v of
        Inl e \<Rightarrow> Inl e
      | Inr parsed \<Rightarrow>
          if parsed < lowest
          then Inl (ArgumentTypeError ''must be at least'' [label, show_nat lowest, show_nat parsed])
          else Inr parsed)"

definition box_cpus :: "nat option \<Rightarrow> string \<Rightarrow> exn + nat" where
  "box_cpus os_cpu_count v =
     (case host_cpu_count os_cpu_count of
        Inl e \<Rightarrow> Inl (ArgumentTypeError ''--cpus cannot be checked'' [])
      | Inr host \<Rightarrow>
          if host < 2 then Inl (ArgumentTypeError ''--cpus cannot be used'' [])
          else if \<not> is_ascii_number v \<or> \<not> (1 \<le> decimal v \<and> decimal v < host)
          then Inl (ArgumentTypeError ''--cpus must be a whole number of CPUs from 1 to''
                      [show_nat (host - 1), show_nat host, v])
          else Inr (decimal v))"

subsection \<open>The interface of a host driver\<close>

definition RUNNING :: string where "RUNNING = ''Running''"

record removal =
  step_name :: message
  step_do :: "unit io"

text \<open>
  The members of the \<open>Driver\<close> protocol: attributes as values, methods as operations. What
  only builds a text (\<open>login_fix\<close>, \<open>list_command\<close>, ...) is a value here; \<open>ssh_port\<close> and
  the rest can raise and read the host.
\<close>

record driver =
  drv_name :: string
  drv_instances_dir :: string
  start_command :: string
  off_status :: string
  initrd_identity :: string
  initrd_identity_agent :: string
  op_sock :: string
  stop_command :: string
  force_stop_command :: string
  list_command :: string
  stop_recovery :: "string list"
  login_fix :: string
  unknown_next_step :: string
  initrd_unseen_hint :: string
  keepalive_pid_error :: string
  config_gap_message :: "string list \<Rightarrow> string io"
  stop_failed :: "string list \<Rightarrow> string"
  vm_lost_hint :: "string option \<Rightarrow> string"
  require_tool :: "unit io"
  require_login_key :: "unit io"
  ssh_port :: "nat io"
  forward_port :: "nat \<Rightarrow> nat io"
  keepalive_pid :: "nat option io"
  running_keepalive_pid :: "nat option io"
  vm_status :: "string option io"
  creation_refusal :: "size \<Rightarrow> message option io"
  current_size :: "box_size io"
  resize_refusal :: "box_size \<Rightarrow> box_size \<Rightarrow> message option io"
  resize :: "nat \<Rightarrow> nat \<Rightarrow> unit io"
  config_gaps :: "string list io"
  config_notes :: "string list io"
  fatal_gaps :: "string list \<Rightarrow> string list"
  host_gaps :: "string list io"
  verify_initrd_listener :: "nat \<Rightarrow> unit io"
  start :: "string \<Rightarrow> size \<Rightarrow> unit io"
  stop :: "unit io"
  force_stop :: "unit io"
  removals :: "removal list io"
  show_status :: "message option io"
  disk_image :: "(string \<times> nat) option io"
  grow_disk :: "nat \<Rightarrow> nat \<Rightarrow> unit io"

text \<open>\<open>StopRefused(reason, advice)\<close>: the advice is not kept apart, the reason is.\<close>

definition StopRefused :: "string \<Rightarrow> string list \<Rightarrow> exn" where
  "StopRefused reason args = Exn Stop_Refused (Some (reason, args)) 1"

subsection \<open>Sizes\<close>

lemma or_else_simps [simp]: "or_else None d = d" "or_else (Some v) d = v"
  by (simp_all add: or_else_def)

lemma fill_NO_SIZE [simp]: "fill NO_SIZE b = b"
  by (simp add: fill_def NO_SIZE_def)

lemma fill_changes: "fill (changes_to cur wanted) cur = wanted"
  by (simp add: fill_def changes_to_def)

lemma changes_to_self: "changes_to b b = NO_SIZE"
  by (simp add: changes_to_def NO_SIZE_def)

lemma not_asked_iff: "\<not> asked s \<longleftrightarrow> s = NO_SIZE"
  by (cases s) (auto simp: asked_def NO_SIZE_def)

lemma asked_changes_iff: "asked (changes_to cur wanted) \<longleftrightarrow> wanted \<noteq> cur"
  by (cases cur; cases wanted) (auto simp: asked_def changes_to_def)

lemma changes_subset:
  "asked_memory (changes_to cur (fill s cur)) \<in> {None, asked_memory s}"
  "asked_disk (changes_to cur (fill s cur)) \<in> {None, asked_disk s}"
  "asked_cpus (changes_to cur (fill s cur)) \<in> {None, asked_cpus s}"
  by (auto simp: changes_to_def fill_def or_else_def split: option.splits)

lemma default_cpus_bounds:
  "default_cpus n = Inr c \<Longrightarrow> \<exists>host. n = Some host \<and> 1 \<le> c \<and> c \<le> 4 \<and> c < host"
  by (auto simp: default_cpus_def host_cpu_count_def DEFAULT_CPUS_CAP_def Let_def
           split: option.splits if_splits)

lemma exact_gib_Inr: "exact_gib n w = Inr g \<longleftrightarrow> n = g * GIB"
  by (auto simp: exact_gib_def Let_def size_consts mult.commute split: if_splits)

lemma box_cpus_Inr:
  "box_cpus n v = Inr c \<Longrightarrow> \<exists>host. n = Some host \<and> 1 \<le> c \<and> c < host \<and> c = decimal v"
  by (auto simp: box_cpus_def host_cpu_count_def split: option.splits if_splits)

text \<open>The flags yo prints are read back by its own validators.\<close>

lemma whole_gib_show: "0 < n \<Longrightarrow> whole_gib l (show_nat n) = Inr n"
  by (simp add: whole_gib_def)

lemma guest_port_bounds: "guest_port_number v = Inr p \<Longrightarrow> 0 < p \<and> p \<le> 65535"
  by (auto simp: guest_port_number_def MAX_PORT_def split: if_splits)

subsection \<open>Properties\<close>

text \<open>
  The flags yo derives from two sizes are exact: filling them into the old size gives the
  new one, none is asked when nothing changes, and what a resize asks is a subset of what the
  user asked.
\<close>

lemma size_changes_are_exact:
  "fill (changes_to cur wanted) cur = wanted \<and> (asked (changes_to cur wanted) \<longleftrightarrow> wanted \<noteq> cur)
   \<and> asked_memory (changes_to cur (fill s cur)) \<in> {None, asked_memory s}
   \<and> asked_disk (changes_to cur (fill s cur)) \<in> {None, asked_disk s}
   \<and> asked_cpus (changes_to cur (fill s cur)) \<in> {None, asked_cpus s}"
  using changes_subset [of cur s] by (simp add: fill_changes asked_changes_iff)

end
