(* ===== verification/Yo_Sample.thy ===== *)
theory Yo_Sample
  imports Yo_Driver
begin

text \<open>
  A concrete world and a concrete host driver, for the theorems that apply a property to an
  actual run. In \<open>sample_env\<close> the machine \<open>work\<close> waits in its initrd: root's login answers
  with the facts of an idle wait, and every other ssh login is refused.
\<close>

definition sample_box :: box where
  "sample_box = \<lparr>instances_dir = ''.lima'', box_name = ''work''\<rparr>"

definition idle_probe :: string where
  "idle_probe =
     ''migrate=active'' @ NL @ ''ask-begin'' @ NL @ ''Id=cryptsetup:/dev/vda2'' @ NL @ ''ask-end'' @ NL @
     ''probe=end'' @ NL"

definition initrd_answers :: "history \<Rightarrow> string list \<Rightarrow> string option \<Rightarrow> proc_answer" where
  "initrd_answers h argv input =
     (if ''User=root'' \<in> set argv then Finished 0 idle_probe []
      else Finished 255 [] ''Permission denied (publickey).'')"

text \<open>A clock that only the sleeps move.\<close>

fun slept :: "history \<Rightarrow> rat" where
  "slept [] = 0"
| "slept (Slept t # h) = max 0 t + slept h"
| "slept (e # h) = slept h"

definition sample_env :: env where
  "sample_env =
     \<lparr>env_home = ''/Users/me'', env_user = ''me'', env_version = ''1.9.3'', env_uid = 501,
      env_socket_limit = 104, env_cpus = Some 8, env_tty = False,
      typed_ans = (\<lambda>h. None), stat_ans = (\<lambda>h p. None), proc_ans = initrd_answers,
      overruns = (\<lambda>h argv t. False), file_ans = (\<lambda>h p. No_File), exists_ans = (\<lambda>h p. False),
      lock_busy = (\<lambda>h p. False), clock = slept,
      agent_ans = (\<lambda>h p q. Not_Answering), tree_ans = (\<lambda>h p. None), os_error = (\<lambda>h c a. None),
      banner_ans = (\<lambda>h p n. [''SSH-2.0-OpenSSH'' @ [CHR 0x0A]]), which_ans = (\<lambda>h n. None),
      ini_ans = (\<lambda>h p. No_Ini), health_ans = (\<lambda>h p. None), kill_ans = (\<lambda>h p. No_Such_Process),
      watch_ans = (\<lambda>h p t. Already_Gone), child_ans = (\<lambda>h argv. None), exit_ans = (\<lambda>h argv. None),
      env_signal_name = (\<lambda>n. None), env_script_dir = ''/opt/yo'', env_platform = ''darwin'',
      env_stdout_tty = False, env_in_herdr = False, xml_of = (\<lambda>t. None), ip_unspecified = (\<lambda>a. a = ''0.0.0.0''),
      account_ans = (\<lambda>h a. None), bind_ans = (\<lambda>h p. Inr False), blocks_ans = (\<lambda>h p. Inr None),
      free_bytes = (\<lambda>h p. 0), file_size = (\<lambda>h p. 0), sha512_ans = (\<lambda>h p. []), fetch_ans = (\<lambda>h p. None),
      may_run = (\<lambda>h p. False), child_err = (\<lambda>h a. []), poll_ans = (\<lambda>h a. None), wait_ans = (\<lambda>h a. 0)\<rparr>"

definition sample_size :: box_size where
  "sample_size = \<lparr>memory_gib = 16, disk_gib = 100, cpus = 4\<rparr>"

definition sample_driver :: driver where
  "sample_driver =
     \<lparr>drv_name = ''lima'', drv_instances_dir = ''.lima'', start_command = ''limactl start'',
      off_status = ''Stopped'', initrd_identity = ''.lima/_config/user'', initrd_identity_agent = ''none'',
      op_sock = ''/Users/me/agent.sock'', stop_command = ''limactl stop work'',
      force_stop_command = ''limactl stop --force work'', list_command = ''limactl list'',
      stop_recovery = [], login_fix = [], unknown_next_step = [], initrd_unseen_hint = [],
      keepalive_pid_error = [], config_gap_message = (\<lambda>g. ret (join_with '' '' g)), stop_failed = join_with '' '',
      vm_lost_hint = (\<lambda>s. []), require_tool = ret (), require_login_key = ret (),
      ssh_port = ret 22, forward_port = (\<lambda>n. ret n), keepalive_pid = ret None,
      running_keepalive_pid = ret None, vm_status = ret (Some ''Stopped''),
      creation_refusal = (\<lambda>s. ret None), current_size = ret sample_size,
      resize_refusal = (\<lambda>c w. ret None), resize = (\<lambda>m c. emit (Did ''resize'' [])),
      config_gaps = ret [], config_notes = ret [], fatal_gaps = (\<lambda>g. []), host_gaps = ret [],
      verify_initrd_listener = (\<lambda>p. ret ()), start = (\<lambda>p s. emit (Did ''start'' [])),
      stop = emit (Did ''stop'' []), force_stop = emit (Did ''force stop'' []), removals = ret [],
      show_status = ret None, disk_image = ret None, grow_disk = (\<lambda>c w. emit (Did ''grow'' []))\<rparr>"

lemma slept_append: "slept (h @ k) = slept h + slept k"
  by (induction h rule: slept.induct) simp_all

lemma slept_mono: "0 \<le> slept h"
  by (induction h rule: slept.induct) simp_all

end
