(* ===== verification/Yo_Sshconfig.thy ===== *)
theory Yo_Sshconfig
  imports Yo_Sample
begin

text \<open>
  \<open>yolobox_cli/sshconfig.py\<close>: reading an instance's Host block, the owned blocks yo writes
  above it, the Include line of the user's own config, and the endpoint of the probes that
  run before the disk is unlocked. The lemmas show that yo finds back exactly the part of
  the file it does not own, so that rewriting the file twice changes nothing, and what the
  parser accepts.
\<close>

definition SSH_CONNECT_TIMEOUT_SECONDS :: nat where "SSH_CONNECT_TIMEOUT_SECONDS = 5"
definition SSH_ALIVE_INTERVAL_SECONDS :: nat where "SSH_ALIVE_INTERVAL_SECONDS = 15"
definition STAGE2_CONNECT_TIMEOUT_SECONDS :: nat where "STAGE2_CONNECT_TIMEOUT_SECONDS = 30"
definition STAGE2_ALIVE_COUNT_MAX :: nat where "STAGE2_ALIVE_COUNT_MAX = 8"

definition AGENT_SSH_CONFIG_MARKER :: string where
  "AGENT_SSH_CONFIG_MARKER = ''# yolobox: re-applied by yo; lima rewrites this file on every start''"

record host_block =
  hb_hostname :: string
  hb_port :: string
  hb_identity_files :: "string list"
  hb_identity_agent :: "string option"

subsection \<open>Reading the Host block\<close>

fun lines_after_host :: "string \<Rightarrow> string list \<Rightarrow> string list option" where
  "lines_after_host host [] = None"
| "lines_after_host host (l # ls) =
     (if strip l = ''Host '' @ host then Some ls else lines_after_host host ls)"

definition in_block :: "string \<Rightarrow> bool" where
  "in_block l \<longleftrightarrow> (case l of [] \<Rightarrow> True | c # _ \<Rightarrow> is_space c)"

text \<open>The scan's state: the \<open>first\<close> dictionary as one slot per keyword, and the files.\<close>

record block_scan =
  first_hostname :: "string option"
  first_port :: "string option"
  first_agent :: "string option"
  files :: "string list"

definition setdefault :: "string \<Rightarrow> string option \<Rightarrow> string option" where
  "setdefault v slot = (case slot of None \<Rightarrow> Some v | Some w \<Rightarrow> Some w)"

definition key_value :: "string \<Rightarrow> string \<times> string" where
  "key_value l =
     (case partition_on CHR '' '' (strip l) of (key, _, v) \<Rightarrow> (key, strip_char CHR 0x22 (strip v)))"

definition scan_line :: "string \<Rightarrow> block_scan \<Rightarrow> block_scan" where
  "scan_line l s =
     (case key_value l of (key, v) \<Rightarrow>
       if key = ''IdentityFile'' then (if v \<noteq> [] then s\<lparr>files := files s @ [v]\<rparr> else s)
       else if key = ''Hostname'' then s\<lparr>first_hostname := setdefault v (first_hostname s)\<rparr>
       else if key = ''Port'' then s\<lparr>first_port := setdefault v (first_port s)\<rparr>
       else if key = ''IdentityAgent'' then s\<lparr>first_agent := setdefault v (first_agent s)\<rparr>
       else s)"

definition no_scan :: block_scan where
  "no_scan = \<lparr>first_hostname = None, first_port = None, first_agent = None, files = []\<rparr>"

definition scan_block :: "string list \<Rightarrow> block_scan" where
  "scan_block ls = fold scan_line (takeWhile in_block ls) no_scan"

text \<open>\<open>d.get(k)\<close> used as a truth value, or with \<open>or None\<close>.\<close>

definition non_empty :: "string option \<Rightarrow> string option" where
  "non_empty x = (case x of None \<Rightarrow> None | Some s \<Rightarrow> if s = [] then None else Some s)"

definition parse_ssh_host_block :: "string \<Rightarrow> string \<Rightarrow> host_block option" where
  "parse_ssh_host_block text host =
     (case lines_after_host host (splitlines text) of
        None \<Rightarrow> None
      | Some ls \<Rightarrow>
          (let s = scan_block ls in
           case (non_empty (first_hostname s), non_empty (first_port s)) of
             (Some h, Some p) \<Rightarrow>
               if files s = [] then None
               else Some \<lparr>hb_hostname = h, hb_port = p, hb_identity_files = files s,
                          hb_identity_agent = non_empty (first_agent s)\<rparr>
           | _ \<Rightarrow> None))"

subsection \<open>The blocks yo owns\<close>

definition quoted :: "string \<Rightarrow> string" where
  "quoted s = [CHR 0x22] @ s @ [CHR 0x22]"

definition herdr_alias_lines :: "env \<Rightarrow> box \<Rightarrow> host_block \<Rightarrow> string list" where
  "herdr_alias_lines E b hb =
     [''Host '' @ herdr_alias b,
      ''  User '' @ AGENT_USER,
      ''  ControlPath none'',
      ''  ForwardAgent no'',
      ''  Hostname '' @ hb_hostname hb,
      ''  Port '' @ hb_port hb] @
     map (\<lambda>i. ''  IdentityFile '' @ quoted i) (hb_identity_files hb) @
     [''  UserKnownHostsFile '' @ quoted (known_hosts_path E b),
      ''  IdentitiesOnly yes''] @
     (case hb_identity_agent hb of None \<Rightarrow> [] | Some a \<Rightarrow> [''  IdentityAgent '' @ quoted a])"

definition herdr_alias_block :: "env \<Rightarrow> box \<Rightarrow> host_block \<Rightarrow> string" where
  "herdr_alias_block E b hb = join_with NL (herdr_alias_lines E b hb)"

text \<open>\<open>text.partition(sep)\<close> for the two-character separator of a blank line.\<close>

fun after_blank_line :: "string \<Rightarrow> string option" where
  "after_blank_line [] = None"
| "after_blank_line [c] = None"
| "after_blank_line (c # d # s) =
     (if c = CHR 0x0A \<and> d = CHR 0x0A then Some s else after_blank_line (d # s))"

definition lima_part_of :: "string \<Rightarrow> string" where
  "lima_part_of current =
     (if \<not> startswith current AGENT_SSH_CONFIG_MARKER then current
      else case after_blank_line current of
             Some rest \<Rightarrow> rest
           | None \<Rightarrow> snd (snd (partition_on CHR 0x0A current)))"

definition host_key_pin_block :: "env \<Rightarrow> box \<Rightarrow> string" where
  "host_key_pin_block E b =
     join_with NL
       [''Match host '' @ vm_host b,
        ''  UserKnownHostsFile '' @ quoted (known_hosts_path E b),
        ''  StrictHostKeyChecking accept-new'',
        ''  NoHostAuthenticationForLocalhost no'']"

definition connection_bounds_block :: "box \<Rightarrow> string" where
  "connection_bounds_block b =
     join_with NL
       [''Match host '' @ vm_host b @ '','' @ herdr_alias b,
        ''  ConnectTimeout '' @ show_nat STAGE2_CONNECT_TIMEOUT_SECONDS,
        ''  ServerAliveInterval '' @ show_nat SSH_ALIVE_INTERVAL_SECONDS,
        ''  ServerAliveCountMax '' @ show_nat STAGE2_ALIVE_COUNT_MAX]"

text \<open>The list \<open>owned\<close>, with the alias block when the rest has a Host block to copy.\<close>

definition owned_blocks :: "env \<Rightarrow> box \<Rightarrow> string \<Rightarrow> string list" where
  "owned_blocks E b rest =
     [AGENT_SSH_CONFIG_MARKER, editor_ssh_block b, host_key_pin_block E b, connection_bounds_block b] @
     (case parse_ssh_host_block rest (vm_host b) of
        None \<Rightarrow> []
      | Some hb \<Rightarrow> [herdr_alias_block E b hb])"

definition owned_config :: "env \<Rightarrow> box \<Rightarrow> string \<Rightarrow> string" where
  "owned_config E b rest = join_with NL (owned_blocks E b rest) @ NL @ NL @ rest"

definition ensure_agent_ssh_config :: "env \<Rightarrow> box \<Rightarrow> unit io" where
  "ensure_agent_ssh_config E b =
     sq (lift (require_control_path_fits E b))
     (bnd (read_text_file E (ssh_cfg E b)) (\<lambda>current.
      case current of
        None \<Rightarrow> ret ()
      | Some text \<Rightarrow>
          (let rest = lima_part_of text; new_content = owned_config E b rest in
           sq (when_do (parse_ssh_host_block rest (vm_host b) = None)
                 (warn ''has no parseable Host block'' [ssh_cfg E b, vm_host b, yo_cmd b [''up'']]))
              (if new_content = text then ret ()
               else atomic_write E (ssh_cfg E b) new_content FILE_MODE_PRIVATE))))"

definition known_hosts_lines :: "host_block \<Rightarrow> string \<Rightarrow> string list" where
  "known_hosts_lines hb pubkeys =
     concat (map (\<lambda>raw. case split_words raw of
                          keytype # key # _ \<Rightarrow>
                            [''['' @ hb_hostname hb @ '']:'' @ hb_port hb @ '' '' @ keytype @ '' '' @ key]
                        | _ \<Rightarrow> [])
                 (splitlines pubkeys))"

definition FIRST_CONTACT_OPTS :: "string list" where
  "FIRST_CONTACT_OPTS =
     [''-o'', ''UserKnownHostsFile=/dev/null'',
      ''-o'', ''StrictHostKeyChecking=no'',
      ''-o'', ''NoHostAuthenticationForLocalhost=yes'']"

subsection \<open>The endpoint of the probes before the unlock\<close>

record initrd_endpoint =
  ie_hostname :: string
  ie_port :: nat
  ie_identities :: "string list"

definition initrd_endpoint_of :: "env \<Rightarrow> driver \<Rightarrow> box \<Rightarrow> initrd_endpoint io" where
  "initrd_endpoint_of E D b =
     bnd (read_text_file E (ssh_cfg E b)) (\<lambda>text.
     case (case text of None \<Rightarrow> None | Some t \<Rightarrow> parse_ssh_host_block t (vm_host b)) of
       None \<Rightarrow>
         bnd (ssh_port D) (\<lambda>port.
         ret \<lparr>ie_hostname = ''127.0.0.1'', ie_port = port,
              ie_identities = [path_join (env_home E) (initrd_identity D)]\<rparr>)
     | Some hb \<Rightarrow>
         if \<not> is_ascii_number (hb_port hb)
         then raise (YoError ''names the port, not a number'' [ssh_cfg E b, hb_port hb])
         else ret \<lparr>ie_hostname = hb_hostname hb, ie_port = decimal (hb_port hb),
                   ie_identities = hb_identity_files hb\<rparr>)"

definition initrd_ssh_argv :: "env \<Rightarrow> driver \<Rightarrow> box \<Rightarrow> string \<Rightarrow> string \<Rightarrow> string list io" where
  "initrd_ssh_argv E D b remote user =
     bnd (initrd_endpoint_of E D b) (\<lambda>ep.
     ret ([''ssh'', ''-F'', ''/dev/null''] @
          concat (map (\<lambda>i. [''-i'', i]) (ie_identities ep)) @
          [''-o'', ''IdentitiesOnly=yes'',
           ''-o'', ''IdentityAgent='' @ initrd_identity_agent D,
           ''-o'', ''User='' @ user,
           ''-o'', ''Port='' @ show_nat (ie_port ep),
           ''-o'', ''ControlPath=none'',
           ''-o'', ''BatchMode=yes'',
           ''-o'', ''ConnectTimeout='' @ show_nat SSH_CONNECT_TIMEOUT_SECONDS,
           ''-o'', ''ServerAliveInterval='' @ show_nat SSH_ALIVE_INTERVAL_SECONDS,
           ''-o'', ''LogLevel=ERROR''] @
          FIRST_CONTACT_OPTS @ [ie_hostname ep, remote]))"

subsection \<open>The user's own ssh config\<close>

definition config_path :: "env \<Rightarrow> string" where
  "config_path E = path_join (path_join (env_home E) ''.ssh'') ''config''"

text \<open>\<open>info.st_mode & 0o022\<close>: the write bits of group (16) and of others (2).\<close>

definition group_or_other_writable :: "nat \<Rightarrow> bool" where
  "group_or_other_writable mode \<longleftrightarrow> odd (mode div 16) \<or> odd (mode div 2)"

definition ssh_config_reaches_box :: "env \<Rightarrow> box \<Rightarrow> bool io" where
  "ssh_config_reaches_box E b =
     bnd (reads (\<lambda>h. stat_ans E h (config_path E))) (\<lambda>info.
     case info of
       None \<Rightarrow> ret False
     | Some (owner, mode) \<Rightarrow>
         if owner \<notin> {0, env_uid E}
         then raise (YoError ''ssh cannot read it: bad owner'' [config_path E, show_nat owner])
         else if group_or_other_writable mode
         then raise (YoError ''ssh cannot read it: bad permissions'' [config_path E])
         else
           bnd (run E [''ssh'', ''-F'', config_path E, ''-G'', vm_host b] plain) (\<lambda>c.
           if returncode c \<noteq> 0
           then raise (YoError ''ssh cannot read it''
                  [config_path E, (let said = strip (stderr c)
                                   in if said \<noteq> [] then said else ''exit '' @ show_int (returncode c))])
           else ret ((''userknownhostsfile '' @ known_hosts_path E b) \<in> set (splitlines (stdout c)))))"

text \<open>\<open>add_ssh_config_include\<close>; \<open>realpath\<close> is \<open>os.path.realpath\<close>, and \<open>dir_of\<close> the directory part.\<close>

definition add_ssh_config_include :: "(string \<Rightarrow> string) \<Rightarrow> (string \<Rightarrow> string) \<Rightarrow> env \<Rightarrow> unit io" where
  "add_ssh_config_include realpath dir_of E =
     (let ssh_dir = path_join (env_home E) ''.ssh''; target = realpath (config_path E) in
      bnd (path_exists E ssh_dir) (\<lambda>there.
      sq (when_do (\<not> there) (private_dir ssh_dir))
      (bnd (reads (\<lambda>h. (file_ans E h target, stat_ans E h target, exists_ans E h (dir_of target)))) (\<lambda>(text, info, parent).
       case text of
         Text current \<Rightarrow>
           atomic_write E target (SSH_CONFIG_INCLUDE_LINE @ NL @ current)
             (case info of Some (_, mode) \<Rightarrow> mode mod 4096 | None \<Rightarrow> FILE_MODE_PRIVATE)
       | No_File \<Rightarrow>
           if \<not> parent then raise (YoError ''~/.ssh/config is a symlink to a missing directory'' [target])
           else atomic_write E target (SSH_CONFIG_INCLUDE_LINE @ NL) FILE_MODE_PRIVATE
       | Unreadable \<Rightarrow> raise (YoError ''cannot read'' [target])))))"

definition ensure_ssh_config_include ::
  "(string \<Rightarrow> string) \<Rightarrow> (string \<Rightarrow> string) \<Rightarrow> env \<Rightarrow> box \<Rightarrow> bool \<Rightarrow> bool io" where
  "ensure_ssh_config_include realpath dir_of E b refuse =
     bnd (ssh_config_reaches_box E b) (\<lambda>reaches.
     if reaches then ret True
     else
       bnd (if env_tty E then
              sq (warn ''~/.ssh/config does not reach the ssh config of the VM'' [vm_host b])
              (sq (warn SSH_CONFIG_INCLUDE_LINE [])
              (bnd (reads (typed_ans E)) (\<lambda>line.
               ret (lower (strip (or_else line []))))))
            else ret []) (\<lambda>answer.
       if answer = ''y'' \<or> answer = ''yes'' then
         sq (add_ssh_config_include realpath dir_of E)
         (sq (say ''added to ~/.ssh/config'' [SSH_CONFIG_INCLUDE_LINE]) (ret True))
       else
         sq (warn ''add this line to the top of ~/.ssh/config'' [vm_host b])
         (sq (warn SSH_CONFIG_INCLUDE_LINE [])
         (if refuse then raise (YoExit 1) else ret False))))"

subsection \<open>What the parser gives\<close>

definition clean_scan :: "block_scan \<Rightarrow> bool" where
  "clean_scan s \<longleftrightarrow>
     list_all clean_line (files s) \<and> list_all (\<lambda>f. f \<noteq> []) (files s) \<and>
     pred_option clean_line (first_hostname s) \<and> pred_option clean_line (first_port s) \<and>
     pred_option clean_line (first_agent s)"

lemma key_value_clean:
  assumes "clean_line l" and "key_value l = (k, v)"
  shows "clean_line v"
proof -
  obtain h b t where p: "partition_on CHR '' '' (strip l) = (h, b, t)"
    using prod_cases3 by blast
  from assms(1) have "clean_line (strip l)" by simp
  with partition_on_set [OF p] have "clean_line t" using clean_line_subset by blast
  moreover from assms(2) p have "v = strip_char CHR 0x22 (strip t)" by (simp add: key_value_def)
  ultimately show ?thesis by simp
qed

lemma setdefault_clean: "clean_line v \<Longrightarrow> pred_option clean_line x \<Longrightarrow> pred_option clean_line (setdefault v x)"
  by (cases x) (simp_all add: setdefault_def)

lemma scan_line_clean:
  assumes "clean_line l" and "clean_scan s"
  shows "clean_scan (scan_line l s)"
proof -
  obtain k v where kv: "key_value l = (k, v)" by fastforce
  with assms(1) have "clean_line v" by (rule key_value_clean)
  with assms(2) show ?thesis
    unfolding scan_line_def kv prod.case
    by (simp add: clean_scan_def setdefault_clean split del: if_split cong: if_cong)
       (simp add: clean_scan_def setdefault_clean)
qed

lemma fold_scan_clean: "list_all clean_line ls \<Longrightarrow> clean_scan s \<Longrightarrow> clean_scan (fold scan_line ls s)"
  by (induction ls arbitrary: s) (auto simp: scan_line_clean)

lemma lines_after_host_subset: "lines_after_host h ls = Some ks \<Longrightarrow> set ks \<subseteq> set ls"
  by (induction ls) (auto split: if_splits)

lemma non_empty_Some: "non_empty x = Some y \<longleftrightarrow> x = Some y \<and> y \<noteq> []"
  by (auto simp: non_empty_def split: option.splits)

definition clean_block :: "host_block \<Rightarrow> bool" where
  "clean_block hb \<longleftrightarrow>
     clean_line (hb_hostname hb) \<and> clean_line (hb_port hb) \<and> hb_hostname hb \<noteq> [] \<and> hb_port hb \<noteq> []
     \<and> hb_identity_files hb \<noteq> [] \<and> list_all (\<lambda>f. clean_line f \<and> f \<noteq> []) (hb_identity_files hb)
     \<and> pred_option (\<lambda>a. clean_line a \<and> a \<noteq> []) (hb_identity_agent hb)"

lemma parse_clean_block:
  assumes "parse_ssh_host_block t h = Some hb"
  shows "clean_block hb"
proof -
  from assms obtain ls where ls: "lines_after_host h (splitlines t) = Some ls"
    by (auto simp: parse_ssh_host_block_def split: option.splits)
  have "list_all clean_line (takeWhile in_block ls)"
    using lines_after_host_subset [OF ls] splitlines_lines set_takeWhileD
    by (fastforce simp: list_all_iff)
  then have "clean_scan (scan_block ls)"
    unfolding scan_block_def by (rule fold_scan_clean) (simp add: clean_scan_def no_scan_def)
  with assms ls show ?thesis
    by (auto simp: parse_ssh_host_block_def clean_block_def clean_scan_def non_empty_Some Let_def
             list_all_iff option.pred_set split: option.splits if_splits)
qed

subsection \<open>The owned part and the rest\<close>

text \<open>A text with no blank line that neither starts nor ends with a newline.\<close>

definition solid :: "string \<Rightarrow> bool" where
  "solid s \<longleftrightarrow> s \<noteq> [] \<and> hd s \<noteq> CHR 0x0A \<and> last s \<noteq> CHR 0x0A \<and> after_blank_line s = None"

lemma after_blank_line_solid:
  "after_blank_line s = None \<Longrightarrow> s \<noteq> [] \<Longrightarrow> last s \<noteq> CHR 0x0A \<Longrightarrow>
   after_blank_line (s @ CHR 0x0A # CHR 0x0A # r) = Some r"
proof (induction s)
  case Nil
  then show ?case by simp
next
  case (Cons c s)
  then show ?case by (cases s) (auto split: if_splits)
qed

lemma after_blank_line_join:
  "after_blank_line s = None \<Longrightarrow> s \<noteq> [] \<Longrightarrow> last s \<noteq> CHR 0x0A \<Longrightarrow>
   t \<noteq> [] \<Longrightarrow> hd t \<noteq> CHR 0x0A \<Longrightarrow> after_blank_line t = None \<Longrightarrow>
   after_blank_line (s @ CHR 0x0A # t) = None"
proof (induction s)
  case Nil
  then show ?case by simp
next
  case (Cons c s)
  then show ?case by (cases s; cases t) (auto split: if_splits)
qed

lemma solid_NL: "solid s \<Longrightarrow> solid t \<Longrightarrow> solid (s @ NL @ t)"
  by (auto simp: solid_def NL_def after_blank_line_join)

lemma after_blank_line_clean: "clean_line s \<Longrightarrow> after_blank_line s = None"
  by (induction s rule: after_blank_line.induct) (auto simp: line_end_facts)

lemma solid_clean:
  assumes "clean_line s" and "s \<noteq> []"
  shows "solid s"
proof -
  have "c \<noteq> CHR 0x0A" if "c \<in> set s" for c
    using assms(1) that line_end_facts(1) unfolding clean_line_def list_all_iff by blast
  then show ?thesis
    using assms by (simp add: solid_def after_blank_line_clean)
qed

lemma solid_join_with: "ss \<noteq> [] \<Longrightarrow> list_all solid ss \<Longrightarrow> solid (join_with NL ss)"
  by (induction NL ss rule: join_with.induct) (auto simp: solid_NL)

lemma solid_lines: "ls \<noteq> [] \<Longrightarrow> list_all (\<lambda>l. clean_line l \<and> l \<noteq> []) ls \<Longrightarrow> solid (join_with NL ls)"
  by (rule solid_join_with) (auto simp: list_all_iff solid_clean)

text \<open>What the machine's names must be for the blocks to be lines.\<close>

definition line_names :: "env \<Rightarrow> box \<Rightarrow> bool" where
  "line_names E b \<longleftrightarrow> clean_line (box_name b) \<and> clean_line (instances_dir b) \<and> clean_line (env_home E)"

lemma clean_char_lits [simp]:
  "clean_line ''.''" "\<not> is_line_end CHR ''-''" "\<not> is_line_end CHR 0x22"
  by (simp_all add: is_line_end_def)

lemma clean_show_nat [simp]: "clean_line (show_nat n)"
proof -
  have "is_digit c \<Longrightarrow> \<not> is_line_end c" for c
    by (auto simp: is_digit_def is_line_end_def)
  then show ?thesis
    using show_nat_digits [of n] by (auto simp: clean_line_def list_all_iff)
qed

lemma clean_path_join: "clean_line a \<Longrightarrow> clean_line b \<Longrightarrow> clean_line (path_join a b)"
  by (auto simp: path_join_def is_line_end_def)

lemma line_names_clean:
  assumes "line_names E b"
  shows "clean_line (known_hosts_path E b)" "clean_line (vm_host b)" "clean_line (tilde_dir b)"
    "clean_line (herdr_alias b)"
  using assms
  by (auto simp: line_names_def known_hosts_path_def instance_dir_def vm_host_def tilde_dir_def
           herdr_alias_def is_line_end_def intro!: clean_path_join)

lemma editor_ssh_block_lines:
  "editor_ssh_block b =
     join_with NL
       [''Match host '' @ vm_host b @ '' user '' @ AGENT_USER,
        ''  ControlPath '' @ tilde_dir b @ ''/ssh-agent.sock'',
        ''  ForwardAgent no'']"
  by (simp add: editor_ssh_block_def)

lemma solid_owned_blocks:
  assumes "line_names E b"
  shows "list_all solid (owned_blocks E b rest)"
proof -
  note n = line_names_clean [OF assms]
  have "solid AGENT_SSH_CONFIG_MARKER"
    by (rule solid_clean) (simp_all add: AGENT_SSH_CONFIG_MARKER_def is_line_end_def)
  moreover have "solid (editor_ssh_block b)"
    unfolding editor_ssh_block_lines
    by (rule solid_lines) (simp_all add: n AGENT_USER_def is_line_end_def)
  moreover have "solid (host_key_pin_block E b)"
    unfolding host_key_pin_block_def
    by (rule solid_lines) (simp_all add: n quoted_def is_line_end_def)
  moreover have "solid (connection_bounds_block b)"
    unfolding connection_bounds_block_def
    by (rule solid_lines) (simp_all add: n is_line_end_def)
  moreover have "solid (herdr_alias_block E b hb)" if "parse_ssh_host_block rest (vm_host b) = Some hb" for hb
  proof -
    from parse_clean_block [OF that] have hb: "clean_block hb" .
    show ?thesis
      unfolding herdr_alias_block_def herdr_alias_lines_def using hb
      by (intro solid_lines)
         (auto simp: clean_block_def n quoted_def AGENT_USER_def is_line_end_def list_all_iff
               option.pred_set split: option.splits)
  qed
  ultimately show ?thesis
    by (auto simp: owned_blocks_def split: option.splits)
qed

lemma lima_part_of_owned:
  assumes "line_names E b"
  shows "lima_part_of (owned_config E b rest) = rest"
proof -
  let ?o = "join_with NL (owned_blocks E b rest)"
  have "solid ?o"
    using solid_owned_blocks [OF assms] by (intro solid_join_with) (auto simp: owned_blocks_def)
  then have "after_blank_line (owned_config E b rest) = Some rest"
    unfolding owned_config_def solid_def NL_def by (simp add: after_blank_line_solid)
  moreover have "startswith (owned_config E b rest) AGENT_SSH_CONFIG_MARKER"
    by (cases "parse_ssh_host_block rest (vm_host b)")
       (auto simp: owned_config_def owned_blocks_def startswith_def)
  ultimately show ?thesis by (simp add: lima_part_of_def)
qed

lemma owned_config_idem:
  "line_names E b \<Longrightarrow> owned_config E b (lima_part_of (owned_config E b rest)) = owned_config E b rest"
  by (simp add: lima_part_of_owned)

lemma logs_ensure_agent_ssh_config:
  "(\<And>c. Wrote (ssh_cfg E b) c FILE_MODE_PRIVATE \<in> A) \<Longrightarrow> (\<And>w a. Warned (w, a) \<in> A) \<Longrightarrow>
   logs_only A (ensure_agent_ssh_config E b)"
  unfolding ensure_agent_ssh_config_def Let_def by (intro footprint)

subsection \<open>Properties\<close>

text \<open>
  The blocks yo puts above the host driver's part of a machine's ssh config can be taken
  off again exactly, so applying them a second time changes nothing.
\<close>

lemma owned_part_round_trip:
  assumes "line_names E b"
  shows "lima_part_of (owned_config E b rest) = rest
    \<and> owned_config E b (lima_part_of (owned_config E b rest)) = owned_config E b rest"
  using assms lima_part_of_owned owned_config_idem by blast

theorem owned_part_round_trip_witness:
  "lima_part_of (owned_config sample_env sample_box ''Host lima-work'') = ''Host lima-work''"
proof -
  have "line_names sample_env sample_box"
    by (simp add: line_names_def sample_env_def sample_box_def is_line_end_def)
  from owned_part_round_trip [OF this] show ?thesis by blast
qed

end
