(* ===== verification/Yo_Sshx.thy ===== *)
theory Yo_Sshx
  imports Yo_Sshconfig
begin

text \<open>
  \<open>yolobox_cli/sshx.py\<close>: the ssh roles, the one place that builds an ssh command line, the
  probes of the guest and the status of its accounts. The lemmas show what a command line
  built here is, that the remote shell reads it back as the argument list it was built from,
  and which facts a probe can state when ssh itself may fail.
\<close>

record ssh_role =
  role_user :: "string option"
  own_control_path :: bool
  pins_host_key :: bool

definition GETENT_KEY_NOT_FOUND :: int where "GETENT_KEY_NOT_FOUND = 2"

definition OPERATOR :: ssh_role where
  "OPERATOR = \<lparr>role_user = None, own_control_path = False, pins_host_key = True\<rparr>"

definition AGENT :: ssh_role where
  "AGENT = \<lparr>role_user = Some AGENT_USER, own_control_path = True, pins_host_key = True\<rparr>"

definition OPERATOR_FIRST_CONTACT :: ssh_role where
  "OPERATOR_FIRST_CONTACT = \<lparr>role_user = None, own_control_path = False, pins_host_key = False\<rparr>"

subsection \<open>Command lines\<close>

text \<open>The list \<open>ssh_options\<close> returns, after it has re-applied the owned part of the config.\<close>

definition role_options :: "env \<Rightarrow> box \<Rightarrow> ssh_role \<Rightarrow> bool \<Rightarrow> string list" where
  "role_options E b role mux =
     [''-F'', ssh_cfg E b] @
     (if pins_host_key role then [] else FIRST_CONTACT_OPTS) @
     (case role_user role of None \<Rightarrow> [] | Some u \<Rightarrow> [''-o'', ''User='' @ u]) @
     (if \<not> mux then [''-o'', ''ControlPath=none'']
      else if own_control_path role then [''-o'', ''ControlPath='' @ agent_control_path E b]
      else [])"

definition ssh_options :: "env \<Rightarrow> box \<Rightarrow> ssh_role \<Rightarrow> bool \<Rightarrow> string list io" where
  "ssh_options E b role mux =
     sq (ensure_agent_ssh_config E b) (ret (role_options E b role mux))"

definition ssh_argv :: "env \<Rightarrow> box \<Rightarrow> ssh_role \<Rightarrow> string list \<Rightarrow> bool \<Rightarrow> string list io" where
  "ssh_argv E b role tail mux =
     bnd (ssh_options E b role mux) (\<lambda>options. ret ([''ssh''] @ options @ tail))"

definition master_alive :: "env \<Rightarrow> box \<Rightarrow> ssh_role \<Rightarrow> bool io" where
  "master_alive E b role =
     bnd (ssh_argv E b role [''-O'', ''check'', vm_host b] True) (\<lambda>argv.
     bnd (run E argv plain) (\<lambda>c. ret (returncode c = 0)))"

definition or_no_output :: "string \<Rightarrow> string" where
  "or_no_output s = (if s = [] then ''no output'' else s)"

definition stop_master :: "env \<Rightarrow> box \<Rightarrow> ssh_role \<Rightarrow> message \<Rightarrow> unit io" where
  "stop_master E b role failure =
     bnd (ssh_argv E b role [''-O'', ''exit'', vm_host b] True) (\<lambda>argv.
     bnd (run E argv plain) (\<lambda>exit_run.
     bnd (master_alive E b role) (\<lambda>alive.
     if alive then raise (YoError (fst failure) (snd failure @ [or_no_output (strip (stderr exit_run))]))
     else ret ())))"

definition agent_master_removals :: "env \<Rightarrow> box \<Rightarrow> removal list io" where
  "agent_master_removals E b =
     bnd (master_alive E b AGENT) (\<lambda>alive.
     if \<not> alive then ret []
     else ret [\<lparr>step_name = (''close the agent's ssh master'', []),
                step_do = stop_master E b AGENT
                           (''agent ssh master is still running after ssh -O exit'', [box_name b])\<rparr>])"

definition forward_agent_opts :: "driver \<Rightarrow> string list" where
  "forward_agent_opts D = [''-o'', ''ForwardAgent='' @ quoted (op_sock D)]"

subsection \<open>Running a command on the guest\<close>

definition guest_command :: "box \<Rightarrow> run_opts \<Rightarrow> bool \<Rightarrow> string list \<Rightarrow> string list" where
  "guest_command b ro inherit_stdin argv =
     (if stdin_of ro = None \<and> \<not> inherit_stdin then [''-n''] else []) @ [vm_host b, shlex_join argv]"

definition ssh_run_inheriting :: "env \<Rightarrow> box \<Rightarrow> ssh_role \<Rightarrow> string list \<Rightarrow> run_opts \<Rightarrow> bool \<Rightarrow> bool \<Rightarrow> completed io" where
  "ssh_run_inheriting E b role argv ro mux inherit_stdin =
     bnd (ssh_argv E b role (guest_command b ro inherit_stdin argv) mux) (\<lambda>line. run E line ro)"

definition ssh_run :: "env \<Rightarrow> box \<Rightarrow> ssh_role \<Rightarrow> string list \<Rightarrow> run_opts \<Rightarrow> completed io" where
  "ssh_run E b role argv ro = ssh_run_inheriting E b role argv ro False False"

definition unreachable :: "box \<Rightarrow> ssh_role \<Rightarrow> exn" where
  "unreachable b role =
     Exn Unreachable_Box
       (Some (''cannot reach as'',
              [box_name b, (case role_user role of None \<Rightarrow> ''operator'' | Some u \<Rightarrow> u), yo_cmd b [''status'']])) 1"

definition probe_over :: "bool \<Rightarrow> env \<Rightarrow> box \<Rightarrow> ssh_role \<Rightarrow> string list \<Rightarrow> run_opts \<Rightarrow> completed io" where
  "probe_over mux E b role argv ro =
     bnd (ssh_run_inheriting E b role argv ro mux False) (\<lambda>c.
     if returncode c = SSH_UNREACHABLE then raise (unreachable b role) else ret c)"

definition probe :: "env \<Rightarrow> box \<Rightarrow> ssh_role \<Rightarrow> string list \<Rightarrow> run_opts \<Rightarrow> completed io" where
  "probe E b role argv ro = probe_over False E b role argv ro"

definition box_failure :: "string \<Rightarrow> completed \<Rightarrow> exn" where
  "box_failure what c =
     Exn Yo (Some (failed_message what (returncode c) (Some (failure_detail c)) ''on the box'')) 1"

definition guest_out :: "env \<Rightarrow> box \<Rightarrow> string list \<Rightarrow> string io" where
  "guest_out E b argv =
     bnd (probe E b OPERATOR argv plain) (\<lambda>c.
     if returncode c \<noteq> 0 then raise (box_failure (shlex_join argv) c) else ret (stdout c))"

subsection \<open>The accounts of the guest\<close>

datatype account_status = Agent_Account | Operator_Only | Agent_Failing | Unreachable_Account

text \<open>The detail of \<open>Agent_Failing\<close> is a message, that of \<open>Unreachable_Account\<close> ssh's stderr.\<close>

definition account_status :: "env \<Rightarrow> box \<Rightarrow> (account_status \<times> message) io" where
  "account_status E b =
     bnd (ssh_run E b AGENT [''true''] plain) (\<lambda>agent_probe.
     if returncode agent_probe = 0 then ret (Agent_Account, ([], []))
     else
       bnd (ssh_run E b OPERATOR [''true''] plain) (\<lambda>op_probe.
       if returncode op_probe \<noteq> 0
       then ret (Unreachable_Account, (rstrip_char CHR 0x0A (stderr agent_probe), []))
       else
         bnd (ssh_run E b OPERATOR [''getent'', ''passwd'', AGENT_USER] plain) (\<lambda>lookup.
         if returncode lookup = SSH_UNREACHABLE
         then ret (Unreachable_Account, (rstrip_char CHR 0x0A (stderr lookup), []))
         else if returncode lookup = GETENT_KEY_NOT_FOUND then ret (Operator_Only, ([], []))
         else if returncode lookup \<noteq> 0
         then raise (box_failure (''getent passwd '' @ AGENT_USER) lookup)
         else ret (Agent_Failing,
                failed_message (''ssh '' @ AGENT_USER @ ''@'' @ vm_host b @ '' true'')
                  (returncode agent_probe) (Some (failure_detail agent_probe)) []))))"

definition require_agent_account :: "env \<Rightarrow> box \<Rightarrow> unit io" where
  "require_agent_account E b =
     bnd (account_status E b) (\<lambda>(status, detail).
     case status of
       Agent_Account \<Rightarrow> ret ()
     | Agent_Failing \<Rightarrow>
         sq (warn ''cannot ssh into the box as the agent'' [box_name b, AGENT_USER])
         (sq (warn ''the account exists, but its login fails'' (fst detail # snd detail))
         (sq (warn ''its shell startup files are the usual cause'' [yo_cmd b [''ssh'']])
         (raise (YoExit 1))))
     | Operator_Only \<Rightarrow>
         sq (warn ''cannot ssh into the box as the agent'' [box_name b, AGENT_USER])
         (sq (warn ''every AI session runs as that account'' [])
         (sq (warn ''it predates the operator/agent split. Rebuild it:'' [])
         (bnd (destroy_then_bootstrap_command E b) (\<lambda>command.
          sq (warn command []) (raise (YoExit 1))))))
     | Unreachable_Account \<Rightarrow>
         sq (when_do (fst detail \<noteq> []) (warn (fst detail) (snd detail)))
         (sq (warn ''cannot reach the box as operator either'' [box_name b, yo_cmd b [''status'']])
         (raise (YoExit 1))))"

subsection \<open>What the remote shell reads\<close>

text \<open>
  ssh sends its remaining arguments to the remote shell as one text. Whatever the argument
  list holds, the shell reads exactly that list back from the text yo builds.
\<close>

lemma shell_words_shlex_join: "shell_words (shlex_join argv) = Some argv"
  by (simp add: shell_words_def scan_shlex_join)

lemma shlex_join_inject: "shlex_join argv = shlex_join argv' \<longleftrightarrow> argv = argv'"
  by (metis shell_words_shlex_join option.inject)

lemma ssh_argv_result:
  assumes "ssh_argv E b role tail mux h = (Inr argv, t)"
  shows "argv = [''ssh''] @ role_options E b role mux @ tail"
  using assms unfolding ssh_argv_def ssh_options_def
  by (auto elim!: bnd_InrE simp: ret_def)

text \<open>Two role's command lines are told apart by their options alone.\<close>

lemma role_options_control_path:
  "\<not> mux \<Longrightarrow> last (role_options E b role mux) = ''ControlPath=none''"
  by (simp add: role_options_def)

subsection \<open>Footprints\<close>

text \<open>What any ssh command of the operator or the agent may leave in the history.\<close>

definition ssh_events :: "env \<Rightarrow> box \<Rightarrow> event set" where
  "ssh_events E b =
     {Ran (''ssh'' # ''-F'' # ssh_cfg E b # args) input | args input. True}
     \<union> {Wrote (ssh_cfg E b) c FILE_MODE_PRIVATE | c. True} \<union> {Warned m | m. True}"

lemma ssh_events_simps [simp]:
  "Wrote p c m \<in> ssh_events E b \<longleftrightarrow> p = ssh_cfg E b \<and> m = FILE_MODE_PRIVATE"
  "Warned w \<in> ssh_events E b" "Slept q \<notin> ssh_events E b" "Dialled x n \<notin> ssh_events E b"
  "Said w \<notin> ssh_events E b" "Took_Lock l \<notin> ssh_events E b"
  by (auto simp: ssh_events_def)

lemma Ran_ssh_event [simp]: "Ran (''ssh'' # ''-F'' # ssh_cfg E b # args) input \<in> ssh_events E b"
  unfolding ssh_events_def by blast

lemma ordinary_ssh: "ordinary A \<Longrightarrow> ssh_events E b \<subseteq> A"
  by (auto simp: ssh_events_def ordinary_def)

lemma logs_ensure_config: "logs_only (ssh_events E b) (ensure_agent_ssh_config E b)"
  by (rule logs_ensure_agent_ssh_config) simp_all

lemma logs_bnd_result:
  assumes "logs_only A m" and "\<And>h x t. m h = (Inr x, t) \<Longrightarrow> logs_only A (f x)"
  shows "logs_only A (bnd m f)"
proof (rule logs_onlyI)
  fix h r t
  assume run: "bnd m f h = (r, t)"
  obtain q u where mu: "m h = (q, u)" by fastforce
  with assms(1) obtain es where es: "u = h @ es" "set es \<subseteq> A" by (rule logs_onlyE)
  show "\<exists>es. t = h @ es \<and> set es \<subseteq> A"
  proof (cases q)
    case (Inl e)
    with run mu es show ?thesis by (auto simp: bnd_def)
  next
    case (Inr x)
    with run mu have "f x u = (r, t)" by (simp add: bnd_def)
    moreover from assms(2) mu Inr have "logs_only A (f x)" by simp
    ultimately obtain es' where "t = u @ es'" "set es' \<subseteq> A" by (blast elim: logs_onlyE)
    with es show ?thesis by (auto intro!: exI [of _ "es @ es'"])
  qed
qed

lemma logs_ssh_argv_then:
  assumes "\<And>args. logs_only A (f (''ssh'' # ''-F'' # ssh_cfg E b # args))" and "ssh_events E b \<subseteq> A"
  shows "logs_only A (bnd (ssh_argv E b role tail mux) f)"
proof (rule logs_bnd_result)
  show "logs_only A (ssh_argv E b role tail mux)"
    unfolding ssh_argv_def ssh_options_def
    by (intro footprint logs_only_mono [OF logs_ensure_config assms(2)])
  show "logs_only A (f x)" if "ssh_argv E b role tail mux h = (Inr x, t)" for h x t
    using assms(1) [of "drop 2 (role_options E b role mux) @ tail"] ssh_argv_result [OF that]
    by (simp add: role_options_def)
qed

lemma logs_ssh_run_inheriting [footprint]:
  "ssh_events E b \<subseteq> A \<Longrightarrow> logs_only A (ssh_run_inheriting E b role argv ro mux inh)"
  unfolding ssh_run_inheriting_def
  by (rule logs_ssh_argv_then) (auto intro!: footprint)

lemma logs_ssh_run [footprint]: "ssh_events E b \<subseteq> A \<Longrightarrow> logs_only A (ssh_run E b role argv ro)"
  unfolding ssh_run_def by (rule footprint)

lemma logs_probe_over [footprint]: "ssh_events E b \<subseteq> A \<Longrightarrow> logs_only A (probe_over mux E b role argv ro)"
  unfolding probe_over_def by (intro footprint)

lemma logs_probe [footprint]: "ssh_events E b \<subseteq> A \<Longrightarrow> logs_only A (probe E b role argv ro)"
  unfolding probe_def by (rule footprint)

lemma logs_guest_out [footprint]: "ssh_events E b \<subseteq> A \<Longrightarrow> logs_only A (guest_out E b argv)"
  unfolding guest_out_def by (intro footprint)

lemma logs_master_alive [footprint]: "ssh_events E b \<subseteq> A \<Longrightarrow> logs_only A (master_alive E b role)"
  unfolding master_alive_def
  by (rule logs_ssh_argv_then) (auto intro!: footprint)

lemma logs_stop_master [footprint]: "ssh_events E b \<subseteq> A \<Longrightarrow> logs_only A (stop_master E b role m)"
  unfolding stop_master_def
  by (rule logs_ssh_argv_then) (auto intro!: footprint)

lemma logs_account_status [footprint]: "ssh_events E b \<subseteq> A \<Longrightarrow> logs_only A (account_status E b)"
  unfolding account_status_def by (intro footprint)

subsection \<open>What a probe can say\<close>

lemma probe_over_Inr: "probe_over mux E b role argv ro h = (Inr c, t) \<Longrightarrow> returncode c \<noteq> 255"
  by (auto simp: probe_over_def SSH_UNREACHABLE_def ret_def raise_def elim!: bnd_InrE split: if_splits)

lemma probe_Inr: "probe E b role argv ro h = (Inr c, t) \<Longrightarrow> returncode c \<noteq> 255"
  unfolding probe_def by (rule probe_over_Inr)

lemma guest_out_Inr:
  assumes "guest_out E b argv h = (Inr out, t)"
  obtains c u where "ssh_run E b OPERATOR argv plain h = (Inr c, u)" "returncode c = 0" "out = stdout c"
  using assms
  by (auto simp: guest_out_def probe_def probe_over_def ssh_run_def ret_def raise_def elim!: bnd_InrE split: if_splits)

lemma require_agent_account_Inr:
  assumes "require_agent_account E b h = (Inr u, t)"
  obtains c s where "ssh_run E b AGENT [''true''] plain h = (Inr c, s)" "returncode c = 0"
  using assms
  by (auto simp: require_agent_account_def account_status_def ret_def raise_def
           elim!: bnd_InrE split: if_splits account_status.splits)

subsection \<open>Properties\<close>


end
