(* ===== verification/Yo_Json.thy ===== *)
theory Yo_Json
  imports Yo_Text
begin

text \<open>
  Python's \<open>json.loads\<close> as the program uses it: the value a text stands for, or none
  (\<open>ValueError\<close>). Objects keep the last value of a repeated key, as a Python dictionary
  does; a number is kept as its text, with the one reading the program needs of it. The
  parser's fuel bounds the nesting and the number of items by the length of the text, and
  \<open>json_loads_fuel\<close> shows that more fuel never changes what it reads.
\<close>

datatype json = JNull | JBool bool | JNum string | JStr string | JArr "json list"
  | JObj "(string \<times> json) list"

definition json_ws :: "char \<Rightarrow> bool" where
  "json_ws c \<longleftrightarrow> c \<in> {CHR '' '', CHR 0x09, CHR 0x0A, CHR 0x0D}"

definition skip_ws :: "string \<Rightarrow> string" where
  "skip_ws s = dropWhile json_ws s"

text \<open>A hexadecimal digit's value; a code point above 255 is read as \<open>?\<close> (see \<open>Yo_Text\<close>).\<close>

definition hex_value :: "char \<Rightarrow> nat option" where
  "hex_value c =
     (let n = (of_char c :: nat) in
      if is_digit c then Some (n - 48)
      else if 97 \<le> n \<and> n \<le> 102 then Some (n - 87)
      else if 65 \<le> n \<and> n \<le> 70 then Some (n - 55)
      else None)"

definition code_point :: "nat \<Rightarrow> char" where
  "code_point n = (if n < 256 then char_of n else CHR ''?'')"

definition simple_escape :: "char \<Rightarrow> char option" where
  "simple_escape c =
     (if c = CHR 0x22 \<or> c = CHR 0x5C \<or> c = CHR ''/'' then Some c
      else if c = CHR ''b'' then Some CHR 0x08
      else if c = CHR ''f'' then Some CHR 0x0C
      else if c = CHR ''n'' then Some CHR 0x0A
      else if c = CHR ''r'' then Some CHR 0x0D
      else if c = CHR ''t'' then Some CHR 0x09
      else None)"

text \<open>The rest of a string literal, after its opening quote.\<close>

fun json_string :: "string \<Rightarrow> (string \<times> string) option" where
  "json_string [] = None"
| "json_string (c # s) =
     (if c = CHR 0x22 then Some ([], s)
      else if c = CHR 0x5C then
        (case s of
           [] \<Rightarrow> None
         | e # s' \<Rightarrow>
             if e = CHR ''u'' then
               (case s' of
                  p # q # u # v # s'' \<Rightarrow>
                    (case (hex_value p, hex_value q, hex_value u, hex_value v) of
                       (Some a, Some b, Some d, Some f) \<Rightarrow>
                         (case json_string s'' of
                            None \<Rightarrow> None
                          | Some (t, r) \<Rightarrow> Some (code_point (4096 * a + 256 * b + 16 * d + f) # t, r))
                     | _ \<Rightarrow> None)
                | _ \<Rightarrow> None)
             else (case simple_escape e of
                     None \<Rightarrow> None
                   | Some d \<Rightarrow> (case json_string s' of None \<Rightarrow> None | Some (t, r) \<Rightarrow> Some (d # t, r))))
      else if (of_char c :: nat) < 32 then None
      else (case json_string s of None \<Rightarrow> None | Some (t, r) \<Rightarrow> Some (c # t, r)))"

text \<open>\<open>-?(?:0|[1-9][0-9]*)(?:\.[0-9]+)?(?:[eE][-+]?[0-9]+)?\<close>, the longest match.\<close>

definition json_fraction :: "string \<Rightarrow> string \<times> string" where
  "json_fraction s =
     (case s of
        c # r \<Rightarrow> if c = CHR ''.'' \<and> takeWhile is_digit r \<noteq> []
                then (c # takeWhile is_digit r, dropWhile is_digit r) else ([], s)
      | [] \<Rightarrow> ([], s))"

definition json_exponent :: "string \<Rightarrow> string \<times> string" where
  "json_exponent s =
     (case s of
        c # r \<Rightarrow>
          if c = CHR ''e'' \<or> c = CHR ''E'' then
            (let sign = (case r of d # _ \<Rightarrow> if d = CHR ''+'' \<or> d = CHR ''-'' then [d] else [] | [] \<Rightarrow> []);
                 t = drop (length sign) r
             in if takeWhile is_digit t \<noteq> [] then (c # sign @ takeWhile is_digit t, dropWhile is_digit t)
                else ([], s))
          else ([], s)
      | [] \<Rightarrow> ([], s))"

definition json_number :: "string \<Rightarrow> (string \<times> string) option" where
  "json_number s =
     (let sign = (case s of c # _ \<Rightarrow> if c = CHR ''-'' then [c] else [] | [] \<Rightarrow> []);
          t = drop (length sign) s;
          whole = (case t of c # _ \<Rightarrow> if c = CHR ''0'' then [c] else takeWhile is_digit t | [] \<Rightarrow> [])
      in if whole = [] then None
         else (case json_fraction (drop (length whole) t) of
                 (frac, u) \<Rightarrow> (case json_exponent u of
                    (ex, r) \<Rightarrow> Some (sign @ whole @ frac @ ex, r))))"

definition json_words :: "(string \<times> json) list" where
  "json_words =
     [(''null'', JNull), (''true'', JBool True), (''false'', JBool False),
      (''NaN'', JNum ''NaN''), (''Infinity'', JNum ''Infinity''), (''-Infinity'', JNum ''-Infinity'')]"

fun json_word :: "(string \<times> json) list \<Rightarrow> string \<Rightarrow> (json \<times> string) option" where
  "json_word [] s = None"
| "json_word ((w, v) # ws) s = (if startswith s w then Some (v, after w s) else json_word ws s)"

definition dict_set :: "string \<Rightarrow> json \<Rightarrow> (string \<times> json) list \<Rightarrow> (string \<times> json) list" where
  "dict_set k v d = (k, v) # filter (\<lambda>e. fst e \<noteq> k) d"

text \<open>A value; the items of an array after its \<open>[\<close>; the members of an object after its \<open>{\<close>.\<close>

fun json_value :: "nat \<Rightarrow> string \<Rightarrow> (json \<times> string) option"
and json_items :: "nat \<Rightarrow> string \<Rightarrow> (json list \<times> string) option"
and json_members :: "nat \<Rightarrow> (string \<times> json) list \<Rightarrow> string \<Rightarrow> ((string \<times> json) list \<times> string) option"
where
  "json_value 0 s = None"
| "json_value (Suc n) s =
     (case s of
        [] \<Rightarrow> None
      | c # r \<Rightarrow>
          if c = CHR 0x22 then map_option (\<lambda>(t, r'). (JStr t, r')) (json_string r)
          else if c = CHR ''['' then
            (case skip_ws r of
               d # r' \<Rightarrow> if d = CHR '']'' then Some (JArr [], r')
                        else map_option (\<lambda>(vs, q). (JArr vs, q)) (json_items n (d # r'))
             | [] \<Rightarrow> None)
          else if c = CHR ''{'' then
            (case skip_ws r of
               d # r' \<Rightarrow> if d = CHR ''}'' then Some (JObj [], r')
                        else map_option (\<lambda>(ms, q). (JObj ms, q)) (json_members n [] (d # r'))
             | [] \<Rightarrow> None)
          else
            (case json_word json_words s of
               Some out \<Rightarrow> Some out
             | None \<Rightarrow> map_option (\<lambda>(t, r'). (JNum t, r')) (json_number s)))"
| "json_items 0 s = None"
| "json_items (Suc n) s =
     (case json_value n s of
        None \<Rightarrow> None
      | Some (v, r) \<Rightarrow>
          (case skip_ws r of
             [] \<Rightarrow> None
           | c # r' \<Rightarrow>
               if c = CHR '']'' then Some ([v], r')
               else if c = CHR '','' then map_option (\<lambda>(vs, q). (v # vs, q)) (json_items n (skip_ws r'))
               else None))"
| "json_members 0 d s = None"
| "json_members (Suc n) d s =
     (case s of
        [] \<Rightarrow> None
      | c # r \<Rightarrow>
          if c \<noteq> CHR 0x22 then None
          else (case json_string r of
             None \<Rightarrow> None
           | Some (k, r1) \<Rightarrow>
               (case skip_ws r1 of
                  [] \<Rightarrow> None
                | e # r2 \<Rightarrow>
                    if e \<noteq> CHR '':'' then None
                    else (case json_value n (skip_ws r2) of
                       None \<Rightarrow> None
                     | Some (v, r3) \<Rightarrow>
                         (case skip_ws r3 of
                            [] \<Rightarrow> None
                          | f # r4 \<Rightarrow>
                              if f = CHR ''}'' then Some (dict_set k v d, r4)
                              else if f = CHR '','' then json_members n (dict_set k v d) (skip_ws r4)
                              else None)))))"

definition json_loads :: "string \<Rightarrow> json option" where
  "json_loads s =
     (case json_value (2 * length s + 2) (skip_ws s) of
        None \<Rightarrow> None
      | Some (v, r) \<Rightarrow> if skip_ws r = [] then Some v else None)"

text \<open>\<open>d[k]\<close> and \<open>d.get(k)\<close> of a parsed value; none when it is no object or has no such key.\<close>

definition json_get :: "string \<Rightarrow> json \<Rightarrow> json option" where
  "json_get k v = (case v of JObj d \<Rightarrow> map_of d k | _ \<Rightarrow> None)"

definition json_str :: "json option \<Rightarrow> string option" where
  "json_str v = (case v of Some (JStr s) \<Rightarrow> Some s | _ \<Rightarrow> None)"

subsection \<open>The fuel\<close>

lemma json_fuel:
  "json_value n s = Some x \<Longrightarrow> json_value (n + k) s = Some x"
  "json_items n s = Some y \<Longrightarrow> json_items (n + k) s = Some y"
  "json_members n d s = Some z \<Longrightarrow> json_members (n + k) d s = Some z"
proof (induction n s and n s and n d s arbitrary: x and y and z
        rule: json_value_json_items_json_members.induct)
  case (2 n s)
  then show ?case by (auto split: list.splits if_splits option.splits)
next
  case (4 n s)
  then show ?case by (auto split: list.splits if_splits option.splits prod.splits)
next
  case (6 n d s)
  then show ?case by (cases z) (auto split: list.splits if_splits option.splits prod.splits)
qed simp_all

lemma json_string_short: "json_string s = Some (t, r) \<Longrightarrow> length r < length s"
proof (induction s arbitrary: t rule: length_induct)
  case (1 s)
  have IH: "length r < length u" if "json_string u = Some (x, r)" "length u < length s" for u x
    using 1 that by blast
  from "1.prems" show ?case
    by (cases s) (auto dest!: IH split: if_splits list.splits option.splits prod.splits)
qed

lemma skip_ws_short: "length (skip_ws s) \<le> length s"
  by (simp add: skip_ws_def length_dropWhile_le)

lemma json_fraction_short: "json_fraction s = (t, r) \<Longrightarrow> length r \<le> length s"
  by (auto simp: json_fraction_def le_SucI length_dropWhile_le split: list.splits if_splits)

lemma json_exponent_short: "json_exponent s = (t, r) \<Longrightarrow> length r \<le> length s"
  by (auto simp: json_exponent_def Let_def le_SucI length_dropWhile_le split: list.splits if_splits)

lemma json_number_short:
  assumes "json_number s = Some (t, r)"
  shows "length r < length s"
proof -
  define sign where "sign = (case s of c # _ \<Rightarrow> if c = CHR ''-'' then [c] else [] | [] \<Rightarrow> [])"
  define u where "u = drop (length sign) s"
  define whole where
    "whole = (case u of c # _ \<Rightarrow> if c = CHR ''0'' then [c] else takeWhile is_digit u | [] \<Rightarrow> [])"
  obtain frac v where f: "json_fraction (drop (length whole) u) = (frac, v)" by fastforce
  obtain ex w where e: "json_exponent v = (ex, w)" by fastforce
  from assms have "whole \<noteq> []" and r: "r = w"
    unfolding json_number_def Let_def sign_def [symmetric] u_def [symmetric] whole_def [symmetric]
    by (auto simp: f e split: if_splits)
  moreover have "length whole \<le> length u" by (auto simp: whole_def length_takeWhile_le split: list.splits)
  moreover have "length u \<le> length s" by (simp add: u_def)
  moreover from json_fraction_short [OF f] json_exponent_short [OF e]
  have "length w \<le> length u - length whole" by simp
  moreover from \<open>whole \<noteq> []\<close> have "0 < length whole" by simp
  ultimately show ?thesis unfolding r by linarith
qed

lemma json_word_short: "\<forall>(w, v) \<in> set ws. w \<noteq> [] \<Longrightarrow> json_word ws s = Some (v, r) \<Longrightarrow> length r < length s"
  by (induction ws) (auto simp: startswith_iff split: if_splits)

lemma json_words_nonempty: "\<forall>(w, v) \<in> set json_words. w \<noteq> []"
  by (simp add: json_words_def)

lemma skip_ws_Cons: "skip_ws s = c # r \<Longrightarrow> length r < length s"
  using skip_ws_short [of s] by simp

lemma json_consumes:
  "(\<forall>s v r. json_value n s = Some (v, r) \<longrightarrow> length r < length s) \<and>
   (\<forall>s vs r. json_items n s = Some (vs, r) \<longrightarrow> length r < length s) \<and>
   (\<forall>d s ms r. json_members n d s = Some (ms, r) \<longrightarrow> length r < length s)"
proof (induction n)
  case 0
  show ?case by simp
next
  case (Suc n)
  then have V: "json_value n s = Some (v, r) \<Longrightarrow> length r < length s"
    and I: "json_items n s = Some (vs, r) \<Longrightarrow> length r < length s"
    and M: "json_members n d s = Some (ms, r) \<Longrightarrow> length r < length s" for s d r v vs ms
    by blast+
  have ws: "length s < k \<Longrightarrow> length (skip_ws s) < k" for s k
    using skip_ws_short [of s] by simp
  have "length r < length s" if "json_value (Suc n) s = Some (v, r)" for s v r
    using that
    by (auto dest!: json_string_short skip_ws_Cons json_word_short [OF json_words_nonempty]
                    json_number_short I M split: list.splits if_splits option.splits)
  moreover have "length r < length s" if "json_items (Suc n) s = Some (vs, r)" for s vs r
    using that skip_ws_short
    by (auto dest!: skip_ws_Cons V I split: list.splits if_splits option.splits)
       (meson less_trans le_less_trans skip_ws_short)
  moreover have "length r < length s" if "json_members (Suc n) d s = Some (ms, r)" for s d ms r
    using that
    by (auto dest!: skip_ws_Cons V M json_string_short split: list.splits if_splits option.splits)
       (meson less_trans le_less_trans less_SucI skip_ws_short)+
  ultimately show ?case by blast
qed

lemmas json_short = json_consumes [THEN conjunct1, rule_format]
  json_consumes [THEN conjunct2, THEN conjunct1, rule_format]
  json_consumes [THEN conjunct2, THEN conjunct2, rule_format]

text \<open>Fuel of twice the length of the text, and a little, is as good as any more.\<close>

lemma json_enough:
  "(\<forall>s. 2 * length s < n \<longrightarrow> json_value (Suc n) s = json_value n s) \<and>
   (\<forall>s. 2 * length s + 1 < n \<longrightarrow> json_items (Suc n) s = json_items n s) \<and>
   (\<forall>d s. 2 * length s < n \<longrightarrow> json_members (Suc n) d s = json_members n d s)"
proof (induction n)
  case 0
  show ?case by simp
next
  case (Suc n)
  then have V: "2 * length s < n \<Longrightarrow> json_value (Suc n) s = json_value n s"
    and I: "2 * length s + 1 < n \<Longrightarrow> json_items (Suc n) s = json_items n s"
    and M: "2 * length s < n \<Longrightarrow> json_members (Suc n) d s = json_members n d s" for s d
    by blast+
  have "json_value (Suc (Suc n)) s = json_value (Suc n) s" if "2 * length s < Suc n" for s
  proof (cases s)
    case Nil
    then show ?thesis by simp
  next
    case (Cons c r)
    have "json_items (Suc n) u = json_items n u" if "skip_ws r = u" for u
      using I [of u] that skip_ws_short [of r] \<open>2 * length s < Suc n\<close> Cons by simp
    moreover have "json_members (Suc n) [] u = json_members n [] u" if "skip_ws r = u" for u
      using M [of u "[]"] that skip_ws_short [of r] \<open>2 * length s < Suc n\<close> Cons by simp
    ultimately show ?thesis
      unfolding Cons json_value.simps(2) [of "Suc n" "c # r"] json_value.simps(2) [of n "c # r"]
      by (auto simp del: json_value.simps json_items.simps json_members.simps split: list.splits)
  qed
  moreover have "json_items (Suc (Suc n)) s = json_items (Suc n) s" if "2 * length s + 1 < Suc n" for s
  proof -
    from that have v: "json_value (Suc n) s = json_value n s" by (intro V) simp
    have "json_items (Suc n) (skip_ws r') = json_items n (skip_ws r')"
      if "json_value n s = Some (v, r)" "skip_ws r = c # r'" for v r c r'
    proof (rule I)
      show "2 * length (skip_ws r') + 1 < n"
        using json_short(1) [OF that(1)] skip_ws_Cons [OF that(2)] skip_ws_short [of r']
          \<open>2 * length s + 1 < Suc n\<close> by simp
    qed
    then show ?thesis
      unfolding json_items.simps(2) [of "Suc n" s] json_items.simps(2) [of n s] v
      by (auto simp del: json_value.simps json_items.simps json_members.simps split: option.splits prod.splits list.splits)
  qed
  moreover have "json_members (Suc (Suc n)) d s = json_members (Suc n) d s"
    if "2 * length s < Suc n" for d s
  proof (cases s)
    case Nil
    then show ?thesis by simp
  next
    case (Cons c r)
    have small: "2 * length u < n" if "length u < length r" for u
      using that \<open>2 * length s < Suc n\<close> Cons by simp
    have v: "json_value (Suc n) (skip_ws r2) = json_value n (skip_ws r2)"
      if "json_string r = Some (k, r1)" "skip_ws r1 = e # r2" for k r1 e r2
      using json_string_short [OF that(1)] skip_ws_Cons [OF that(2)] skip_ws_short [of r2]
      by (intro V small) simp
    have m: "json_members (Suc n) d' (skip_ws r4) = json_members n d' (skip_ws r4)"
      if "json_string r = Some (k, r1)" "skip_ws r1 = e # r2"
        "json_value n (skip_ws r2) = Some (x, r3)" "skip_ws r3 = f # r4" for d' k r1 e r2 x r3 f r4
      using json_string_short [OF that(1)] skip_ws_Cons [OF that(2)] skip_ws_short [of r2]
        json_short(1) [OF that(3)] skip_ws_Cons [OF that(4)] skip_ws_short [of r4]
      by (intro M small) simp
    show ?thesis
      unfolding Cons json_members.simps(2) [of "Suc n" d "c # r"] json_members.simps(2) [of n d "c # r"]
      by (auto simp: v m simp del: json_value.simps json_items.simps json_members.simps
               split: option.splits prod.splits list.splits)
  qed
  ultimately show ?case by blast
qed

lemma json_loads_fuel:
  "json_value (2 * length s + 2 + k) (skip_ws s) = json_value (2 * length s + 2) (skip_ws s)"
proof (induction k)
  case 0
  show ?case by simp
next
  case (Suc k)
  have "json_value (Suc (2 * length s + 2 + k)) (skip_ws s) = json_value (2 * length s + 2 + k) (skip_ws s)"
    using json_enough [of "2 * length s + 2 + k"] skip_ws_short [of s] by simp
  with Suc show ?case by simp
qed

lemma json_loads_example:
  "json_loads ''{}'' = Some (JObj [])"
  "json_loads ''[1, true]'' = Some (JArr [JNum ''1'', JBool True])"
  "json_loads ''[1, true'' = None"
  by code_simp+

end
