(* ===== verification/Yo_Release.thy ===== *)
theory Yo_Release
  imports Yo_Sshx Yo_Json "HOL-Library.Product_Lexorder"
begin

text \<open>
  \<open>yolobox_cli/release.py\<close>: the flake ref a box is built from, the drift between this yo's
  release and the one that built the box, and the command lines of a rebuild. The lemmas
  show which refs are accepted, that an accepted ref is accepted again unchanged, and that
  the commit a rebuild names stays in the repository its ref names.
\<close>

definition UPSTREAM_FLAKE :: string where "UPSTREAM_FLAKE = ''github:aka-rider/yolobox''"

definition digits :: rx where "digits = Plus (Cls is_digit)"

definition TRIPLE :: rx where
  "TRIPLE = Cat digits (Cat (Lit ''.'') (Cat digits (Cat (Lit ''.'') digits)))"

definition RELEASE_VERSION_RE :: rx where
  "RELEASE_VERSION_RE = Cat (Opt (Lit ''v'')) TRIPLE"

definition VERSION_TRIPLE_RE :: rx where "VERSION_TRIPLE_RE = TRIPLE"

definition PARTIAL_VERSION_RE :: rx where
  "PARTIAL_VERSION_RE = Cat (Opt (Lit ''v'')) (Cat digits (Opt (Cat (Lit ''.'') digits)))"

text \<open>\<open>GIT_REF_PATTERN\<close> is the same pattern as \<open>PROFILE_NAME_PATTERN\<close>.\<close>

definition GIT_REF_RE :: rx where
  "GIT_REF_RE = Cat (Cls is_alnum) (Star (Cls profile_char))"

definition GITHUB_FLAKE_RE :: rx where
  "GITHUB_FLAKE_RE =
     Cat (Lit ''github:'') (Cat (Plus (Cls profile_char)) (Cat (Lit ''/'')
       (Cat (Plus (Cls profile_char)) (Cat (Lit ''/'') GIT_REF_RE))))"

text \<open>A literal under \<open>re.IGNORECASE | re.ASCII\<close>.\<close>

fun Lit_nocase :: "string \<Rightarrow> rx" where
  "Lit_nocase [] = Eps"
| "Lit_nocase (c # s) = Cat (Cls (\<lambda>d. to_lower d = to_lower c)) (Lit_nocase s)"

definition UPSTREAM_RELEASE_RE :: rx where
  "UPSTREAM_RELEASE_RE = Cat (Lit_nocase (UPSTREAM_FLAKE @ ''/v'')) TRIPLE"

definition FIRST_HOST_OS_FREE_RELEASE :: "nat \<times> nat \<times> nat" where
  "FIRST_HOST_OS_FREE_RELEASE = (1, 9, 2)"

subsection \<open>Versions\<close>

definition triple_of :: "string \<Rightarrow> (nat \<times> nat \<times> nat) option" where
  "triple_of s =
     (case split_on CHR ''.'' s of [a, b, c] \<Rightarrow> Some (decimal a, decimal b, decimal c) | _ \<Rightarrow> None)"

definition release_triple :: "string \<Rightarrow> (nat \<times> nat \<times> nat) option" where
  "release_triple version =
     (if fullmatch VERSION_TRIPLE_RE version then triple_of version else None)"

definition version_drift :: "box \<Rightarrow> string \<Rightarrow> string option \<Rightarrow> message option" where
  "version_drift b host guest =
     (case guest of
        None \<Rightarrow> None
      | Some g \<Rightarrow>
          if host = ''dev'' \<or> host = g then None
          else
            (case (release_triple host, release_triple g) of
               (Some h3, Some g3) \<Rightarrow>
                 if g3 > h3
                 then Some (''the box was built by a newer release: upgrade yo'',
                            [g, host, yo_cmd b [''bootstrap''], host])
                 else Some (''the box was built by another release: rebuild it'',
                            [host, g, yo_cmd b [''bootstrap'']])
             | _ \<Rightarrow> Some (''the box was built by another release: rebuild it'',
                          [host, g, yo_cmd b [''bootstrap''] ])))"

definition show_triple :: "nat \<times> nat \<times> nat \<Rightarrow> string" where
  "show_triple v = (case v of (a, b, c) \<Rightarrow> show_nat a @ ''.'' @ show_nat b @ ''.'' @ show_nat c)"

definition old_release :: "string \<Rightarrow> string option" where
  "old_release ref =
     (if \<not> fullmatch UPSTREAM_RELEASE_RE ref then None
      else (case triple_of (drop (length UPSTREAM_FLAKE + 2) ref) of
              None \<Rightarrow> None
            | Some parts \<Rightarrow>
                if parts \<ge> FIRST_HOST_OS_FREE_RELEASE then None else Some (show_triple parts)))"

definition own_release_ref :: "env \<Rightarrow> string option" where
  "own_release_ref E =
     (if env_version E = ''dev'' then None
      else (let ref = UPSTREAM_FLAKE @ ''/v'' @ env_version E
            in if old_release ref \<noteq> None then None else Some ref))"

definition old_release_yo :: "box \<Rightarrow> string \<Rightarrow> string" where
  "old_release_yo b version =
     ''nix run '' @ UPSTREAM_FLAKE @ ''/v'' @ version @ '' -- '' @ after ''yo '' (yo_cmd b [''bootstrap''])"

definition release_group :: "string \<Rightarrow> string" where
  "release_group version =
     (case version of c # s \<Rightarrow> if c = CHR ''v'' then s else version | [] \<Rightarrow> [])"

definition named_flake_ref :: "string \<Rightarrow> exn + string" where
  "named_flake_ref version =
     (if fullmatch RELEASE_VERSION_RE version
      then Inr (UPSTREAM_FLAKE @ ''/v'' @ release_group version)
      else if fullmatch PARTIAL_VERSION_RE version then Inl (YoError ''a release is X.Y.Z'' [version])
      else if version = ''latest'' then Inl (YoError ''there is no latest ref'' [])
      else if fullmatch GIT_REF_RE version then Inr (UPSTREAM_FLAKE @ ''/'' @ version)
      else if fullmatch GITHUB_FLAKE_RE version then Inr version
      else Inl (YoError ''--version must be a release, a branch or tag, or github:OWNER/REPO/REF'' [version]))"

text \<open>
  \<open>state.box\<close> has no value before \<open>main\<close> has read the arguments; a name without a value raises
  a \<open>NameError\<close>.
\<close>

definition UnsetBox :: exn where
  "UnsetBox = Exn Name_Error (Some (''name is not defined'', [''box''])) 1"

definition naming_box :: "box option \<Rightarrow> (box \<Rightarrow> exn) \<Rightarrow> exn" where
  "naming_box bo f = (case bo of None \<Rightarrow> UnsetBox | Some b \<Rightarrow> f b)"

definition flake_ref :: "env \<Rightarrow> box option \<Rightarrow> string option \<Rightarrow> exn + string" where
  "flake_ref E bo version =
     (case version of
        None \<Rightarrow>
          (case own_release_ref E of
             None \<Rightarrow> Inl (naming_box bo (\<lambda>b. YoError ''this yo is an unreleased build''
                           [env_version E, yo_cmd b [''bootstrap'', ''--version'', ''my-branch'']]))
           | Some own \<Rightarrow> Inr own)
      | Some v \<Rightarrow>
          (case named_flake_ref v of
             Inl e \<Rightarrow> Inl e
           | Inr ref \<Rightarrow>
               (case old_release ref of
                  Some old \<Rightarrow> Inl (naming_box bo (\<lambda>b. YoError ''cannot build release'' [old, old_release_yo b old]))
                | None \<Rightarrow> Inr ref)))"

text \<open>The \<open>type=\<close> of \<open>bootstrap --version\<close>, called while the arguments are read.\<close>

definition bootstrap_version :: "env \<Rightarrow> box option \<Rightarrow> string \<Rightarrow> exn + string" where
  "bootstrap_version E bo v =
     (case flake_ref E bo (Some v) of
        Inl e \<Rightarrow>
          if is_yo_error e
          then Inl (ArgumentTypeError (fst (message_of e)) (snd (message_of e)))
          else Inl e
      | Inr ref \<Rightarrow> Inr ref)"

subsection \<open>The rebuild\<close>

definition NIX_REBUILD_FLAGS :: "string list" where
  "NIX_REBUILD_FLAGS = [''--impure'', ''--refresh'']"

definition nix_env :: "box \<Rightarrow> string \<Rightarrow> string \<Rightarrow> string list" where
  "nix_env b username ref =
     [''YOLOBOX_USERNAME='' @ username, ''YOLOBOX_HOSTNAME='' @ box_hostname b,
      ''YOLOBOX_FLAKE_REF='' @ ref]"

text \<open>The command that rebuilds the box from a ref, as \<open>rebuild_hint\<close> prints it.\<close>

definition rebuild_command :: "box \<Rightarrow> string \<Rightarrow> string" where
  "rebuild_command b ref =
     yo_cmd b [''ssh''] @ '' sudo '' @ join_with '' '' (nix_env b ''$(id -un)'' ref) @
     '' nixos-rebuild switch '' @ join_with '' '' NIX_REBUILD_FLAGS @
     '' --flake '' @ shlex_quote (ref @ ''#yolobox'')"

definition bootstrap_with_ref :: "box \<Rightarrow> string" where
  "bootstrap_with_ref b = yo_cmd b [''bootstrap'', ''--version'', ''<ref>'']"

definition rebuild_hint_for :: "env \<Rightarrow> box \<Rightarrow> string option \<Rightarrow> message io" where
  "rebuild_hint_for E b kept =
     (case (case kept of None \<Rightarrow> flake_ref E (Some b) None | Some ref \<Rightarrow> Inr ref) of
        Inl failure \<Rightarrow>
          sq (case exn_message failure of None \<Rightarrow> warn [] [] | Some (w, a) \<Rightarrow> warn w a)
          (ret (''run with a flake ref the box should build from, then retry'', [bootstrap_with_ref b]))
      | Inr ref \<Rightarrow> ret (rebuild_command b ref, []))"

definition rebuild_hint :: "env \<Rightarrow> box \<Rightarrow> message io" where
  "rebuild_hint E b =
     bnd (remembered_flake_ref E b) (\<lambda>ref.
     case (case ref of None \<Rightarrow> None | Some r \<Rightarrow> old_release r) of
       Some old \<Rightarrow>
         ret (''move the box, or keep it on its release'',
              [(if own_release_ref E \<noteq> None then yo_cmd b [''bootstrap''] else bootstrap_with_ref b),
               old_release_yo b old, old])
     | None \<Rightarrow>
         (case ref of
            None \<Rightarrow> rebuild_hint_for E b None
          | Some r \<Rightarrow>
              (case flake_ref E (Some b) (Some r) of
                 Inr accepted \<Rightarrow> rebuild_hint_for E b (Some accepted)
               | Inl _ \<Rightarrow>
                   sq (warn ''holds a ref which is no longer accepted'' [flake_ref_file E b, r, bootstrap_with_ref b])
                      (rebuild_hint_for E b None))))"

definition REBUILD_LOCK :: string where "REBUILD_LOCK = ''/run/yolobox-rebuild.lock''"
definition REBUILD_BUSY_EXIT :: int where "REBUILD_BUSY_EXIT = 75"

definition rebuild_busy_message :: "box \<Rightarrow> message" where
  "rebuild_busy_message b =
     (''another nixos-rebuild is already running'',
      [box_name b, REBUILD_LOCK, yo_cmd b [''ssh'', ''pgrep'', ''-a'', ''nixos-rebuild'']])"

text \<open>\<open>ref.rsplit('/', 1)[0]\<close>\<close>

definition before_last_slash :: "string \<Rightarrow> string" where
  "before_last_slash s =
     (if CHR ''/'' \<in> set s then rev (tl (dropWhile (\<lambda>c. c \<noteq> CHR ''/'') (rev s))) else s)"

definition pinned_ref :: "string \<Rightarrow> string \<Rightarrow> string" where
  "pinned_ref ref commit = before_last_slash ref @ ''/'' @ commit"

definition nixos_rebuild_argv :: "box \<Rightarrow> string \<Rightarrow> string \<Rightarrow> string \<Rightarrow> string \<Rightarrow> string list" where
  "nixos_rebuild_argv b action username ref commit =
     [''sudo''] @ nix_env b username ref @
     [''flock'', ''-n'', ''-E'', show_int REBUILD_BUSY_EXIT, REBUILD_LOCK, ''nixos-rebuild'', action] @
     NIX_REBUILD_FLAGS @ [''--flake'', pinned_ref ref commit @ ''#yolobox'']"

definition built_by :: "env \<Rightarrow> box \<Rightarrow> string option io" where
  "built_by E b =
     bnd (probe E b OPERATOR [''cat'', ''/etc/yolobox/version''] plain) (\<lambda>c.
     ret (let v = strip (stdout c) in if v = [] then None else Some v))"

definition hex_digit :: "char \<Rightarrow> bool" where
  "hex_digit c \<longleftrightarrow> is_digit c \<or> 97 \<le> (of_char c :: nat) \<and> (of_char c :: nat) \<le> 102"

definition COMMIT_RE :: rx where "COMMIT_RE = Times 40 (Cls hex_digit)"

definition locked_of :: "string \<Rightarrow> json option" where
  "locked_of out =
     (case json_loads out of
        None \<Rightarrow> None
      | Some v \<Rightarrow> (case json_get ''locked'' v of None \<Rightarrow> None | Some l \<Rightarrow> json_get ''rev'' l))"

definition locked_rev :: "env \<Rightarrow> box \<Rightarrow> string \<Rightarrow> string io" where
  "locked_rev E b ref =
     bnd (probe E b OPERATOR [''nix'', ''flake'', ''metadata'', ''--json'', ''--refresh'', ref] plain) (\<lambda>c.
     if returncode c \<noteq> 0
     then raise (YoError ''the box could not resolve''
                   [ref, show_int (returncode c), or_no_output (strip (stderr c))])
     else
       (case locked_of (stdout c) of
          None \<Rightarrow> raise (YoError ''nix flake metadata printed no locked commit for''
                           [ref, or_no_output (take 200 (strip (stdout c)))])
        | Some v \<Rightarrow>
            (case v of
               JStr commit \<Rightarrow>
                 if fullmatch COMMIT_RE commit then ret commit
                 else raise (YoError ''nix flake metadata locked it at, not a commit'' [ref, commit])
             | _ \<Rightarrow> raise (YoError ''nix flake metadata locked it at, not a commit'' [ref]))))"

definition helper_skew :: "env \<Rightarrow> box \<Rightarrow> message \<Rightarrow> message io" where
  "helper_skew E b what =
     bnd (built_by E b) (\<lambda>version.
     case version_drift b (env_version E) version of
       Some drift \<Rightarrow> ret (fst what @ fst drift, snd what @ snd drift)
     | None \<Rightarrow>
         bnd (rebuild_hint E b) (\<lambda>hint. ret (fst what @ ''rebuild it: '' @ fst hint, snd what @ snd hint)))"

lemma logs_built_by [footprint]: "ssh_events E b \<subseteq> A \<Longrightarrow> logs_only A (built_by E b)"
  unfolding built_by_def by (intro footprint)

lemma logs_locked_rev [footprint]: "ssh_events E b \<subseteq> A \<Longrightarrow> logs_only A (locked_rev E b ref)"
  unfolding locked_rev_def by (intro footprint) (auto split: json.splits intro: footprint)

lemma logs_rebuild_hint [footprint]:
  assumes "ssh_events E b \<subseteq> A" shows "logs_only A (rebuild_hint E b)"
proof -
  have w: "Warned m \<in> A" for m using assms ssh_events_simps(2) [of m E b] by blast
  show ?thesis
    unfolding rebuild_hint_def rebuild_hint_for_def by (intro footprint w)
qed

lemma logs_helper_skew [footprint]: "ssh_events E b \<subseteq> A \<Longrightarrow> logs_only A (helper_skew E b m)"
  unfolding helper_skew_def by (intro footprint)

subsection \<open>Which refs are accepted\<close>

lemma digits_lang [simp]: "lang digits = {s. s \<noteq> [] \<and> list_all is_digit s}"
  by (simp add: digits_def)

lemma TRIPLE_iff:
  "s \<in> lang TRIPLE \<longleftrightarrow>
   (\<exists>a b c. s = a @ ''.'' @ b @ ''.'' @ c \<and> is_ascii_number a \<and> is_ascii_number b \<and> is_ascii_number c)"
  (is "_ = ?R")
proof
  show "s \<in> lang TRIPLE \<Longrightarrow> ?R"
    unfolding TRIPLE_def is_ascii_number_def by (elim lang_CatE) fastforce
  show "?R \<Longrightarrow> s \<in> lang TRIPLE"
    unfolding TRIPLE_def is_ascii_number_def
    by (elim exE conjE, hypsubst, intro lang_CatI) simp_all
qed

lemma dot_not_digit: "list_all is_digit s \<Longrightarrow> CHR ''.'' \<notin> set s"
  by (auto simp: list_all_iff is_digit_def)

lemma triple_of_dots:
  assumes "is_ascii_number a" "is_ascii_number b" "is_ascii_number c"
  shows "triple_of (a @ ''.'' @ b @ ''.'' @ c) = Some (decimal a, decimal b, decimal c)"
proof -
  from assms have "CHR ''.'' \<notin> set a" "CHR ''.'' \<notin> set b" "CHR ''.'' \<notin> set c"
    by (auto simp: is_ascii_number_def dot_not_digit)
  then show ?thesis by (simp add: triple_of_def split_on_append_sep split_on_clean)
qed

lemma release_triple_show: "release_triple (show_triple v) = Some v"
proof (cases v)
  case (fields a b c)
  have "fullmatch VERSION_TRIPLE_RE (show_triple v)"
    unfolding fullmatch_iff VERSION_TRIPLE_RE_def TRIPLE_iff show_triple_def fields prod.case
    using is_ascii_number_show_nat by blast
  then show ?thesis
    by (simp only: release_triple_def show_triple_def fields if_True prod.case
          triple_of_dots is_ascii_number_show_nat decimal_show_nat)
qed

lemma profile_word: "s \<in> lang (Plus (Cls profile_char)) \<longleftrightarrow> s \<noteq> [] \<and> list_all profile_char s"
  by simp

lemma GIT_REF_iff: "s \<in> lang GIT_REF_RE \<longleftrightarrow> s \<noteq> [] \<and> is_alnum (hd s) \<and> list_all profile_char (tl s)"
  by (cases s) (simp_all add: GIT_REF_RE_def lang_Cat_Cls del: lang.simps(4) lang.simps(6))

lemma alnum_profile: "is_alnum c \<Longrightarrow> profile_char c"
  by (simp add: profile_char_def)

lemma GIT_REF_chars: "s \<in> lang GIT_REF_RE \<Longrightarrow> list_all profile_char s"
  by (cases s) (auto simp: GIT_REF_iff alnum_profile)

lemma GITHUB_iff:
  "s \<in> lang GITHUB_FLAKE_RE \<longleftrightarrow>
   (\<exists>u v w. s = ''github:'' @ u @ ''/'' @ v @ ''/'' @ w \<and> u \<noteq> [] \<and> list_all profile_char u
      \<and> v \<noteq> [] \<and> list_all profile_char v \<and> w \<in> lang GIT_REF_RE)"
  (is "_ = ?R")
proof
  show "s \<in> lang GITHUB_FLAKE_RE \<Longrightarrow> ?R"
    unfolding GITHUB_FLAKE_RE_def by (elim lang_CatE) (simp only: profile_word lang_Lit singleton_iff, blast)
  show "?R \<Longrightarrow> s \<in> lang GITHUB_FLAKE_RE"
    unfolding GITHUB_FLAKE_RE_def
    by (elim exE conjE, hypsubst, intro lang_CatI) simp_all
qed

lemma upstream_github:
  assumes "w \<in> lang GIT_REF_RE"
  shows "UPSTREAM_FLAKE @ ''/'' @ w \<in> lang GITHUB_FLAKE_RE"
proof -
  have "UPSTREAM_FLAKE @ ''/'' @ w = ''github:'' @ ''aka-rider'' @ ''/'' @ ''yolobox'' @ ''/'' @ w"
    by (simp add: UPSTREAM_FLAKE_def)
  moreover have "list_all profile_char ''aka-rider''" "list_all profile_char ''yolobox''"
    by (simp_all add: profile_char_def char_class_defs)
  ultimately show ?thesis
    unfolding GITHUB_iff using assms by blast
qed

lemma triple_chars: "t \<in> lang TRIPLE \<Longrightarrow> list_all profile_char t"
  by (rule rx_chars_lang [of profile_char TRIPLE])
     (auto simp: TRIPLE_def digits_def profile_char_def is_alnum_def)

lemma v_triple_ref: "t \<in> lang TRIPLE \<Longrightarrow> CHR ''v'' # t \<in> lang GIT_REF_RE"
  by (simp add: GIT_REF_iff triple_chars char_class_defs)

lemma release_version_group:
  assumes "fullmatch RELEASE_VERSION_RE v"
  shows "release_group v \<in> lang TRIPLE"
proof -
  from assms obtain p t where v: "v = p @ t" "p \<in> {[], ''v''}" "t \<in> lang TRIPLE"
    unfolding fullmatch_iff RELEASE_VERSION_RE_def lang_Cat_iff lang_Opt lang_Lit by blast
  from \<open>t \<in> lang TRIPLE\<close> obtain c s where "t = c # s" "c \<noteq> CHR ''v''"
    unfolding TRIPLE_iff is_ascii_number_def by (fastforce simp: neq_Nil_conv is_digit_def)
  with v show ?thesis by (auto simp: release_group_def)
qed

lemma named_flake_ref_github:
  assumes "named_flake_ref v = Inr ref"
  shows "fullmatch GITHUB_FLAKE_RE ref"
proof -
  consider "fullmatch RELEASE_VERSION_RE v" "ref = UPSTREAM_FLAKE @ ''/'' @ CHR ''v'' # release_group v"
    | "fullmatch GIT_REF_RE v" "ref = UPSTREAM_FLAKE @ ''/'' @ v"
    | "fullmatch GITHUB_FLAKE_RE v" "ref = v"
    using assms by (auto simp: named_flake_ref_def split: if_splits)
  then show ?thesis
  proof cases
    case 1
    then show ?thesis
      unfolding fullmatch_iff by (simp only: upstream_github v_triple_ref release_version_group fullmatch_iff)
  next
    case 2
    then show ?thesis by (simp only: fullmatch_iff upstream_github)
  next
    case 3
    then show ?thesis by simp
  qed
qed

lemma github_has_colon: "fullmatch GITHUB_FLAKE_RE ref \<Longrightarrow> CHR '':'' \<in> set ref"
  unfolding fullmatch_iff GITHUB_iff by auto

lemma profile_no_colon: "list_all profile_char s \<Longrightarrow> CHR '':'' \<notin> set s"
  by (auto simp: list_all_iff profile_char_def char_class_defs)

lemma digit_profile: "is_digit c \<Longrightarrow> profile_char c"
  by (simp add: alnum_profile is_alnum_def)

lemma version_chars:
  "rx_chars profile_char RELEASE_VERSION_RE" "rx_chars profile_char PARTIAL_VERSION_RE"
proof -
  have "rx_chars profile_char digits"
    by (simp add: digits_def digit_profile)
  moreover have "rx_chars profile_char (Lit ''.'')" "rx_chars profile_char (Lit ''v'')"
    by (simp_all add: profile_char_def char_class_defs)
  ultimately show "rx_chars profile_char RELEASE_VERSION_RE" "rx_chars profile_char PARTIAL_VERSION_RE"
    by (simp_all only: RELEASE_VERSION_RE_def PARTIAL_VERSION_RE_def TRIPLE_def rx_chars.simps rx_chars_Opt)
qed

lemma named_flake_ref_fixed:
  assumes "fullmatch GITHUB_FLAKE_RE ref"
  shows "named_flake_ref ref = Inr ref"
proof -
  have "\<not> list_all profile_char ref"
    using github_has_colon [OF assms] profile_no_colon by blast
  then have "\<not> fullmatch RELEASE_VERSION_RE ref" "\<not> fullmatch PARTIAL_VERSION_RE ref"
    "\<not> fullmatch GIT_REF_RE ref"
    using version_chars rx_chars_fullmatch GIT_REF_chars fullmatch_iff by blast+
  moreover from github_has_colon [OF assms] have "ref \<noteq> ''latest''" by auto
  ultimately show ?thesis using assms by (simp add: named_flake_ref_def)
qed

lemma flake_ref_Some:
  "flake_ref E b (Some v) = Inr ref \<longleftrightarrow> named_flake_ref v = Inr ref \<and> old_release ref = None"
  by (auto simp: flake_ref_def split: sum.splits option.splits)

lemma named_flake_ref_error: "named_flake_ref v = Inl e \<Longrightarrow> is_yo_error e"
  by (auto simp: named_flake_ref_def split: if_splits)

text \<open>What the parser's \<open>--version\<close> gives: no machine is chosen yet.\<close>

lemma bootstrap_version_unset:
  "bootstrap_version E None v =
     (case named_flake_ref v of
        Inl e \<Rightarrow> Inl (ArgumentTypeError (fst (message_of e)) (snd (message_of e)))
      | Inr ref \<Rightarrow> if old_release ref = None then Inr ref else Inl UnsetBox)"
proof -
  have "\<not> is_yo_error UnsetBox" by (simp add: UnsetBox_def is_yo_error_def)
  then show ?thesis
    by (auto simp: bootstrap_version_def flake_ref_def naming_box_def named_flake_ref_error split: sum.split option.split)
qed

lemma version_191_crashes: "bootstrap_version E None ''1.9.1'' = Inl UnsetBox"
proof -
  have "named_flake_ref ''1.9.1'' = Inr (UPSTREAM_FLAKE @ ''/v1.9.1'')" "old_release (UPSTREAM_FLAKE @ ''/v1.9.1'') \<noteq> None"
    by code_simp+
  then show ?thesis unfolding bootstrap_version_unset by simp
qed

lemma flake_ref_fixed:
  "flake_ref E b (Some v) = Inr ref \<Longrightarrow> flake_ref E b (Some ref) = Inr ref"
  using named_flake_ref_github named_flake_ref_fixed by (auto simp: flake_ref_Some)

lemma github_chars:
  assumes "fullmatch GITHUB_FLAKE_RE ref"
  shows "list_all (\<lambda>c. profile_char c \<or> c = CHR '':'' \<or> c = CHR ''/'') ref"
  using assms
  by (rule rx_chars_fullmatch [rotated])
     (auto simp: GITHUB_FLAKE_RE_def GIT_REF_RE_def profile_char_def char_class_defs)

text \<open>No character of an accepted ref is one a shell or nix would interpret.\<close>

lemma github_shell_safe:
  assumes "fullmatch GITHUB_FLAKE_RE ref"
  shows "shlex_quote ref = ref" and "CHR ''#'' \<notin> set ref"
proof -
  have safe: "shell_safe c" if "profile_char c \<or> c = CHR '':'' \<or> c = CHR ''/''" for c
    using that unfolding profile_char_def by (elim disjE) (simp_all add: shell_safe_def is_alnum_def)
  have "list_all shell_safe ref"
    using github_chars [OF assms] safe unfolding list_all_iff by blast
  moreover have "ref \<noteq> []" using github_has_colon [OF assms] by auto
  ultimately show "shlex_quote ref = ref" by (simp add: shlex_quote_def)
  have "\<not> profile_char CHR ''#''" by (simp add: profile_char_def char_class_defs)
  then show "CHR ''#'' \<notin> set ref"
    using github_chars [OF assms] unfolding list_all_iff by blast
qed

subsection \<open>The commit a rebuild names\<close>

lemma dropWhile_clean_append:
  "CHR ''/'' \<notin> set w \<Longrightarrow> dropWhile (\<lambda>c. c \<noteq> CHR ''/'') (rev w @ CHR ''/'' # r) = CHR ''/'' # r"
  by (subst dropWhile_append2) auto

lemma before_last_slash_app: "CHR ''/'' \<notin> set w \<Longrightarrow> before_last_slash (p @ ''/'' @ w) = p"
  by (simp add: before_last_slash_def dropWhile_clean_append)

lemma profile_no_slash: "list_all profile_char s \<Longrightarrow> CHR ''/'' \<notin> set s"
  by (auto simp: list_all_iff profile_char_def char_class_defs)

lemma commit_git_ref: "fullmatch COMMIT_RE commit \<Longrightarrow> commit \<in> lang GIT_REF_RE"
  by (cases commit)
     (auto simp: fullmatch_iff COMMIT_RE_def GIT_REF_iff list_all_iff profile_char_def is_alnum_def
        hex_digit_def is_lower_def simp del: Times.simps)

lemma pinned_ref_github:
  assumes "fullmatch GITHUB_FLAKE_RE ref" and "fullmatch COMMIT_RE commit"
  obtains u v where "pinned_ref ref commit = ''github:'' @ u @ ''/'' @ v @ ''/'' @ commit"
    and "\<exists>w. ref = ''github:'' @ u @ ''/'' @ v @ ''/'' @ w"
    and "fullmatch GITHUB_FLAKE_RE (pinned_ref ref commit)"
proof -
  from assms(1) obtain u v w where r: "ref = ''github:'' @ u @ ''/'' @ v @ ''/'' @ w"
    and uv: "u \<noteq> []" "list_all profile_char u" "v \<noteq> []" "list_all profile_char v" "w \<in> lang GIT_REF_RE"
    unfolding fullmatch_iff GITHUB_iff by blast
  from uv(5) have "CHR ''/'' \<notin> set w" by (intro profile_no_slash GIT_REF_chars)
  then have p: "pinned_ref ref commit = ''github:'' @ u @ ''/'' @ v @ ''/'' @ commit"
    unfolding pinned_ref_def r using before_last_slash_app [of w "''github:'' @ u @ ''/'' @ v"] by simp
  moreover have "fullmatch GITHUB_FLAKE_RE (pinned_ref ref commit)"
    unfolding p fullmatch_iff GITHUB_iff using uv commit_git_ref [OF assms(2)] by blast
  ultimately show thesis using that r by blast
qed

lemma locked_rev_commit: "locked_rev E b ref h = (Inr commit, t) \<Longrightarrow> fullmatch COMMIT_RE commit"
  by (auto simp: locked_rev_def ret_def raise_def elim!: bnd_InrE
        split: if_splits option.splits json.splits)

subsection \<open>Old releases\<close>

lemma lang_Lit_nocase: "s \<in> lang (Lit_nocase p) \<longleftrightarrow> lower s = lower p"
proof (induction p arbitrary: s)
  case Nil
  then show ?case by (simp add: lower_def)
next
  case (Cons c p)
  then show ?case
    by (cases s) (simp_all add: lang_Cat_Cls lower_def del: lang.simps(4))
qed

lemma old_release_iff:
  "old_release ref \<noteq> None \<longleftrightarrow>
   (\<exists>p a b c. ref = p @ a @ ''.'' @ b @ ''.'' @ c \<and> lower p = UPSTREAM_FLAKE @ ''/v''
      \<and> is_ascii_number a \<and> is_ascii_number b \<and> is_ascii_number c
      \<and> (decimal a, decimal b, decimal c) < (1, 9, 2))"
  (is "_ \<longleftrightarrow> (\<exists>p a b c. ?R p a b c)")
proof -
  have low: "lower (UPSTREAM_FLAKE @ ''/v'') = UPSTREAM_FLAKE @ ''/v''"
    by (simp add: lower_def UPSTREAM_FLAKE_def to_lower_def is_upper_def)
  have drop_p: "drop (length UPSTREAM_FLAKE + 2) (p @ t) = t" if "lower p = UPSTREAM_FLAKE @ ''/v''" for p t
  proof -
    from that have "length (lower p) = length UPSTREAM_FLAKE + 2" by simp
    then show ?thesis by simp
  qed
  show ?thesis
  proof
    assume L: "old_release ref \<noteq> None"
    then have "ref \<in> lang UPSTREAM_RELEASE_RE"
      by (auto simp: old_release_def fullmatch_iff split: if_splits)
    then obtain p t where p: "ref = p @ t" "lower p = UPSTREAM_FLAKE @ ''/v''" "t \<in> lang TRIPLE"
      unfolding UPSTREAM_RELEASE_RE_def lang_Cat_iff lang_Lit_nocase low by blast
    then obtain a b c where t: "t = a @ ''.'' @ b @ ''.'' @ c"
      and n: "is_ascii_number a" "is_ascii_number b" "is_ascii_number c"
      unfolding TRIPLE_iff by blast
    from L have "(decimal a, decimal b, decimal c) < (1, 9, 2)"
      unfolding old_release_def p(1) drop_p [OF p(2)] t triple_of_dots [OF n]
      by (auto simp: FIRST_HOST_OS_FREE_RELEASE_def not_le split: if_splits)
    with p t n show "\<exists>p a b c. ?R p a b c" by blast
  next
    assume "\<exists>p a b c. ?R p a b c"
    then obtain p a b c where R: "?R p a b c" by blast
    then have "ref \<in> lang UPSTREAM_RELEASE_RE"
      unfolding UPSTREAM_RELEASE_RE_def lang_Cat_iff lang_Lit_nocase low TRIPLE_iff by blast
    moreover from R have "triple_of (drop (length UPSTREAM_FLAKE + 2) ref) = Some (decimal a, decimal b, decimal c)"
    proof -
      from R have r: "ref = p @ (a @ ''.'' @ b @ ''.'' @ c)" and p: "lower p = UPSTREAM_FLAKE @ ''/v''"
        and n: "is_ascii_number a" "is_ascii_number b" "is_ascii_number c" by blast+
      show ?thesis unfolding r drop_p [OF p] by (rule triple_of_dots [OF n])
    qed
    ultimately show "old_release ref \<noteq> None"
      using R by (auto simp: old_release_def fullmatch_iff FIRST_HOST_OS_FREE_RELEASE_def)
  qed
qed

subsection \<open>Drift\<close>

lemma version_drift_newer:
  assumes "release_triple host = Some h" and "release_triple guest = Some g" and "h < g"
  shows "version_drift b host (Some guest) =
    Some (''the box was built by a newer release: upgrade yo'', [guest, host, yo_cmd b [''bootstrap''], host])"
proof -
  have "release_triple ''dev'' = None"
    by (simp add: release_triple_def VERSION_TRIPLE_RE_def TRIPLE_def digits_def Plus_def is_digit_def)
  with assms(1) have "host \<noteq> ''dev''" by auto
  moreover from assms have "host \<noteq> guest" by auto
  ultimately show ?thesis using assms by (simp add: version_drift_def)
qed

subsection \<open>Properties\<close>

text \<open>
  Whatever is accepted as a version names a GitHub flake: no character of it needs quoting
  in a shell or starts a flake attribute, and accepting it again gives the same ref.
\<close>

lemma accepted_version_is_a_github_flake:
  assumes "flake_ref E b (Some v) = Inr ref"
  shows "fullmatch GITHUB_FLAKE_RE ref \<and> shlex_quote ref = ref \<and> CHR ''#'' \<notin> set ref
    \<and> flake_ref E b (Some ref) = Inr ref"
proof -
  from assms have "fullmatch GITHUB_FLAKE_RE ref"
    using flake_ref_Some named_flake_ref_github by blast
  then show ?thesis using assms github_shell_safe flake_ref_fixed by blast
qed

theorem accepted_version_is_a_github_flake_witness:
  "fullmatch GITHUB_FLAKE_RE (UPSTREAM_FLAKE @ ''/v1.10.0'')"
proof -
  have "flake_ref sample_env (Some sample_box) (Some ''1.10.0'') = Inr (UPSTREAM_FLAKE @ ''/v1.10.0'')"
    by code_simp
  from accepted_version_is_a_github_flake [OF this] show ?thesis by blast
qed

text \<open>
  C30: a bad \<open>--version\<close> is a usage error, except for one kind: an upstream release below 1.9.2,
  however the letters of its ref are cased, makes the argument parser name a machine that is not
  chosen yet, which ends yo with a \<open>NameError\<close> instead of the refusal it builds.
\<close>

theorem old_version_crashes_the_parser:
  "(bootstrap_version E None v = Inl UnsetBox) =
   (\<exists>p x y z. named_flake_ref v = Inr (p @ x @ ''.'' @ y @ ''.'' @ z) \<and> lower p = UPSTREAM_FLAKE @ ''/v''
      \<and> is_ascii_number x \<and> is_ascii_number y \<and> is_ascii_number z
      \<and> (decimal x, decimal y, decimal z) < (1, 9, 2))
   \<and> (case bootstrap_version E None v of
        Inl e \<Rightarrow> e = UnsetBox \<or> exn_class e = Argument_Type
      | Inr ref \<Rightarrow> named_flake_ref v = Inr ref \<and> old_release ref = None)"
proof -
  have "bootstrap_version E None v = Inl UnsetBox \<longleftrightarrow> (\<exists>ref. named_flake_ref v = Inr ref \<and> old_release ref \<noteq> None)"
    by (auto simp: bootstrap_version_unset ArgumentTypeError_def UnsetBox_def split: sum.splits)
  moreover have "case bootstrap_version E None v of
      Inl e \<Rightarrow> e = UnsetBox \<or> exn_class e = Argument_Type
    | Inr ref \<Rightarrow> named_flake_ref v = Inr ref \<and> old_release ref = None"
    by (simp add: bootstrap_version_unset ArgumentTypeError_def split: sum.split)
  ultimately show ?thesis unfolding old_release_iff by blast
qed

text \<open>
  C37: the ref that is built is the resolved commit of the very repository that was accepted,
  and is an accepted form itself.
\<close>

theorem pinned_build_stays_in_repository:
  assumes "flake_ref E bo (Some v) = Inr ref" and "locked_rev E b ref h = (Inr commit, t)"
  shows "\<exists>u w x. ref = ''github:'' @ u @ ''/'' @ w @ ''/'' @ x
    \<and> pinned_ref ref commit = ''github:'' @ u @ ''/'' @ w @ ''/'' @ commit
    \<and> fullmatch GITHUB_FLAKE_RE (pinned_ref ref commit)"
proof -
  from assms have "fullmatch GITHUB_FLAKE_RE ref" "fullmatch COMMIT_RE commit"
    using flake_ref_Some named_flake_ref_github locked_rev_commit by blast+
  then show ?thesis by (rule pinned_ref_github) blast
qed

definition metadata_env :: env where
  "metadata_env = sample_env\<lparr>proc_ans := (\<lambda>h argv i.
     Finished 0 (''{'' @ [CHR 0x22] @ ''locked'' @ [CHR 0x22] @ '':{'' @ [CHR 0x22] @ ''rev'' @ [CHR 0x22] @ '':'' @
       [CHR 0x22] @ replicate 40 CHR ''a'' @ [CHR 0x22] @ ''}}'') [])\<rparr>"

theorem pinned_build_stays_in_repository_witness:
  "\<exists>commit t. locked_rev metadata_env sample_box (UPSTREAM_FLAKE @ ''/main'') [] = (Inr commit, t)
    \<and> fullmatch GITHUB_FLAKE_RE (pinned_ref (UPSTREAM_FLAKE @ ''/main'') commit)"
proof -
  have ref: "flake_ref sample_env (Some sample_box) (Some ''main'') = Inr (UPSTREAM_FLAKE @ ''/main'')"
    and flake: "flake_ref metadata_env (Some sample_box) (Some ''main'') = Inr (UPSTREAM_FLAKE @ ''/main'')"
    by code_simp+
  have "fst (locked_rev metadata_env sample_box (UPSTREAM_FLAKE @ ''/main'') []) = Inr (replicate 40 CHR ''a'')"
    by code_simp
  then obtain t where "locked_rev metadata_env sample_box (UPSTREAM_FLAKE @ ''/main'') [] = (Inr (replicate 40 CHR ''a''), t)"
    by (metis prod.collapse)
  with pinned_build_stays_in_repository [OF flake this] show ?thesis by blast
qed

end
