(* ===== verification/Yo_Sha256.thy ===== *)
theory Yo_Sha256
  imports Yo_Text "HOL-Library.Word"
begin

unbundle bit_operations_syntax

text \<open>
  Python's \<open>hashlib.sha256\<close> and \<open>hmac.new(key, msg, sha256).hexdigest()\<close>, on byte strings:
  the program derives the disk's passphrase with them (\<open>yolobox_cli/agent.py\<close>). Words are
  32 bits wide and addition wraps, as FIPS 180-4 has it.
\<close>

type_synonym w32 = "32 word"

definition byte_word :: "char \<Rightarrow> w32" where "byte_word c = of_nat (of_char c)"

definition word_bytes :: "w32 \<Rightarrow> string" where
  "word_bytes w =
     map (\<lambda>k. char_of (unat (drop_bit k w AND 255))) [24, 16, 8, 0]"

definition rotr :: "nat \<Rightarrow> w32 \<Rightarrow> w32" where
  "rotr n w = drop_bit n w OR push_bit (32 - n) w"

definition big_sigma0 :: "w32 \<Rightarrow> w32" where
  "big_sigma0 x = rotr 2 x XOR rotr 13 x XOR rotr 22 x"
definition big_sigma1 :: "w32 \<Rightarrow> w32" where
  "big_sigma1 x = rotr 6 x XOR rotr 11 x XOR rotr 25 x"
definition small_sigma0 :: "w32 \<Rightarrow> w32" where
  "small_sigma0 x = rotr 7 x XOR rotr 18 x XOR drop_bit 3 x"
definition small_sigma1 :: "w32 \<Rightarrow> w32" where
  "small_sigma1 x = rotr 17 x XOR rotr 19 x XOR drop_bit 10 x"
definition sha_choose :: "w32 \<Rightarrow> w32 \<Rightarrow> w32 \<Rightarrow> w32" where
  "sha_choose x y z = (x AND y) XOR ((NOT x) AND z)"
definition sha_majority :: "w32 \<Rightarrow> w32 \<Rightarrow> w32 \<Rightarrow> w32" where
  "sha_majority x y z = (x AND y) XOR (x AND z) XOR (y AND z)"

text \<open>The constants of the standard, in decimal.\<close>

definition round_constants :: "w32 list" where
  "round_constants =
    [1116352408, 1899447441, 3049323471, 3921009573,
     961987163, 1508970993, 2453635748, 2870763221,
     3624381080, 310598401, 607225278, 1426881987,
     1925078388, 2162078206, 2614888103, 3248222580,
     3835390401, 4022224774, 264347078, 604807628,
     770255983, 1249150122, 1555081692, 1996064986,
     2554220882, 2821834349, 2952996808, 3210313671,
     3336571891, 3584528711, 113926993, 338241895,
     666307205, 773529912, 1294757372, 1396182291,
     1695183700, 1986661051, 2177026350, 2456956037,
     2730485921, 2820302411, 3259730800, 3345764771,
     3516065817, 3600352804, 4094571909, 275423344,
     430227734, 506948616, 659060556, 883997877,
     958139571, 1322822218, 1537002063, 1747873779,
     1955562222, 2024104815, 2227730452, 2361852424,
     2428436474, 2756734187, 3204031479, 3329325298]"

definition initial_hash :: "w32 list" where
  "initial_hash =
    [1779033703, 3144134277, 1013904242, 2773480762,
     1359893119, 2600822924, 528734635, 1541459225]"

text \<open>The message schedule: 16 words of the block, extended to 64.\<close>

fun extend_schedule :: "nat \<Rightarrow> w32 list \<Rightarrow> w32 list" where
  "extend_schedule 0 w = w"
| "extend_schedule (Suc k) w =
     (let n = length w
      in extend_schedule k
           (w @ [small_sigma1 (w ! (n - 2)) + w ! (n - 7) + small_sigma0 (w ! (n - 15)) + w ! (n - 16)]))"

definition sha_round :: "w32 \<times> w32 \<Rightarrow> w32 list \<Rightarrow> w32 list" where
  "sha_round kw v =
     (case v of
        [a, b, c, d, e, f, g, h] \<Rightarrow>
          (let t1 = h + big_sigma1 e + sha_choose e f g + fst kw + snd kw;
               t2 = big_sigma0 a + sha_majority a b c
           in [t1 + t2, a, b, c, d + t1, e, f, g])
      | _ \<Rightarrow> v)"

definition sha_compress :: "w32 list \<Rightarrow> w32 list \<Rightarrow> w32 list" where
  "sha_compress block hash =
     map2 (+) hash (fold sha_round (zip round_constants (extend_schedule 48 block)) hash)"

fun words_of :: "string \<Rightarrow> w32 list" where
  "words_of (a # b # c # d # s) =
     (push_bit 24 (byte_word a) OR push_bit 16 (byte_word b) OR push_bit 8 (byte_word c) OR byte_word d)
     # words_of s"
| "words_of _ = []"

fun blocks_of :: "nat \<Rightarrow> w32 list \<Rightarrow> w32 list list" where
  "blocks_of 0 ws = []"
| "blocks_of (Suc n) ws = take 16 ws # blocks_of n (drop 16 ws)"

definition sha_pad :: "string \<Rightarrow> string" where
  "sha_pad m =
     (let bits = 8 * length m; zeros = (119 - length m mod 64) mod 64
      in m @ [CHR 0x80] @ replicate zeros CHR 0x00
         @ map (\<lambda>k. char_of (bits div 256 ^ k mod 256)) [7, 6, 5, 4, 3, 2, 1, 0])"

definition sha256 :: "string \<Rightarrow> string" where
  "sha256 m =
     (let ws = words_of (sha_pad m)
      in concat (map word_bytes (fold sha_compress (blocks_of (length ws div 16) ws) initial_hash)))"

definition xor_byte :: "nat \<Rightarrow> char \<Rightarrow> char" where
  "xor_byte n c = char_of (n XOR (of_char c :: nat))"

definition hmac_sha256 :: "string \<Rightarrow> string \<Rightarrow> string" where
  "hmac_sha256 key msg =
     (let k0 = (if length key > 64 then sha256 key else key);
          k = k0 @ replicate (64 - length k0) CHR 0x00
      in sha256 (map (xor_byte 92) k @ sha256 (map (xor_byte 54) k @ msg)))"

definition hex_char :: "nat \<Rightarrow> char" where
  "hex_char n = (if n < 10 then char_of (n + 48) else char_of (n + 87))"

definition hexdigest :: "string \<Rightarrow> string" where
  "hexdigest s = concat (map (\<lambda>c. [hex_char (of_char c div 16), hex_char (of_char c mod 16)]) s)"

subsection \<open>Shape\<close>

lemma length_word_bytes [simp]: "length (word_bytes w) = 4"
  by (simp add: word_bytes_def)

lemma length_sha_round: "length v = 8 \<Longrightarrow> length (sha_round kw v) = 8"
  by (auto simp: sha_round_def Let_def split: list.splits)

lemma length_fold_rounds: "length v = 8 \<Longrightarrow> length (fold sha_round kws v) = 8"
  by (induction kws arbitrary: v) (simp_all add: length_sha_round)

lemma length_compress: "length h = 8 \<Longrightarrow> length (sha_compress block h) = 8"
  by (simp add: sha_compress_def length_fold_rounds)

lemma length_fold_compress: "length h = 8 \<Longrightarrow> length (fold sha_compress bs h) = 8"
  by (induction bs arbitrary: h) (simp_all add: length_compress)

lemma length_concat_bytes: "length (concat (map word_bytes ws)) = 4 * length ws"
  by (induction ws) simp_all

lemma length_sha256 [simp]: "length (sha256 m) = 32"
  by (simp add: sha256_def Let_def length_concat_bytes length_fold_compress initial_hash_def)

lemma length_hexdigest [simp]: "length (hexdigest s) = 2 * length s"
  by (induction s) (simp_all add: hexdigest_def)

lemma hexdigest_chars: "c \<in> set (hexdigest s) \<Longrightarrow> is_digit c \<or> 97 \<le> (of_char c :: nat) \<and> (of_char c :: nat) \<le> 102"
proof -
  have hex: "is_digit (hex_char n) \<or> 97 \<le> (of_char (hex_char n) :: nat) \<and> (of_char (hex_char n) :: nat) \<le> 102"
    if "n < 16" for n
    using that by (auto simp: hex_char_def is_digit_def)
  have byte: "(of_char d :: nat) < 256" for d by simp
  have "(of_char d :: nat) div 16 < 16" "(of_char d :: nat) mod 16 < 16" for d
    using byte [of d] by (simp_all add: less_mult_imp_div_less)
  note small = this [THEN hex]
  assume "c \<in> set (hexdigest s)"
  then obtain d where "c = hex_char (of_char d div 16) \<or> c = hex_char (of_char d mod 16)"
    by (auto simp: hexdigest_def)
  with small [of d] show ?thesis by metis
qed

end
