(* ===== verification/Yo_Agent.thy ===== *)
theory Yo_Agent
  imports Yo_Sample Yo_Sha256
begin

text \<open>
  \<open>yolobox_cli/agent.py\<close>: the ssh-agent protocol and the passphrase of the disk. The locale
  \<open>framing\<close> is the contract of a length-prefixed encoding: what was written at a position is
  read back from it. It holds for \<open>ssh_string\<close> and for the identity pairs, and gives the
  round trips of the messages. The lemmas also show that a reply is read the same however
  the socket cuts it into chunks, and which key can unlock a disk.
\<close>

definition LUKS_SIGN_DATA :: string where "LUKS_SIGN_DATA = ''yolobox luks v1''"
definition LUKS_KDF_INFO :: string where "LUKS_KDF_INFO = ''yolobox luks passphrase v1''"
definition SSH_AGENT_FAILURE :: nat where "SSH_AGENT_FAILURE = 5"
definition AGENT_REPLY_TIMEOUT :: nat where "AGENT_REPLY_TIMEOUT = 300"
definition AGENT_MAX_REPLY_BYTES :: nat where "AGENT_MAX_REPLY_BYTES = 2 ^ 20"
definition ED25519_SIGNATURE_LENGTH :: nat where "ED25519_SIGNATURE_LENGTH = 64"
definition SSH_AGENT_REQUEST_IDENTITIES :: nat where "SSH_AGENT_REQUEST_IDENTITIES = 11"
definition SSH_AGENT_IDENTITIES_ANSWER :: nat where "SSH_AGENT_IDENTITIES_ANSWER = 12"
definition SSH_AGENT_SIGN_REQUEST :: nat where "SSH_AGENT_SIGN_REQUEST = 13"
definition SSH_AGENT_SIGN_RESPONSE :: nat where "SSH_AGENT_SIGN_RESPONSE = 14"

lemmas agent_messages = SSH_AGENT_FAILURE_def SSH_AGENT_REQUEST_IDENTITIES_def
  SSH_AGENT_IDENTITIES_ANSWER_def SSH_AGENT_SIGN_REQUEST_def SSH_AGENT_SIGN_RESPONSE_def

subsection \<open>The wire format\<close>

text \<open>\<open>struct.pack(">I", n)\<close>, which raises when \<open>n\<close> does not fit, and \<open>struct.unpack\<close> of four bytes.\<close>

definition u32_bytes :: "nat \<Rightarrow> string" where
  "u32_bytes n = map (\<lambda>k. char_of (n div 256 ^ k mod 256)) [3, 2, 1, 0]"

definition pack_u32 :: "nat \<Rightarrow> exn + string" where
  "pack_u32 n =
     (if n < 2 ^ 32 then Inr (u32_bytes n)
      else Inl (Exn Value_Error (Some (''struct.error'', [show_nat n])) 1))"

definition unpack_u32 :: "string \<Rightarrow> nat" where
  "unpack_u32 s = foldl (\<lambda>n c. 256 * n + (of_char c :: nat)) 0 s"

definition truncated :: exn where "truncated = YoError ''the ssh agent sent a truncated message'' []"

definition ssh_string :: "string \<Rightarrow> exn + string" where
  "ssh_string data = (case pack_u32 (length data) of Inl e \<Rightarrow> Inl e | Inr p \<Rightarrow> Inr (p @ data))"

text \<open>\<open>buf[a:b]\<close>\<close>

definition slice :: "string \<Rightarrow> nat \<Rightarrow> nat \<Rightarrow> string" where
  "slice buf a b = take (b - a) (drop a buf)"

definition read_ssh_string :: "string \<Rightarrow> nat \<Rightarrow> exn + string \<times> nat" where
  "read_ssh_string buf pos =
     (if pos + 4 > length buf then Inl truncated
      else
        (let len = unpack_u32 (slice buf pos (pos + 4)); fin = pos + 4 + len
         in if fin > length buf then Inl truncated else Inr (slice buf (pos + 4) fin, fin)))"

text \<open>
  \<open>bytes.decode("utf-8", "replace")\<close>, as far as a comparison with an ASCII text goes: an
  ASCII byte is itself, any other byte is part of a code point above 127, for which
  \<open>0xFF\<close> stands here.
\<close>

definition decode_replace :: "string \<Rightarrow> string" where
  "decode_replace s = map (\<lambda>c. if (of_char c :: nat) < 128 then c else CHR 0xFF) s"

definition read_identity :: "string \<Rightarrow> nat \<Rightarrow> exn + (string \<times> string) \<times> nat" where
  "read_identity body pos =
     (case read_ssh_string body pos of
        Inl e \<Rightarrow> Inl e
      | Inr (blob, pos') \<Rightarrow>
          (case read_ssh_string body pos' of
             Inl e \<Rightarrow> Inl e
           | Inr (comment, pos'') \<Rightarrow> Inr ((blob, decode_replace comment), pos'')))"

text \<open>\<open>for _ in range(count)\<close>: reads one item after another, each from where the last ended.\<close>

fun read_many :: "(string \<Rightarrow> nat \<Rightarrow> exn + 'a \<times> nat) \<Rightarrow> nat \<Rightarrow> string \<Rightarrow> nat \<Rightarrow> exn + 'a list \<times> nat" where
  "read_many get 0 buf pos = Inr ([], pos)"
| "read_many get (Suc n) buf pos =
     (case get buf pos of
        Inl e \<Rightarrow> Inl e
      | Inr (x, pos') \<Rightarrow>
          (case read_many get n buf pos' of
             Inl e \<Rightarrow> Inl e
           | Inr (xs, pos'') \<Rightarrow> Inr (x # xs, pos'')))"

definition parse_agent_identities :: "string \<Rightarrow> exn + (string \<times> string) list" where
  "parse_agent_identities body =
     (if length body < 4 then Inl truncated
      else (case read_many read_identity (unpack_u32 (slice body 0 4)) body 4 of
              Inl e \<Rightarrow> Inl e
            | Inr (xs, _) \<Rightarrow> Inr xs))"

definition parse_agent_signature :: "string \<Rightarrow> exn + string" where
  "parse_agent_signature body =
     (case read_ssh_string body 0 of
        Inl e \<Rightarrow> Inl e
      | Inr (signature, _) \<Rightarrow>
          (case read_ssh_string signature 0 of
             Inl e \<Rightarrow> Inl e
           | Inr (algorithm, pos) \<Rightarrow>
               (case read_ssh_string signature pos of
                  Inl e \<Rightarrow> Inl e
                | Inr (raw, _) \<Rightarrow>
                    if algorithm \<noteq> ''ssh-ed25519''
                    then Inl (YoError ''the key signed with another algorithm; it must be an Ed25519 key''
                                [LUKS_KEY_ITEM, decode_replace algorithm])
                    else if length raw \<noteq> ED25519_SIGNATURE_LENGTH
                    then Inl (YoError ''the ssh agent returned an Ed25519 signature of another length''
                                [show_nat (length raw), show_nat ED25519_SIGNATURE_LENGTH])
                    else Inr raw)))"

definition key_type :: "string \<Rightarrow> exn + string" where
  "key_type blob =
     (case read_ssh_string blob 0 of Inl e \<Rightarrow> Inl e | Inr (kind, _) \<Rightarrow> Inr (decode_replace kind))"

definition derive_luks_passphrase :: "string \<Rightarrow> string" where
  "derive_luks_passphrase raw_signature = hexdigest (hmac_sha256 raw_signature LUKS_KDF_INFO)"

subsection \<open>The key of the disk\<close>

definition unique_key_titled :: "(string \<times> string) list \<Rightarrow> string \<Rightarrow> exn + string" where
  "unique_key_titled identities title =
     (case map fst (filter (\<lambda>i. snd i = title) identities) of
        [] \<Rightarrow> Inl (YoError ''the ssh agent has no key titled'' [title])
      | [blob] \<Rightarrow> Inr blob
      | blobs \<Rightarrow> Inl (YoError ''the ssh agent offers several keys titled'' [show_nat (length blobs), title]))"

definition pick_luks_key :: "(string \<times> string) list \<Rightarrow> exn + string" where
  "pick_luks_key identities =
     (case unique_key_titled identities LUKS_KEY_ITEM of
        Inl e \<Rightarrow> Inl e
      | Inr blob \<Rightarrow>
          (case key_type blob of
             Inl e \<Rightarrow> Inl e
           | Inr kind \<Rightarrow>
               if kind \<noteq> ''ssh-ed25519''
               then Inl (YoError ''the item in 1Password must be an Ed25519 key'' [LUKS_KEY_ITEM, kind])
               else Inr blob))"

subsection \<open>The socket\<close>

text \<open>
  A stream is the chunks still to come and how it ends. \<open>recv(count)\<close> gives at most
  \<open>count\<close> bytes of the next chunk; the rest of the chunk stays for the next call.
\<close>

type_synonym stream = "string list \<times> stream_end"

datatype recv_failure = Closed_Mid_Message | Connection_Reset | Reply_Timeout | Implausible_Length nat

definition recv :: "stream \<Rightarrow> nat \<Rightarrow> recv_failure + string \<times> stream" where
  "recv s count =
     (case fst s of
        [] \<Rightarrow> (case snd s of
                 Closes \<Rightarrow> Inr ([], s)
               | Resets \<Rightarrow> Inl Connection_Reset
               | Stalls \<Rightarrow> Inl Reply_Timeout)
      | c # cs \<Rightarrow>
          if length c \<le> count then Inr (c, (cs, snd s))
          else Inr (take count c, (drop count c # cs, snd s)))"

text \<open>\<open>recv_exact\<close>: the loop ends, since \<open>count\<close> falls with each chunk that is not empty.\<close>

function recv_exact :: "stream \<Rightarrow> nat \<Rightarrow> recv_failure + string \<times> stream" where
  "recv_exact s count =
     (if count = 0 then Inr ([], s)
      else (case recv s count of
              Inl e \<Rightarrow> Inl e
            | Inr (chunk, s') \<Rightarrow>
                if chunk = [] then Inl Closed_Mid_Message
                else (case recv_exact s' (count - length chunk) of
                        Inl e \<Rightarrow> Inl e
                      | Inr (tail, s'') \<Rightarrow> Inr (chunk @ tail, s''))))"
  by pat_completeness auto
termination
  by (relation "measure snd") auto

declare recv_exact.simps [simp del]

definition read_agent_reply :: "stream \<Rightarrow> recv_failure + string" where
  "read_agent_reply s =
     (case recv_exact s 4 of
        Inl e \<Rightarrow> Inl e
      | Inr (header, s') \<Rightarrow>
          (let len = unpack_u32 header in
           if len = 0 \<or> len > AGENT_MAX_REPLY_BYTES then Inl (Implausible_Length len)
           else (case recv_exact s' len of Inl e \<Rightarrow> Inl e | Inr (body, _) \<Rightarrow> Inr body)))"

definition AgentHungUp :: "string \<Rightarrow> exn" where
  "AgentHungUp sock = Exn Agent_Hung_Up (Some (''1Password's SSH agent hung up before it answered'', [sock])) 1"

definition reply_failure :: "string \<Rightarrow> recv_failure \<Rightarrow> exn" where
  "reply_failure sock f =
     (case f of
        Closed_Mid_Message \<Rightarrow> AgentHungUp sock
      | Connection_Reset \<Rightarrow> AgentHungUp sock
      | Reply_Timeout \<Rightarrow> YoError ''1Password's SSH agent did not answer: approve its prompt''
                           [sock, show_nat AGENT_REPLY_TIMEOUT]
      | Implausible_Length n \<Rightarrow> YoError ''1Password's SSH agent is not answering: implausible reply length''
                                  [sock, show_nat n])"

definition ssh_agent_call :: "env \<Rightarrow> string \<Rightarrow> string \<Rightarrow> string io" where
  "ssh_agent_call E sock payload =
     bnd (lift (ssh_string payload)) (\<lambda>request.
     bnd (reads (\<lambda>h. agent_ans E h sock request)) (\<lambda>ans.
     sq (emit (Called_Agent sock request))
     (case ans of
        Not_Answering \<Rightarrow> raise (YoError ''1Password's SSH agent is not answering'' [sock])
      | Connected chunks fin \<Rightarrow>
          (case read_agent_reply (chunks, fin) of
             Inl f \<Rightarrow> raise (reply_failure sock f)
           | Inr body \<Rightarrow> ret body))))"

text \<open>A reply is never empty, so \<open>reply[0]\<close> is its first byte.\<close>

definition message_type :: "string \<Rightarrow> nat" where
  "message_type reply = (case reply of [] \<Rightarrow> 0 | c # _ \<Rightarrow> of_char c)"

definition ssh_agent_identities :: "env \<Rightarrow> string \<Rightarrow> (string \<times> string) list io" where
  "ssh_agent_identities E sock =
     bnd (ssh_agent_call E sock [char_of SSH_AGENT_REQUEST_IDENTITIES]) (\<lambda>reply.
     if message_type reply \<noteq> SSH_AGENT_IDENTITIES_ANSWER
     then raise (YoError ''the ssh agent answered another message type to a key listing''
                   [show_nat (message_type reply)])
     else lift (parse_agent_identities (tl reply)))"

definition REAPPROVE_HINT :: string where
  "REAPPROVE_HINT = ''approve the prompt in 1Password and run the same yo command again''"

definition sign_request :: "string \<Rightarrow> string \<Rightarrow> exn + string" where
  "sign_request blob data =
     (case ssh_string blob of
        Inl e \<Rightarrow> Inl e
      | Inr k \<Rightarrow>
          (case ssh_string data of
             Inl e \<Rightarrow> Inl e
           | Inr d \<Rightarrow> Inr ([char_of SSH_AGENT_SIGN_REQUEST] @ k @ d @ replicate 4 CHR 0x00)))"

definition ssh_agent_sign :: "env \<Rightarrow> string \<Rightarrow> string \<Rightarrow> string \<Rightarrow> string io" where
  "ssh_agent_sign E sock blob data =
     bnd (lift (sign_request blob data)) (\<lambda>payload.
     bnd (catch (ssh_agent_call E sock payload)
            (\<lambda>e. if exn_class e = Agent_Hung_Up
                 then raise (YoError ''hung up: the approval prompt was probably declined or timed out''
                               [sock, REAPPROVE_HINT])
                 else raise e)) (\<lambda>reply.
     if message_type reply = SSH_AGENT_FAILURE
     then raise (YoError ''1Password declined to sign with the key'' [LUKS_KEY_ITEM, REAPPROVE_HINT])
     else if message_type reply \<noteq> SSH_AGENT_SIGN_RESPONSE
     then raise (YoError ''the ssh agent answered another message type to a sign request''
                   [show_nat (message_type reply)])
     else lift (parse_agent_signature (tl reply))))"

definition luks_passphrase :: "env \<Rightarrow> driver \<Rightarrow> box \<Rightarrow> string io" where
  "luks_passphrase E D b =
     (let sock = op_sock D in
      bnd (path_exists E sock) (\<lambda>there.
      if \<not> there
      then raise (YoError ''1Password is not running on this host'' [sock, LUKS_KEY_ITEM])
      else
        bnd (ssh_agent_identities E sock) (\<lambda>identities.
        bnd (lift (pick_luks_key identities)) (\<lambda>blob.
        sq (warn ''1Password: approve the key (Touch ID) to unlock the disk'' [LUKS_KEY_ITEM, box_name b])
        (bnd (ssh_agent_sign E sock blob LUKS_SIGN_DATA) (\<lambda>signature.
         ret (derive_luks_passphrase signature)))))))"

subsection \<open>Framing\<close>

locale framing =
  fixes ok :: "'a \<Rightarrow> bool" and put :: "'a \<Rightarrow> string" and get :: "string \<Rightarrow> nat \<Rightarrow> exn + 'a \<times> nat"
  assumes get_put: "ok x \<Longrightarrow> get (pre @ put x @ rest) (length pre) = Inr (x, length pre + length (put x))"
begin

lemma get_head: "ok x \<Longrightarrow> get (put x @ rest) 0 = Inr (x, length (put x))"
  using get_put [of x "[]"] by simp

lemma read_many_concat:
  "list_all ok xs \<Longrightarrow>
   read_many get (length xs) (pre @ concat (map put xs) @ rest) (length pre)
     = Inr (xs, length pre + length (concat (map put xs)))"
proof (induction xs arbitrary: pre)
  case Nil
  show ?case by simp
next
  case (Cons x xs)
  then have "get (pre @ put x @ concat (map put xs) @ rest) (length pre) = Inr (x, length pre + length (put x))"
    by (intro get_put) simp
  moreover have "read_many get (length xs) ((pre @ put x) @ concat (map put xs) @ rest) (length (pre @ put x))
      = Inr (xs, length (pre @ put x) + length (concat (map put xs)))"
    using Cons by (intro Cons.IH) simp
  ultimately show ?case by simp
qed

text \<open>The encoding is a prefix code: equal encodings with any continuation have equal heads.\<close>

lemma put_prefix_free: "ok x \<Longrightarrow> ok y \<Longrightarrow> put x @ r = put y @ s \<Longrightarrow> x = y \<and> r = s"
  using get_head [of x r] get_head [of y s] by auto

end

lemma length_u32 [simp]: "length (u32_bytes n) = 4"
  by (simp add: u32_bytes_def)

lemma unpack_u32_bytes [simp]:
  assumes "n < 2 ^ 32"
  shows "unpack_u32 (u32_bytes n) = n"
proof -
  have "n div 256 div 256 div 256 < 256" using assms by simp
  then have "n div 16777216 mod 256 = n div 16777216"
    by (simp add: div_mult2_eq [symmetric])
  moreover have "n div 65536 = 256 * (n div 16777216) + n div 65536 mod 256"
    using div_mult_mod_eq [of "n div 65536" 256] by (simp add: div_mult2_eq [symmetric])
  moreover have "n div 256 = 256 * (n div 65536) + n div 256 mod 256"
    using div_mult_mod_eq [of "n div 256" 256] by (simp add: div_mult2_eq [symmetric])
  moreover have "n = 256 * (n div 256) + n mod 256" by simp
  ultimately show ?thesis
    by (simp add: unpack_u32_def u32_bytes_def of_char_small)
qed

definition frame :: "string \<Rightarrow> string" where
  "frame data = u32_bytes (length data) @ data"

definition short :: "string \<Rightarrow> bool" where
  "short data \<longleftrightarrow> length data < 2 ^ 32"

lemma ssh_string_frame: "ssh_string data = Inr (frame data) \<longleftrightarrow> short data"
  by (simp add: ssh_string_def pack_u32_def frame_def short_def)

lemma ssh_string_Inr: "ssh_string data = Inr s \<longleftrightarrow> short data \<and> s = frame data"
  by (auto simp: ssh_string_def pack_u32_def frame_def short_def split: if_splits)

lemma length_frame [simp]: "length (frame data) = 4 + length data"
  by (simp add: frame_def)

interpretation ssh_frames: framing short frame read_ssh_string
proof
  fix x pre rest :: string
  assume "short x"
  then show "read_ssh_string (pre @ frame x @ rest) (length pre) = Inr (x, length pre + length (frame x))"
    by (simp add: read_ssh_string_def slice_def frame_def short_def Let_def)
qed

definition ascii :: "string \<Rightarrow> bool" where
  "ascii s \<longleftrightarrow> list_all (\<lambda>c. (of_char c :: nat) < 128) s"

lemma decode_ascii: "ascii s \<Longrightarrow> decode_replace s = s"
  by (induction s) (auto simp: ascii_def decode_replace_def)

lemma decode_eq_ascii: "ascii t \<Longrightarrow> decode_replace s = t \<Longrightarrow> s = t"
proof (induction s arbitrary: t)
  case Nil
  then show ?case by (simp add: decode_replace_def)
next
  case (Cons c s)
  then show ?case by (cases t) (auto simp: decode_replace_def ascii_def split: if_splits)
qed

definition ok_identity :: "string \<times> string \<Rightarrow> bool" where
  "ok_identity i \<longleftrightarrow> short (fst i) \<and> short (snd i) \<and> ascii (snd i)"

definition identity_frame :: "string \<times> string \<Rightarrow> string" where
  "identity_frame i = frame (fst i) @ frame (snd i)"

interpretation identity_frames: framing ok_identity identity_frame read_identity
proof
  fix x :: "string \<times> string" and pre rest :: string
  assume ok: "ok_identity x"
  have "read_ssh_string (pre @ frame (fst x) @ frame (snd x) @ rest) (length pre)
      = Inr (fst x, length pre + length (frame (fst x)))"
    using ok by (intro ssh_frames.get_put) (simp add: ok_identity_def)
  moreover have "read_ssh_string ((pre @ frame (fst x)) @ frame (snd x) @ rest) (length (pre @ frame (fst x)))
      = Inr (snd x, length (pre @ frame (fst x)) + length (frame (snd x)))"
    using ok by (intro ssh_frames.get_put) (simp add: ok_identity_def)
  ultimately show "read_identity (pre @ identity_frame x @ rest) (length pre)
      = Inr (x, length pre + length (identity_frame x))"
    using ok by (simp add: read_identity_def identity_frame_def ok_identity_def decode_ascii)
qed

subsection \<open>Round trips\<close>

definition identities_answer :: "(string \<times> string) list \<Rightarrow> string" where
  "identities_answer ids = u32_bytes (length ids) @ concat (map identity_frame ids)"

lemma parse_identities_answer:
  assumes "list_all ok_identity ids" and "length ids < 2 ^ 32"
  shows "parse_agent_identities (identities_answer ids @ rest) = Inr ids"
  using identity_frames.read_many_concat [OF assms(1), of "u32_bytes (length ids)" rest] assms(2)
  by (simp add: parse_agent_identities_def identities_answer_def slice_def)

definition signature_answer :: "string \<Rightarrow> string \<Rightarrow> string" where
  "signature_answer algorithm raw = frame (frame algorithm @ frame raw)"

lemma parse_signature_answer:
  assumes "short (frame algorithm @ frame raw)"
  shows "parse_agent_signature (signature_answer algorithm raw @ rest) = Inr s \<longleftrightarrow>
    algorithm = ''ssh-ed25519'' \<and> length raw = 64 \<and> s = raw"
proof -
  have sh: "short algorithm" "short raw" using assms by (auto simp: short_def)
  have "read_ssh_string (signature_answer algorithm raw @ rest) 0
      = Inr (frame algorithm @ frame raw, length (signature_answer algorithm raw))"
    unfolding signature_answer_def using assms by (rule ssh_frames.get_head)
  moreover have "read_ssh_string (frame algorithm @ frame raw) 0 = Inr (algorithm, length (frame algorithm))"
    using sh(1) by (rule ssh_frames.get_head)
  moreover have "read_ssh_string (frame algorithm @ frame raw) (length (frame algorithm))
      = Inr (raw, length (frame algorithm) + length (frame raw))"
    using ssh_frames.get_put [OF sh(2), of "frame algorithm" "[]"] by simp
  ultimately show ?thesis
    by (auto simp: parse_agent_signature_def ED25519_SIGNATURE_LENGTH_def)
qed

text \<open>A signature request names the key and the data it signs: two requests agree only on both.\<close>

lemma sign_request_inject:
  assumes "sign_request k d = Inr r" and "sign_request k' d' = Inr r"
  shows "k = k' \<and> d = d'"
proof -
  from assms have sh: "short k" "short d" "short k'" "short d'"
    and "frame k @ frame d @ replicate 4 CHR 0x00 = frame k' @ frame d' @ replicate 4 CHR 0x00"
    by (auto simp: sign_request_def ssh_string_Inr split: sum.splits)
  then show ?thesis
    using ssh_frames.put_prefix_free [OF sh(1,3)] ssh_frames.put_prefix_free [OF sh(2,4)] by blast
qed

subsection \<open>Reading a reply\<close>

lemma recv_exact_enough:
  assumes "[] \<notin> set cs" and "n \<le> length (concat cs)"
  shows "\<exists>cs'. recv_exact (cs, fin) n = Inr (take n (concat cs), (cs', fin))
               \<and> concat cs' = drop n (concat cs) \<and> [] \<notin> set cs'"
  using assms
proof (induction cs arbitrary: n)
  case Nil
  then show ?case by (simp add: recv_exact.simps)
next
  case (Cons c cs)
  show ?case
  proof (cases "n = 0")
    case True
    then show ?thesis using Cons.prems by (simp add: recv_exact.simps)
  next
    case False
    show ?thesis
    proof (cases "length c \<le> n")
      case True
      have "[] \<notin> set cs" "n - length c \<le> length (concat cs)" using Cons.prems by auto
      then obtain cs' where "recv_exact (cs, fin) (n - length c) = Inr (take (n - length c) (concat cs), (cs', fin))"
        "concat cs' = drop (n - length c) (concat cs)" "[] \<notin> set cs'"
        using Cons.IH by blast
      with True False Cons.prems show ?thesis
        by (subst recv_exact.simps) (auto simp: recv_def)
    next
      case long: False
      with False Cons.prems show ?thesis
        by (subst recv_exact.simps) (auto simp: recv_def recv_exact.simps [of _ 0])
    qed
  qed
qed

definition end_failure :: "stream_end \<Rightarrow> recv_failure" where
  "end_failure fin = (case fin of Closes \<Rightarrow> Closed_Mid_Message | Resets \<Rightarrow> Connection_Reset | Stalls \<Rightarrow> Reply_Timeout)"

lemma recv_exact_short:
  "[] \<notin> set cs \<Longrightarrow> length (concat cs) < n \<Longrightarrow> recv_exact (cs, fin) n = Inl (end_failure fin)"
proof (induction cs arbitrary: n)
  case Nil
  then show ?case by (cases fin) (simp_all add: recv_exact.simps recv_def end_failure_def)
next
  case (Cons c cs)
  then have "recv_exact (cs, fin) (n - length c) = Inl (end_failure fin)" by (intro Cons.IH) auto
  with Cons.prems show ?case by (subst recv_exact.simps) (auto simp: recv_def)
qed

text \<open>What a reply is depends on its bytes, not on how they were cut into chunks.\<close>

lemma read_agent_reply_chunks:
  assumes "[] \<notin> set cs" and "[] \<notin> set cs'" and "concat cs = concat cs'"
  shows "read_agent_reply (cs, fin) = read_agent_reply (cs', fin)"
proof (cases "4 \<le> length (concat cs)")
  case True
  from recv_exact_enough [OF assms(1) True] obtain r where
    r: "recv_exact (cs, fin) 4 = Inr (take 4 (concat cs), (r, fin))"
      "concat r = drop 4 (concat cs)" "[] \<notin> set r" by blast
  from recv_exact_enough [OF assms(2), of 4] True assms(3) obtain r' where
    r': "recv_exact (cs', fin) 4 = Inr (take 4 (concat cs), (r', fin))"
      "concat r' = drop 4 (concat cs)" "[] \<notin> set r'" by auto
  let ?len = "unpack_u32 (take 4 (concat cs))"
  show ?thesis
  proof (cases "?len \<le> length (concat r)")
    case True
    from recv_exact_enough [OF r(3) True] obtain q where
      "recv_exact (r, fin) ?len = Inr (take ?len (concat r), (q, fin))" by blast
    moreover from recv_exact_enough [OF r'(3), of ?len] True r r' obtain q' where
      "recv_exact (r', fin) ?len = Inr (take ?len (concat r), (q', fin))" by auto
    ultimately show ?thesis by (simp add: read_agent_reply_def r r' Let_def)
  next
    case False
    with r r' show ?thesis
      by (simp add: read_agent_reply_def Let_def recv_exact_short)
  qed
next
  case False
  then show ?thesis
    using assms by (simp add: read_agent_reply_def recv_exact_short)
qed

lemma recv_exact_frame:
  assumes "[] \<notin> set cs" and "concat cs = u32_bytes (length body) @ body @ rest"
    and "body \<noteq> []" and "length body \<le> AGENT_MAX_REPLY_BYTES"
  shows "read_agent_reply (cs, fin) = Inr body"
proof -
  from recv_exact_enough [OF assms(1), of 4] assms(2) obtain r where
    r: "recv_exact (cs, fin) 4 = Inr (u32_bytes (length body), (r, fin))"
      "concat r = body @ rest" "[] \<notin> set r" by auto
  from recv_exact_enough [OF r(3), of "length body"] r(2) obtain q where
    "recv_exact (r, fin) (length body) = Inr (body, (q, fin))" by auto
  moreover have "length body < 2 ^ 32" using assms(4) by (simp add: AGENT_MAX_REPLY_BYTES_def)
  ultimately show ?thesis using assms(3,4) by (simp add: read_agent_reply_def r)
qed

subsection \<open>Which key\<close>

lemma unique_key_Inr:
  "unique_key_titled ids t = Inr blob \<longleftrightarrow> filter (\<lambda>i. snd i = t) ids = [(blob, t)]"
proof -
  have "i \<in> set (filter (\<lambda>i. snd i = t) ids) \<Longrightarrow> snd i = t" for i by auto
  then show ?thesis
    by (cases "filter (\<lambda>i. snd i = t) ids" rule: remdups_adj.cases)
       (auto simp: unique_key_titled_def)
qed

lemma pick_luks_key_Inr:
  "pick_luks_key ids = Inr blob \<longleftrightarrow>
     filter (\<lambda>i. snd i = LUKS_KEY_ITEM) ids = [(blob, LUKS_KEY_ITEM)] \<and> key_type blob = Inr ''ssh-ed25519''"
  by (auto simp: pick_luks_key_def unique_key_Inr [symmetric] split: sum.splits if_splits)

lemma derive_shape:
  "length (derive_luks_passphrase s) = 64"
  "c \<in> set (derive_luks_passphrase s) \<Longrightarrow> is_digit c \<or> 97 \<le> (of_char c :: nat) \<and> (of_char c :: nat) \<le> 102"
  by (simp_all add: derive_luks_passphrase_def hmac_sha256_def hexdigest_chars Let_def)

text \<open>What a passphrase came from: one key, one signature of the fixed data.\<close>

lemma luks_passphrase_Inr:
  assumes "luks_passphrase E D b h = (Inr p, t)"
  obtains ids blob raw u v w where
    "ssh_agent_identities E (op_sock D) h = (Inr ids, u)" "pick_luks_key ids = Inr blob"
    "ssh_agent_sign E (op_sock D) blob LUKS_SIGN_DATA v = (Inr raw, w)"
    "p = derive_luks_passphrase raw"
proof -
  let ?rest = "bnd (ssh_agent_identities E (op_sock D)) (\<lambda>identities.
    bnd (lift (pick_luks_key identities)) (\<lambda>blob.
    sq (warn ''1Password: approve the key (Touch ID) to unlock the disk'' [LUKS_KEY_ITEM, box_name b])
    (bnd (ssh_agent_sign E (op_sock D) blob LUKS_SIGN_DATA) (\<lambda>signature.
     ret (derive_luks_passphrase signature)))))"
  have "luks_passphrase E D b h = (if exists_ans E h (op_sock D) then ?rest h
      else (Inl (YoError ''1Password is not running on this host'' [op_sock D, LUKS_KEY_ITEM]), h))"
    by (simp add: luks_passphrase_def Let_def path_exists_def bnd_def reads_def raise_def)
  with assms have "?rest h = (Inr p, t)" by (simp split: if_splits)
  then obtain ids u where ids: "ssh_agent_identities E (op_sock D) h = (Inr ids, u)"
    and "bnd (lift (pick_luks_key ids)) (\<lambda>blob.
      sq (warn ''1Password: approve the key (Touch ID) to unlock the disk'' [LUKS_KEY_ITEM, box_name b])
      (bnd (ssh_agent_sign E (op_sock D) blob LUKS_SIGN_DATA) (\<lambda>signature.
       ret (derive_luks_passphrase signature)))) u = (Inr p, t)"
    by (rule bnd_InrE)
  then obtain blob v raw w where blob: "pick_luks_key ids = Inr blob"
    and "ssh_agent_sign E (op_sock D) blob LUKS_SIGN_DATA v = (Inr raw, w)"
    and "p = derive_luks_passphrase raw"
    by (elim bnd_InrE) (simp add: lift_def ret_def)
  with ids blob that show thesis by blast
qed

lemma ssh_agent_sign_Inr:
  "ssh_agent_sign E sock blob data h = (Inr raw, t) \<Longrightarrow> length raw = 64"
  by (auto simp: ssh_agent_sign_def parse_agent_signature_def ED25519_SIGNATURE_LENGTH_def
        ret_def raise_def lift_def elim!: bnd_InrE split: if_splits sum.splits)

definition agent_events :: "driver \<Rightarrow> event set" where
  "agent_events D = {Called_Agent (op_sock D) q | q. True} \<union> {Warned m | m. True}"

lemma logs_agent_call [footprint]:
  "(\<And>q. Called_Agent sock q \<in> A) \<Longrightarrow> logs_only A (ssh_agent_call E sock p)"
  unfolding ssh_agent_call_def
  by (intro footprint) (auto split: agent_answer.splits sum.splits intro: footprint)

lemma logs_luks_passphrase [footprint]:
  assumes "agent_events D \<subseteq> A"
  shows "logs_only A (luks_passphrase E D b)"
proof -
  have "Called_Agent (op_sock D) q \<in> A" "Warned m \<in> A" for q m
    using assms by (auto simp: agent_events_def)
  then show ?thesis
    unfolding luks_passphrase_def Let_def ssh_agent_identities_def ssh_agent_sign_def
    by (intro footprint)
qed

subsection \<open>Properties\<close>

text \<open>
  Reading the identities answer of an ssh agent gives back exactly the keys and comments
  that were framed in it, whatever follows them.
\<close>

lemma identities_round_trip:
  assumes "list_all ok_identity ids" and "length ids < 2 ^ 32"
  shows "parse_agent_identities (identities_answer ids @ rest) = Inr ids"
  using assms by (rule parse_identities_answer)

theorem identities_round_trip_witness:
  "parse_agent_identities (identities_answer [(''blob'', ''yolobox-disk'')]) = Inr [(''blob'', ''yolobox-disk'')]"
proof -
  have ok: "list_all ok_identity [(''blob'', ''yolobox-disk'')]"
    by (simp add: ok_identity_def short_def ascii_def)
  show ?thesis using identities_round_trip [OF ok, of "[]"] by simp
qed

text \<open>
  A reply of the agent is the same however the socket cut it into pieces.
\<close>

lemma agent_reply_ignores_chunking:
  assumes "[] \<notin> set cs" and "[] \<notin> set cs'" and "concat cs = concat cs'"
  shows "read_agent_reply (cs, fin) = read_agent_reply (cs', fin)"
  using assms by (rule read_agent_reply_chunks)

theorem agent_reply_ignores_chunking_witness:
  "read_agent_reply ([[CHR 0x00, CHR 0x00], [CHR 0x00, CHR 0x01, CHR 0x05]], Closes)
    = read_agent_reply ([[CHR 0x00, CHR 0x00, CHR 0x00, CHR 0x01, CHR 0x05]], Closes)"
  by (rule agent_reply_ignores_chunking) simp_all

text \<open>
  C26: a passphrase is 64 lowercase hex digits, derived from the agent's 64-byte signature of the
  fixed data by the one Ed25519 key titled for the disk; with no such key, or several, there is
  none.
\<close>

theorem passphrase_comes_from_the_disk_key:
  assumes "luks_passphrase E D b h = (Inr p, t)"
  shows "length p = 64 \<and> list_all (\<lambda>c. is_digit c \<or> 97 \<le> (of_char c :: nat) \<and> (of_char c :: nat) \<le> 102) p
    \<and> (\<exists>ids blob raw u v w. ssh_agent_identities E (op_sock D) h = (Inr ids, u)
        \<and> filter (\<lambda>i. snd i = LUKS_KEY_ITEM) ids = [(blob, LUKS_KEY_ITEM)]
        \<and> key_type blob = Inr ''ssh-ed25519''
        \<and> ssh_agent_sign E (op_sock D) blob LUKS_SIGN_DATA v = (Inr raw, w) \<and> length raw = 64
        \<and> p = hexdigest (hmac_sha256 raw LUKS_KDF_INFO))"
proof -
  from assms obtain ids blob raw u v w where
    ids: "ssh_agent_identities E (op_sock D) h = (Inr ids, u)" and key: "pick_luks_key ids = Inr blob"
    and raw: "ssh_agent_sign E (op_sock D) blob LUKS_SIGN_DATA v = (Inr raw, w)"
    and p: "p = derive_luks_passphrase raw"
    by (rule luks_passphrase_Inr)
  from key have "filter (\<lambda>i. snd i = LUKS_KEY_ITEM) ids = [(blob, LUKS_KEY_ITEM)]" "key_type blob = Inr ''ssh-ed25519''"
    by (auto simp: pick_luks_key_Inr)
  with ids raw p ssh_agent_sign_Inr [OF raw] derive_shape show ?thesis
    by (auto simp: list_all_iff derive_luks_passphrase_def)
qed

text \<open>An agent that offers the disk's key and signs.\<close>

definition signing_agent :: "history \<Rightarrow> string \<Rightarrow> string \<Rightarrow> agent_answer" where
  "signing_agent h sock request =
     Connected
       [frame (if length request \<le> 5
               then CHR 0x0C # identities_answer [(frame ''ssh-ed25519'' @ frame ''key'', LUKS_KEY_ITEM)]
               else CHR 0x0E # signature_answer ''ssh-ed25519'' (replicate 64 CHR ''s''))] Closes"

definition agent_env :: env where
  "agent_env = sample_env\<lparr>exists_ans := (\<lambda>h p. True), agent_ans := signing_agent\<rparr>"


lemma agent_call_connected:
  assumes "agent_ans E h sock (frame payload) = Connected [frame (c # body)] Closes"
    and "short payload" and "length body < 2 ^ 20"
  shows "ssh_agent_call E sock payload h = (Inr (c # body), h @ [Called_Agent sock (frame payload)])"
proof -
  have "read_agent_reply ([frame (c # body)], Closes) = Inr (c # body)"
    using assms(3) recv_exact_frame [of "[frame (c # body)]" "c # body" "[]" Closes]
    by (simp add: AGENT_MAX_REPLY_BYTES_def frame_def u32_bytes_def)
  moreover have "ssh_string payload = Inr (frame payload)" using assms(2) by (simp add: ssh_string_frame)
  ultimately show ?thesis
    using assms(1) by (simp add: ssh_agent_call_def bnd_def lift_def reads_def emit_def modifies_def ret_def)
qed

theorem passphrase_comes_from_the_disk_key_witness:
  "\<exists>p t. luks_passphrase agent_env sample_driver sample_box [] = (Inr p, t) \<and> length p = 64"
proof -
  let ?key = "frame ''ssh-ed25519'' @ frame ''key''" and ?sock = "op_sock sample_driver"
  let ?raw = "replicate 64 CHR ''s''" and ?list = "[char_of (11 :: nat)] :: string"
  have sizes: "length (identities_answer [(?key, LUKS_KEY_ITEM)]) < 2 ^ 20"
    "length (signature_answer ''ssh-ed25519'' ?raw) < 2 ^ 20"
    by (simp_all add: identities_answer_def identity_frame_def signature_answer_def LUKS_KEY_ITEM_def)
  have "list_all ok_identity [(?key, LUKS_KEY_ITEM)]"
    by (simp add: ok_identity_def short_def ascii_def LUKS_KEY_ITEM_def)
  then have answer: "parse_agent_identities (identities_answer [(?key, LUKS_KEY_ITEM)]) = Inr [(?key, LUKS_KEY_ITEM)]"
    using parse_identities_answer [of _ "[]"] by simp
  have "short (frame ''ssh-ed25519'' @ frame ?raw)" by (simp add: short_def)
  then have signature: "parse_agent_signature (signature_answer ''ssh-ed25519'' ?raw) = Inr ?raw"
    using parse_signature_answer [of _ _ "[]"] by simp
  have "agent_ans agent_env h ?sock (frame ?list) = Connected [frame (CHR 0x0C # identities_answer [(?key, LUKS_KEY_ITEM)])] Closes" for h
    by (simp add: agent_env_def signing_agent_def frame_def)
  then have "ssh_agent_call agent_env ?sock ?list h
      = (Inr (CHR 0x0C # identities_answer [(?key, LUKS_KEY_ITEM)]), h @ [Called_Agent ?sock (frame ?list)])" for h
    using sizes(1) by (intro agent_call_connected) (simp_all add: short_def)
  then have ids: "ssh_agent_identities agent_env ?sock h
      = (Inr [(?key, LUKS_KEY_ITEM)], h @ [Called_Agent ?sock (frame ?list)])" for h
    using answer by (simp add: ssh_agent_identities_def agent_messages message_type_def bnd_def lift_def)
  have "read_ssh_string ?key 0 = Inr (''ssh-ed25519'', length (frame ''ssh-ed25519''))"
    by (rule ssh_frames.get_head) (simp add: short_def)
  then have key: "pick_luks_key [(?key, LUKS_KEY_ITEM)] = Inr ?key"
    unfolding pick_luks_key_Inr by (simp add: key_type_def decode_ascii ascii_def)
  have "ssh_string ?key = Inr (frame ?key)" "ssh_string LUKS_SIGN_DATA = Inr (frame LUKS_SIGN_DATA)"
    by (simp_all add: ssh_string_frame short_def LUKS_SIGN_DATA_def)
  then obtain req where req: "sign_request ?key LUKS_SIGN_DATA = Inr req" "length req > 1" "short req"
    by (simp add: sign_request_def short_def LUKS_SIGN_DATA_def)
  have "agent_ans agent_env h ?sock (frame req) = Connected [frame (CHR 0x0E # signature_answer ''ssh-ed25519'' ?raw)] Closes" for h
    using req(2) by (simp add: agent_env_def signing_agent_def frame_def)
  then have "ssh_agent_call agent_env ?sock req h
      = (Inr (CHR 0x0E # signature_answer ''ssh-ed25519'' ?raw), h @ [Called_Agent ?sock (frame req)])" for h
    using sizes(2) req(3) by (intro agent_call_connected) simp_all
  then have "\<exists>t. ssh_agent_sign agent_env ?sock ?key LUKS_SIGN_DATA h = (Inr ?raw, t)" for h
    using signature req(1)
    by (simp add: ssh_agent_sign_def agent_messages message_type_def bnd_def lift_def catch_def)
  then obtain g where sign: "ssh_agent_sign agent_env ?sock ?key LUKS_SIGN_DATA h = (Inr ?raw, g h)" for h
    by metis
  have "exists_ans agent_env h p" for h p by (simp add: agent_env_def)
  then have "\<exists>p t. luks_passphrase agent_env sample_driver sample_box [] = (Inr p, t)"
    using ids key sign
    by (simp add: luks_passphrase_def Let_def bnd_def path_exists_def reads_def lift_def warn_def emit_def
        modifies_def ret_def)
  then obtain p t where run: "luks_passphrase agent_env sample_driver sample_box [] = (Inr p, t)" by blast
  from passphrase_comes_from_the_disk_key [OF run] run show ?thesis by blast
qed

end
