(* ===== verification/Yo_Guest.thy ===== *)
theory Yo_Guest
  imports Yo_Release Yo_Agent
begin

text \<open>
  \<open>yolobox_cli/guest.py\<close>: calling the helper \<open>yolobox-guest\<close> on the box, pinning its host
  keys, and reading its units and the usage of its root. The lemmas show what a result of
  the helper can mean, and that the pinned file holds only lines of the box's own endpoint.
\<close>

definition HELPER_MARKER :: string where "HELPER_MARKER = ''unknown subcommand''"
definition HOST_KEY_GLOB :: string where "HOST_KEY_GLOB = ''/etc/ssh/ssh_host_*_key.pub''"

definition ensure_guest_known_hosts :: "env \<Rightarrow> box \<Rightarrow> unit io" where
  "ensure_guest_known_hosts E b =
     bnd (read_text_file E (ssh_cfg E b)) (\<lambda>current.
     case current of
       None \<Rightarrow> ret ()
     | Some content \<Rightarrow>
         (case parse_ssh_host_block content (vm_host b) of
            None \<Rightarrow> ret ()
          | Some hb \<Rightarrow>
              bnd (ssh_run E b OPERATOR_FIRST_CONTACT [''sh'', ''-c'', ''cat '' @ HOST_KEY_GLOB] plain) (\<lambda>c.
              if returncode c \<noteq> 0
              then raise (YoError ''could not fetch the guest's ssh host keys to pin them''
                            [HOST_KEY_GLOB, herdr_alias b, failure_detail c])
              else
                (let ls = known_hosts_lines hb (stdout c) in
                 if ls = [] then raise (YoError ''the guest reported no parseable ssh host keys'' [HOST_KEY_GLOB])
                 else atomic_write E (known_hosts_path E b) (join_with NL ls @ NL) FILE_MODE_PRIVATE))))"

subsection \<open>The helper\<close>

definition guest_helper_check :: "completed \<Rightarrow> string \<Rightarrow> exn + completed" where
  "guest_helper_check c sub =
     (if returncode c \<noteq> 0
      then Inl (Exn Yo (Some (failed_message sub (returncode c) (Some (failure_detail c)) [])) 1)
      else Inr c)"

definition helper_skew_error :: "env \<Rightarrow> box \<Rightarrow> message \<Rightarrow> 'a io" where
  "helper_skew_error E b what =
     bnd (helper_skew E b what) (\<lambda>m. raise (Exn Yo (Some m) 1))"

text \<open>The two ways a box can be too old for a call: no helper at all, or no such subcommand.\<close>

definition helper_skew_of :: "env \<Rightarrow> box \<Rightarrow> ssh_role \<Rightarrow> bool \<Rightarrow> completed \<Rightarrow> (bool \<times> bool) io" where
  "helper_skew_of E b role stream c =
     (if stream then
        bnd (probe E b role [''command'', ''-v'', HELPER] plain) (\<lambda>found.
        ret (returncode found \<noteq> 0, returncode c = HELPER_NO_SUBCOMMAND))
      else
        ret (returncode c = 127 \<and> contains (stderr c) ''not found'',
             returncode c = HELPER_NO_SUBCOMMAND \<and> contains (stderr c) HELPER_MARKER))"

definition guest_helper_over ::
  "bool \<Rightarrow> env \<Rightarrow> box \<Rightarrow> ssh_role \<Rightarrow> string \<Rightarrow> string list \<Rightarrow> bool \<Rightarrow> run_opts \<Rightarrow> completed io" where
  "guest_helper_over mux E b role sub args stream ro =
     (let ro' = (if stream then ro\<lparr>capture := False, filtered := True\<rparr> else ro) in
      bnd (probe_over mux E b role (HELPER # sub # args) ro') (\<lambda>c.
      if returncode c \<notin> {127, HELPER_NO_SUBCOMMAND} then ret c
      else
        bnd (helper_skew_of E b role stream c) (\<lambda>(helper_missing, no_subcommand).
        if helper_missing then helper_skew_error E b (''the box has no helper'', [HELPER])
        else if no_subcommand then helper_skew_error E b (''the box's helper has no such subcommand'', [HELPER, sub])
        else ret c)))"

definition guest_helper :: "env \<Rightarrow> box \<Rightarrow> ssh_role \<Rightarrow> string \<Rightarrow> string list \<Rightarrow> bool \<Rightarrow> run_opts \<Rightarrow> completed io" where
  "guest_helper E b role sub args stream ro = guest_helper_over False E b role sub args stream ro"

definition agent_paths :: "env \<Rightarrow> box \<Rightarrow> string \<Rightarrow> string list \<Rightarrow> bool \<Rightarrow> string list io" where
  "agent_paths E b sub args check_it =
     bnd (guest_helper E b AGENT sub args False (plain\<lparr>binary := True\<rparr>)) (\<lambda>c.
     sq (if returncode c = 0 then ret ()
         else if check_it then bnd (lift (guest_helper_check c sub)) (\<lambda>_. ret ())
         else
           sq (when_do (stderr c \<noteq> []) (warn (rstrip_char CHR 0x0A (stderr c)) []))
           (sq (warn ''the project walk could not read every directory'' [AGENT_HOME, show_int (returncode c)])
               (warn ''the list below is what was readable'' [])))
     (ret (filter (\<lambda>e. e \<noteq> []) (split_on CHR 0x00 (decode_replace (stdout c))))))"

definition vm_units_present :: "env \<Rightarrow> box \<Rightarrow> bool io" where
  "vm_units_present E b =
     bnd (probe E b OPERATOR [''systemctl'', ''cat'', hd PROXY_SOCKET_UNITS] plain) (\<lambda>c.
     ret (returncode c = 0))"

subsection \<open>The usage of the root file system\<close>

record root_usage =
  human_line :: string
  total_kib :: nat
  used_kib :: nat

definition ROOT_USAGE_PROBE :: "string list" where
  "ROOT_USAGE_PROBE = [''sh'', ''-c'', ''df -h / && df -kP /'']"

definition ROOT_USAGE_LINES :: nat where "ROOT_USAGE_LINES = 4"

definition df_kib :: "string list \<Rightarrow> nat \<Rightarrow> nat option" where
  "df_kib cols column =
     (if length cols > column \<and> is_ascii_number (cols ! column)
      then Some (decimal (cols ! column)) else None)"

definition parse_root_usage :: "string \<Rightarrow> exn + root_usage" where
  "parse_root_usage out =
     (let ls = splitlines out in
      if length ls \<noteq> ROOT_USAGE_LINES
      then Inl (YoError ''cannot read the VM's root usage from df: another number of lines''
                  [show_nat ROOT_USAGE_LINES, out])
      else
        (let cols = split_words (ls ! 3) in
         case (df_kib cols 1, df_kib cols 2) of
           (Some tk, Some uk) \<Rightarrow> Inr \<lparr>human_line = ls ! 1, total_kib = tk, used_kib = uk\<rparr>
         | _ \<Rightarrow> Inl (YoError ''cannot read the VM's root usage from df: no sizes in'' [ls ! 3])))"

definition guest_root_usage :: "env \<Rightarrow> box \<Rightarrow> root_usage io" where
  "guest_root_usage E b =
     bnd (ssh_run E b OPERATOR ROOT_USAGE_PROBE plain) (\<lambda>c.
     if returncode c \<noteq> 0
     then raise (YoError ''cannot read the VM's root usage from df''
                   [show_int (returncode c), failure_detail c])
     else lift (parse_root_usage (stdout c)))"

subsection \<open>What a result means\<close>

lemma logs_helper_skew_error [footprint]:
  "ssh_events E b \<subseteq> A \<Longrightarrow> logs_only A (helper_skew_error E b m)"
  unfolding helper_skew_error_def by (intro footprint)

lemma logs_guest_helper_over [footprint]:
  "ssh_events E b \<subseteq> A \<Longrightarrow> logs_only A (guest_helper_over mux E b role sub args stream ro)"
  unfolding guest_helper_over_def helper_skew_of_def Let_def by (intro footprint)

lemma logs_guest_helper [footprint]:
  "ssh_events E b \<subseteq> A \<Longrightarrow> logs_only A (guest_helper E b role sub args stream ro)"
  unfolding guest_helper_def by (rule footprint)

lemma logs_vm_units [footprint]: "ssh_events E b \<subseteq> A \<Longrightarrow> logs_only A (vm_units_present E b)"
  unfolding vm_units_present_def by (intro footprint)

lemma logs_guest_root_usage [footprint]: "ssh_events E b \<subseteq> A \<Longrightarrow> logs_only A (guest_root_usage E b)"
  unfolding guest_root_usage_def by (intro footprint)

lemma guest_helper_Inr:
  assumes "guest_helper E b role sub args False ro h = (Inr c, t)"
  shows "returncode c \<noteq> 255
    \<and> \<not> (returncode c = 127 \<and> contains (stderr c) ''not found'')
    \<and> \<not> (returncode c = 64 \<and> contains (stderr c) HELPER_MARKER)"
proof -
  from assms obtain c' u where p: "probe_over False E b role (HELPER # sub # args) ro h = (Inr c', u)"
    and k: "(if returncode c' \<notin> {127, HELPER_NO_SUBCOMMAND} then ret c'
      else bnd (helper_skew_of E b role False c') (\<lambda>(helper_missing, no_subcommand).
        if helper_missing then helper_skew_error E b (''the box has no helper'', [HELPER])
        else if no_subcommand then helper_skew_error E b (''the box's helper has no such subcommand'', [HELPER, sub])
        else ret c')) u = (Inr c, t)"
    unfolding guest_helper_def guest_helper_over_def Let_def by (auto elim!: bnd_InrE)
  have no: "helper_skew_error E b m s \<noteq> (Inr x, v)" for m s v and x :: completed
    by (auto simp: helper_skew_error_def raise_def elim!: bnd_InrE)
  let ?miss = "returncode c' = 127 \<and> contains (stderr c') ''not found''"
  let ?nosub = "returncode c' = HELPER_NO_SUBCOMMAND \<and> contains (stderr c') HELPER_MARKER"
  from probe_over_Inr [OF p] have "returncode c' \<noteq> 255" .
  moreover have "\<not> ?miss \<and> \<not> ?nosub \<and> c' = c"
  proof (cases "returncode c' \<in> {127, HELPER_NO_SUBCOMMAND}")
    case True
    with k have "(if ?miss then helper_skew_error E b (''the box has no helper'', [HELPER])
        else if ?nosub then helper_skew_error E b (''the box's helper has no such subcommand'', [HELPER, sub])
        else ret c') u = (Inr c, t)"
      by (simp only: helper_skew_of_def if_False if_True not_True_eq_False bnd_ret prod.case)
    then show ?thesis using no by (auto simp: ret_def split: if_splits)
  next
    case False
    with k show ?thesis by (auto simp: ret_def)
  qed
  ultimately show ?thesis by (auto simp: HELPER_NO_SUBCOMMAND_def)
qed

lemma agent_paths_Inr:
  assumes "agent_paths E b sub args k h = (Inr ps, t)"
  shows "\<forall>p \<in> set ps. p \<noteq> [] \<and> CHR 0x00 \<notin> set p"
  using assms split_on_no_sep
  by (fastforce simp: agent_paths_def ret_def elim!: bnd_InrE)

lemma known_hosts_lines_endpoint:
  assumes "l \<in> set (known_hosts_lines hb keys)"
  shows "startswith l (''['' @ hb_hostname hb @ '']:'' @ hb_port hb @ '' '')"
  using assms
  by (auto simp: known_hosts_lines_def startswith_def prefix_def split: list.splits)

subsection \<open>Properties\<close>

text \<open>
  A result of the guest helper is a fact about the guest: it is never ssh's own failure
  (exit 255), a missing helper, or a helper too old to know the subcommand.
\<close>

lemma helper_result_is_a_fact:
  assumes "guest_helper E b role sub args False ro h = (Inr c, t)"
  shows "returncode c \<noteq> 255
    \<and> \<not> (returncode c = 127 \<and> contains (stderr c) ''not found'')
    \<and> \<not> (returncode c = 64 \<and> contains (stderr c) HELPER_MARKER)"
  using assms by (rule guest_helper_Inr)

definition answering_env :: env where
  "answering_env = sample_env\<lparr>proc_ans := (\<lambda>h argv i. Finished 0 ''ok'' [])\<rparr>"

theorem helper_result_is_a_fact_witness:
  "\<exists>c t. guest_helper answering_env sample_box AGENT ''status'' [] False plain [] = (Inr c, t)
    \<and> returncode c \<noteq> 255"
proof -
  have "case fst (guest_helper answering_env sample_box AGENT ''status'' [] False plain []) of
      Inr c \<Rightarrow> True | Inl e \<Rightarrow> False" by code_simp
  then obtain c t where run: "guest_helper answering_env sample_box AGENT ''status'' [] False plain [] = (Inr c, t)"
    by (metis (no_types, lifting) old.sum.exhaust old.sum.simps(5) prod.collapse)
  from helper_result_is_a_fact [OF run] run show ?thesis by blast
qed

end
