(* ===== verification/Yo_Unlock.thy ===== *)
theory Yo_Unlock
  imports Yo_Guest
begin

text \<open>
  \<open>yolobox_cli/unlock.py\<close>: which of the box's two sshds answers, what its initrd is doing,
  one run of the initrd's helper, and the two waiting loops. The lemmas show what each
  verdict proves (above all \<open>WAITING_FOR_PASSPHRASE\<close>, the only state \<open>yo down\<close> may power off
  in), when the passphrase is sent, and that the loops end on a clock that moves.
\<close>

definition HELPER_EXIT_WRONG_KEY :: int where "HELPER_EXIT_WRONG_KEY = 1"
definition HELPER_EXIT_MIGRATION_FAILED :: int where "HELPER_EXIT_MIGRATION_FAILED = 2"
definition HELPER_EXIT_WATCH_LOST :: int where "HELPER_EXIT_WATCH_LOST = 3"
definition HELPER_EXIT_NO_PASSPHRASE :: int where "HELPER_EXIT_NO_PASSPHRASE = 4"
definition HELPER_EXIT_ROOT_MOUNT_FAILED :: int where "HELPER_EXIT_ROOT_MOUNT_FAILED = 5"
definition HELPER_EXIT_INTERNAL :: int where "HELPER_EXIT_INTERNAL = 6"
definition INITRD_UNLOCK_HELPER :: string where "INITRD_UNLOCK_HELPER = ''yolobox-unlock''"
definition MIGRATE_ASK_ID :: string where "MIGRATE_ASK_ID = ''yolobox:luks-migrate''"
definition INITRD_WAIT_SECONDS :: nat where "INITRD_WAIT_SECONDS = 600"
definition OPERATOR_WAIT_SECONDS :: nat where "OPERATOR_WAIT_SECONDS = 600"
definition INITRD_POLL_SECONDS :: nat where "INITRD_POLL_SECONDS = 2"
definition OPERATOR_POLL_SECONDS :: nat where "OPERATOR_POLL_SECONDS = 3"

definition LIMA_PRE_BOOT_STATUSES :: "string option list" where
  "LIMA_PRE_BOOT_STATUSES = [None, Some ''Installing'', Some ''Starting'', Some ''Stopped'']"

definition SSH_BANNER_MAX_BYTES :: nat where "SSH_BANNER_MAX_BYTES = 255"

definition NOT_LISTENING_MARKERS :: "string list" where
  "NOT_LISTENING_MARKERS =
     [''Connection refused'', ''Connection reset'', ''kex_exchange_identification'',
      ''Connection closed'', ''closed by remote host'', ''Broken pipe'', ''Connection timed out'',
      ''Operation timed out'']"

subsection \<open>Which sshd answers\<close>

datatype ssh_outcome = Answered | Ran_Failed | Refused | Not_Listening | Ssh_Error

definition classify_initrd_attempt :: "int \<Rightarrow> string \<Rightarrow> ssh_outcome" where
  "classify_initrd_attempt code err =
     (if code \<noteq> SSH_UNREACHABLE then Ran_Failed
      else if contains err ''Permission denied'' then Refused
      else if list_ex (contains err) NOT_LISTENING_MARKERS then Not_Listening
      else Ssh_Error)"

definition probe_sshd :: "env \<Rightarrow> driver \<Rightarrow> box \<Rightarrow> string \<Rightarrow> (ssh_outcome \<times> string) io" where
  "probe_sshd E D b user =
     bnd (initrd_ssh_argv E D b ''true'' user) (\<lambda>argv.
     bnd (run E argv (plain\<lparr>stdin_of := Some []\<rparr>)) (\<lambda>c.
     if returncode c = 0 then ret (Answered, stderr c)
     else ret (classify_initrd_attempt (returncode c) (stderr c), stderr c)))"

definition sshd_answers :: "env \<Rightarrow> driver \<Rightarrow> box \<Rightarrow> string \<Rightarrow> ssh_outcome io" where
  "sshd_answers E D b user = bnd (probe_sshd E D b user) (\<lambda>(outcome, _). ret outcome)"

definition host_user :: "env \<Rightarrow> string" where "host_user E = env_user E"

definition stage2_up :: "env \<Rightarrow> driver \<Rightarrow> box \<Rightarrow> bool io" where
  "stage2_up E D b = bnd (sshd_answers E D b (host_user E)) (\<lambda>o'. ret (o' = Answered))"

datatype boot_stage = Stage2 | Initrd | No_Stage | Unknown_Stage

text \<open>
  The loop of \<open>ssh_banner\<close> on the chunks the socket gives until the deadline, a failure or
  the end of the stream: it stops at a newline or at the cap, and asks \<open>recv\<close> for no more
  than is left to the cap.
\<close>

fun read_banner :: "string \<Rightarrow> string list \<Rightarrow> string" where
  "read_banner banner [] = banner"
| "read_banner banner (chunk # chunks) =
     (if CHR 0x0A \<in> set banner \<or> length banner \<ge> SSH_BANNER_MAX_BYTES \<or> chunk = [] then banner
      else read_banner (banner @ take (SSH_BANNER_MAX_BYTES - length banner) chunk) chunks)"

definition banner_line :: "string list \<Rightarrow> string" where
  "banner_line chunks = decode_replace (takeWhile (\<lambda>c. c \<noteq> CHR 0x0A) (read_banner [] chunks))"

definition ssh_banner :: "env \<Rightarrow> driver \<Rightarrow> box \<Rightarrow> string io" where
  "ssh_banner E D b =
     bnd (initrd_endpoint_of E D b) (\<lambda>ep.
     bnd (reads (\<lambda>h. banner_ans E h (ie_hostname ep) (ie_port ep))) (\<lambda>chunks.
     sq (emit (Dialled (ie_hostname ep) (ie_port ep))) (ret (banner_line chunks))))"

definition boot_stage :: "env \<Rightarrow> driver \<Rightarrow> box \<Rightarrow> boot_stage io" where
  "boot_stage E D b =
     bnd (stage2_up E D b) (\<lambda>up.
     if up then ret Stage2
     else
       bnd (ssh_banner E D b) (\<lambda>banner.
       if STAGE2_SSH_BANNER_MARK \<in> set (split_words banner) then ret No_Stage
       else
         bnd (sshd_answers E D b ''root'') (\<lambda>root_probe.
         if root_probe = Answered then ret Initrd
         else ret (if banner \<noteq> [] then Unknown_Stage else No_Stage))))"

subsection \<open>What the initrd is doing\<close>

datatype initrd_state = Waiting_For_Passphrase | Migrating | Unlocking | Migration_Failed
  | Unlocked_Idle | Unknown_State

record initrd_reading =
  ir_state :: initrd_state
  ir_cause :: string

definition ASK_PASSWORD_DIR :: string where "ASK_PASSWORD_DIR = ''/run/systemd/ask-password''"
definition UNLOCK_FIFO_GLOB :: string where "UNLOCK_FIFO_GLOB = ''/tmp/yolobox-unlock.*''"
definition PROBE_MIGRATE_PREFIX :: string where "PROBE_MIGRATE_PREFIX = ''migrate=''"
definition PROBE_FIFO_PREFIX :: string where "PROBE_FIFO_PREFIX = ''unlock-fifo=''"
definition PROBE_ASK_BEGIN :: string where "PROBE_ASK_BEGIN = ''ask-begin''"
definition PROBE_ASK_END :: string where "PROBE_ASK_END = ''ask-end''"
definition PROBE_END :: string where "PROBE_END = ''probe=end''"
definition ASK_ID_PREFIX :: string where "ASK_ID_PREFIX = ''Id=''"
definition CRYPTSETUP_ASK_ID_PREFIX :: string where "CRYPTSETUP_ASK_ID_PREFIX = ''cryptsetup:''"
definition MIGRATE_UNIT_RUNNING :: string where "MIGRATE_UNIT_RUNNING = ''activating''"
definition MIGRATE_UNIT_FINISHED :: string where "MIGRATE_UNIT_FINISHED = ''active''"
definition MIGRATE_UNIT_FAILED :: string where "MIGRATE_UNIT_FAILED = ''failed''"

lemmas probe_words = PROBE_MIGRATE_PREFIX_def PROBE_FIFO_PREFIX_def PROBE_ASK_BEGIN_def
  PROBE_ASK_END_def PROBE_END_def ASK_ID_PREFIX_def

definition initrd_probe_command :: "string \<Rightarrow> string \<Rightarrow> string" where
  "initrd_probe_command ask_dir fifo_glob =
     (let dollar = [CHR 0x24]; dq = [CHR 0x22] in
      ''echo '' @ PROBE_MIGRATE_PREFIX @ dollar @ ''(systemctl is-active yolobox-luks-migrate.service); '' @
      ''for f in '' @ fifo_glob @ ''; do [ -e '' @ dq @ dollar @ ''f'' @ dq @ '' ] && echo '' @ dq @
      PROBE_FIFO_PREFIX @ dollar @ ''f'' @ dq @ ''; done; '' @
      ''for f in '' @ ask_dir @ ''/ask.*; do [ -e '' @ dq @ dollar @ ''f'' @ dq @ '' ] || continue; '' @
      ''echo '' @ PROBE_ASK_BEGIN @ ''; cat '' @ dq @ dollar @ ''f'' @ dq @ ''; echo; echo '' @
      PROBE_ASK_END @ ''; done; '' @ ''echo '' @ PROBE_END)"

definition INITRD_PROBE_COMMAND :: string where
  "INITRD_PROBE_COMMAND = initrd_probe_command ASK_PASSWORD_DIR UNLOCK_FIFO_GLOB"

text \<open>The variables of \<open>classify_initrd_probe\<close>'s loop, and one turn of it; none is the early
  \<open>return UNKNOWN\<close>.\<close>

record probe_scan =
  migrate_states :: "string list"
  ask_ids :: "string list"
  unlock_running :: bool
  in_ask :: bool
  ended :: bool

definition scan_probe_line :: "string \<Rightarrow> probe_scan \<Rightarrow> probe_scan option" where
  "scan_probe_line line s =
     (if ended s then None
      else if in_ask s then
        (if line = PROBE_ASK_END then Some (s\<lparr>in_ask := False\<rparr>)
         else if startswith line ASK_ID_PREFIX then Some (s\<lparr>ask_ids := ask_ids s @ [after ASK_ID_PREFIX line]\<rparr>)
         else Some s)
      else if line = PROBE_ASK_BEGIN then Some (s\<lparr>in_ask := True\<rparr>)
      else if startswith line PROBE_MIGRATE_PREFIX
      then Some (s\<lparr>migrate_states := migrate_states s @ [after PROBE_MIGRATE_PREFIX line]\<rparr>)
      else if startswith line PROBE_FIFO_PREFIX then Some (s\<lparr>unlock_running := True\<rparr>)
      else if line = PROBE_END then Some (s\<lparr>ended := True\<rparr>)
      else None)"

fun scan_probe_lines :: "string list \<Rightarrow> probe_scan \<Rightarrow> probe_scan option" where
  "scan_probe_lines [] s = Some s"
| "scan_probe_lines (l # ls) s =
     (case scan_probe_line l s of None \<Rightarrow> None | Some t \<Rightarrow> scan_probe_lines ls t)"

definition no_probe :: probe_scan where
  "no_probe = \<lparr>migrate_states = [], ask_ids = [], unlock_running = False, in_ask = False, ended = False\<rparr>"

text \<open>The judgement on what was gathered: the migration unit's state, whether a helper runs,
  and the pending asks.\<close>

definition judge_initrd :: "string \<Rightarrow> bool \<Rightarrow> string list \<Rightarrow> initrd_state" where
  "judge_initrd migrate running asks =
     (if migrate = MIGRATE_UNIT_RUNNING \<and> MIGRATE_ASK_ID \<notin> set asks then Migrating
      else if running then Unlocking
      else if migrate = MIGRATE_UNIT_FAILED then Migration_Failed
      else if migrate \<noteq> MIGRATE_UNIT_RUNNING \<and> migrate \<noteq> MIGRATE_UNIT_FINISHED then Unknown_State
      else if asks = [] then Unlocked_Idle
      else if list_all (\<lambda>i. i = MIGRATE_ASK_ID \<or> startswith i CRYPTSETUP_ASK_ID_PREFIX) asks
      then Waiting_For_Passphrase
      else Unknown_State)"

definition classify_initrd_probe :: "string \<Rightarrow> initrd_state" where
  "classify_initrd_probe out =
     (case scan_probe_lines (splitlines out) no_probe of
        None \<Rightarrow> Unknown_State
      | Some s \<Rightarrow>
          if \<not> ended s \<or> in_ask s then Unknown_State
          else (case migrate_states s of
                  [migrate] \<Rightarrow> judge_initrd migrate (unlock_running s) (ask_ids s)
                | _ \<Rightarrow> Unknown_State))"

definition initrd_state :: "env \<Rightarrow> driver \<Rightarrow> box \<Rightarrow> initrd_reading io" where
  "initrd_state E D b =
     bnd (initrd_ssh_argv E D b INITRD_PROBE_COMMAND ''root'') (\<lambda>argv.
     bnd (run E argv (plain\<lparr>stdin_of := Some []\<rparr>)) (\<lambda>c.
     if returncode c \<noteq> 0
     then ret \<lparr>ir_state = Unknown_State,
               ir_cause = ''the probe's ssh exited '' @ show_int (returncode c) @ '': '' @
                 (let m = strip (stderr c) in if m = [] then ''no message'' else m)\<rparr>
     else
       (let verdict = classify_initrd_probe (stdout c) in
        ret \<lparr>ir_state = verdict,
             ir_cause = (if verdict = Unknown_State
                         then ''the probe printed '' @ strip (stdout c) @ '', which no known initrd state matches''
                         else [])\<rparr>)))"

subsection \<open>One run of the helper\<close>

record helper_run =
  hr_code :: int
  hr_stderr :: string
  hr_migrated :: bool
  hr_streamed :: bool

text \<open>\<open>iter(stream.readline, b"")\<close>, each line without its newline.\<close>

definition byte_lines :: "string \<Rightarrow> string list" where
  "byte_lines s =
     (let ls = split_on CHR 0x0A s in if last ls = [] then butlast ls else ls)"

text \<open>The streams of the session's process, once it was started with the passphrase.\<close>

definition helper_streams :: "string list \<Rightarrow> string \<Rightarrow> proc_answer \<Rightarrow> helper_run io" where
  "helper_streams argv passphrase ans =
     (case ans of
        Not_On_Path \<Rightarrow> raise (YoError ''not found on PATH'' [argv0 argv])
      | Finished code out err \<Rightarrow>
          sq (emit (Spawned argv (Some (passphrase @ NL))))
          (let ls = map decode_replace (byte_lines out) in
           sq (for_each ls (\<lambda>l. say l []))
           (ret \<lparr>hr_code = code,
                 hr_stderr = join_on CHR 0x0A (map decode_replace (byte_lines err)),
                 hr_migrated = list_ex (\<lambda>l. contains l (''id='' @ MIGRATE_ASK_ID)) ls,
                 hr_streamed = (ls \<noteq> [])\<rparr>)))"

definition helper_session :: "env \<Rightarrow> driver \<Rightarrow> box \<Rightarrow> string \<Rightarrow> helper_run io" where
  "helper_session E D b passphrase =
     bnd (initrd_endpoint_of E D b) (\<lambda>ep.
     sq (verify_initrd_listener D (ie_port ep))
     (bnd (initrd_ssh_argv E D b INITRD_UNLOCK_HELPER ''root'') (\<lambda>argv.
      bnd (reads (\<lambda>h. proc_ans E h argv (Some (passphrase @ NL)))) (helper_streams argv passphrase))))"

definition run_initrd_helper :: "env \<Rightarrow> driver \<Rightarrow> box \<Rightarrow> string \<Rightarrow> helper_run io" where
  "run_initrd_helper E D b passphrase = unlock_lock E b True (helper_session E D b passphrase)"

datatype verdict = Unlocked | Failed | Dropped | Key_Refused | Nothing_Listening

definition judge_helper_run :: "helper_run \<Rightarrow> verdict" where
  "judge_helper_run a =
     (case classify_initrd_attempt (hr_code a) (hr_stderr a) of
        Ran_Failed \<Rightarrow> if hr_code a = 0 then Unlocked else Failed
      | oc \<Rightarrow>
          if hr_streamed a then Dropped
          else if oc = Ssh_Error then Failed
          else if oc = Refused then Key_Refused
          else Nothing_Listening)"

definition initrd_root_ssh_command :: "env \<Rightarrow> driver \<Rightarrow> box \<Rightarrow> string \<Rightarrow> string io" where
  "initrd_root_ssh_command E D b remote =
     bnd (initrd_ssh_argv E D b remote ''root'') (\<lambda>argv. ret (shlex_join argv))"

definition helper_failure_message :: "env \<Rightarrow> driver \<Rightarrow> box \<Rightarrow> helper_run \<Rightarrow> message io" where
  "helper_failure_message E D b a =
     (let code = hr_code a; err = hr_stderr a in
      if code = SSH_UNREACHABLE then
        (if err \<noteq> [] then ret (err, [])
         else bnd (ssh_port D) (\<lambda>port. ret (''ssh failed with no message'', [show_nat port, show_int code])))
      else if code = HELPER_EXIT_MIGRATION_FAILED then
        bnd (initrd_root_ssh_command E D b ''journalctl -u yolobox-luks-migrate'') (\<lambda>inspect.
        ret (''encrypting the disk failed in the initrd; the plaintext is intact'', [inspect, err]))
      else if code = HELPER_EXIT_ROOT_MOUNT_FAILED then
        bnd (initrd_root_ssh_command E D b ''journalctl -b'') (\<lambda>inspect.
        ret (''the disk unlocked but the initrd could not mount it as /sysroot'', [inspect, err]))
      else if code = HELPER_EXIT_WRONG_KEY then
        ret (''the key in 1Password does not open the disk'', [LUKS_KEY_ITEM, LUKS_DEVICE])
      else if code = HELPER_EXIT_WATCH_LOST then ret (''the initrd helper lost its watch'', [err])
      else if code = HELPER_EXIT_NO_PASSPHRASE then ret (''no passphrase reached the initrd helper'', [])
      else if code = HELPER_EXIT_INTERNAL then ret (''the initrd helper failed unexpectedly'', [err])
      else ret (''the initrd helper failed'', [show_int code, err]))"

definition message_error :: "message \<Rightarrow> exn" where
  "message_error m = Exn Yo (Some m) 1"

subsection \<open>The unlock loop\<close>

definition vm_lost_error :: "driver \<Rightarrow> box \<Rightarrow> string option \<Rightarrow> string \<Rightarrow> exn" where
  "vm_lost_error D b status waiting_for =
     YoError ''the VM is not Running while yo waited for''
       [box_name b, (case status of None \<Rightarrow> ''not listed'' | Some s \<Rightarrow> s), waiting_for, vm_lost_hint D status]"

text \<open>\<open>deadline or now + budget\<close>: a deadline of zero counts as none, as in Python.\<close>

definition deadline_after ::
  "driver \<Rightarrow> box \<Rightarrow> rat option \<Rightarrow> string option \<Rightarrow> bool \<Rightarrow> rat \<Rightarrow> exn + rat option" where
  "deadline_after D b deadline status lima_is_starting t =
     (if status = Some RUNNING then
        Inr (Some (case deadline of
               Some d \<Rightarrow> if d = 0 then t + of_nat INITRD_WAIT_SECONDS else d
             | None \<Rightarrow> t + of_nat INITRD_WAIT_SECONDS))
      else if lima_is_starting \<and> status \<in> set LIMA_PRE_BOOT_STATUSES then Inr None
      else Inl (vm_lost_error D b status ''its initrd to take the disk passphrase''))"

definition initrd_timeout_error :: "env \<Rightarrow> driver \<Rightarrow> box \<Rightarrow> bool \<Rightarrow> exn io" where
  "initrd_timeout_error E D b key_was_refused =
     bnd (ssh_port D) (\<lambda>port.
     ret (if key_was_refused
          then YoError ''the sshd refused the key for root and for the user''
                 [show_nat port, drv_name D, host_user E, box_name b]
          else YoError ''never offered its initrd sshd''
                 [box_name b, show_nat port, show_nat INITRD_WAIT_SECONDS, drv_name D,
                  list_command D, initrd_unseen_hint D]))"

text \<open>
  The variables of \<open>unlock_disk\<close>'s loop. A starter is a process started before the loop;
  \<open>poll\<close> gives its exit code once it has ended.
\<close>

record unlock_vars =
  migrated_any :: bool
  session_ran :: bool
  deadline :: "rat option"
  refused_since :: "rat option"

type_synonym starter = "(history \<Rightarrow> int option) option"

text \<open>What the rest of a turn decides: leave with a result, or turn again.\<close>

datatype turn = Leave bool | Again unlock_vars

definition after_dropped :: "env \<Rightarrow> verdict \<Rightarrow> unlock_vars \<Rightarrow> unlock_vars io" where
  "after_dropped E v vars =
     (if v = Dropped
      then bnd (now E) (\<lambda>t. ret (vars\<lparr>session_ran := True, deadline := Some (t + of_nat INITRD_WAIT_SECONDS)\<rparr>))
      else ret vars)"

definition after_refused :: "env \<Rightarrow> verdict \<Rightarrow> unlock_vars \<Rightarrow> unlock_vars io" where
  "after_refused E v vars =
     (if v = Key_Refused
      then bnd (now E) (\<lambda>t. ret (vars\<lparr>refused_since :=
              (case refused_since vars of Some s \<Rightarrow> if s = 0 then Some t else Some s | None \<Rightarrow> Some t)\<rparr>))
      else ret vars)"

text \<open>The end of a turn: the budget, and a pause before the next one.\<close>

definition turn_end :: "env \<Rightarrow> driver \<Rightarrow> box \<Rightarrow> bool \<Rightarrow> unlock_vars \<Rightarrow> turn io" where
  "turn_end E D b lima_is_starting vars =
     bnd (vm_status D) (\<lambda>status.
     bnd (now E) (\<lambda>t.
     bnd (lift (deadline_after D b (deadline vars) status lima_is_starting t)) (\<lambda>dl.
     bnd (now E) (\<lambda>t'.
     if (case dl of None \<Rightarrow> False | Some d \<Rightarrow> t' > d)
     then bnd (initrd_timeout_error E D b (refused_since vars \<noteq> None)) raise
     else sq (sleep (of_nat INITRD_POLL_SECONDS)) (ret (Again (vars\<lparr>deadline := dl\<rparr>)))))))"

text \<open>The middle: a starter that ended before the initrd's sshd was ever reached.\<close>

definition turn_starter :: "env \<Rightarrow> driver \<Rightarrow> box \<Rightarrow> starter \<Rightarrow> unlock_vars \<Rightarrow> turn io" where
  "turn_starter E D b starter vars =
     (case starter of
        None \<Rightarrow> turn_end E D b False vars
      | Some poll \<Rightarrow>
          bnd (reads poll) (\<lambda>polled.
          case polled of
            None \<Rightarrow> turn_end E D b (\<not> session_ran vars) vars
          | Some code \<Rightarrow>
              if session_ran vars then turn_end E D b False vars
              else if code \<noteq> 0
              then raise (YoError ''the start command ended before the box offered its initrd sshd''
                            [start_command D, show_int code, box_name b])
              else
                bnd (stage2_up E D b) (\<lambda>up.
                if up then ret (Leave (migrated_any vars)) else turn_end E D b False vars)))"

definition unlock_turn :: "env \<Rightarrow> driver \<Rightarrow> box \<Rightarrow> string \<Rightarrow> starter \<Rightarrow> unlock_vars \<Rightarrow> turn io" where
  "unlock_turn E D b passphrase starter vars =
     bnd (run_initrd_helper E D b passphrase) (\<lambda>a.
     let vars = vars\<lparr>migrated_any := migrated_any vars \<or> hr_migrated a\<rparr>; v = judge_helper_run a in
     sq (when_do (v = Unlocked \<or> v = Dropped) (for_each (splitlines (hr_stderr a)) (\<lambda>l. warn l [])))
     (if v = Unlocked then ret (Leave (migrated_any vars))
      else if v = Failed then bnd (helper_failure_message E D b a) (\<lambda>m. raise (message_error m))
      else
        bnd (after_dropped E v vars) (\<lambda>vars.
        bnd (if v = Dropped \<or> v = Key_Refused then stage2_up E D b else ret False) (\<lambda>up.
        if up then ret (Leave (migrated_any vars))
        else bnd (after_refused E v vars) (\<lambda>vars. turn_starter E D b starter vars)))))"

text \<open>The loop with fuel: none when it runs out before the loop is left.\<close>

fun unlock_loop :: "nat \<Rightarrow> env \<Rightarrow> driver \<Rightarrow> box \<Rightarrow> string \<Rightarrow> starter \<Rightarrow> unlock_vars \<Rightarrow> bool option io" where
  "unlock_loop 0 E D b passphrase starter vars = ret None"
| "unlock_loop (Suc n) E D b passphrase starter vars =
     bnd (unlock_turn E D b passphrase starter vars) (\<lambda>t.
     case t of
       Leave r \<Rightarrow> ret (Some r)
     | Again vars' \<Rightarrow> unlock_loop n E D b passphrase starter vars')"

definition no_unlock :: unlock_vars where
  "no_unlock = \<lparr>migrated_any = False, session_ran = False, deadline = None, refused_since = None\<rparr>"

definition unlock_disk :: "nat \<Rightarrow> env \<Rightarrow> driver \<Rightarrow> box \<Rightarrow> string \<Rightarrow> starter \<Rightarrow> bool option io" where
  "unlock_disk n E D b passphrase starter =
     sq (warn ''waiting for the initrd to ask for its disk passphrase'' [box_name b])
        (unlock_loop n E D b passphrase starter no_unlock)"

subsection \<open>Waiting for the operator's login\<close>

definition operator_turn :: "env \<Rightarrow> driver \<Rightarrow> box \<Rightarrow> rat \<Rightarrow> bool io" where
  "operator_turn E D b dl =
     bnd (probe_sshd E D b (host_user E)) (\<lambda>(outcome, err).
     if outcome = Answered then ret True
     else
       bnd (vm_status D) (\<lambda>status.
       if status \<noteq> Some RUNNING then raise (vm_lost_error D b status ''its sshd to accept the operator'')
       else if outcome = Ssh_Error \<or> outcome = Ran_Failed
       then raise (YoError ''ssh to the box as the operator failed''
                     [box_name b, (let m = strip err in if m = [] then ''no message'' else m)])
       else
         bnd (now E) (\<lambda>t.
         if t > dl
         then raise (YoError ''the disk is unlocked but the box is not reachable as the operator''
                       [box_name b, yo_cmd b [''status'']])
         else sq (sleep (of_nat OPERATOR_POLL_SECONDS)) (ret False))))"

fun operator_loop :: "nat \<Rightarrow> env \<Rightarrow> driver \<Rightarrow> box \<Rightarrow> rat \<Rightarrow> unit option io" where
  "operator_loop 0 E D b dl = ret None"
| "operator_loop (Suc n) E D b dl =
     bnd (operator_turn E D b dl) (\<lambda>reached. if reached then ret (Some ()) else operator_loop n E D b dl)"

definition wait_for_operator :: "nat \<Rightarrow> env \<Rightarrow> driver \<Rightarrow> box \<Rightarrow> unit option io" where
  "wait_for_operator n E D b =
     bnd (now E) (\<lambda>t. operator_loop n E D b (t + of_nat OPERATOR_WAIT_SECONDS))"

subsection \<open>What the verdicts prove\<close>

lemma judge_waiting_iff:
  "judge_initrd m r asks = Waiting_For_Passphrase \<longleftrightarrow>
     \<not> r \<and> asks \<noteq> [] \<and> list_all (\<lambda>i. i = MIGRATE_ASK_ID \<or> startswith i CRYPTSETUP_ASK_ID_PREFIX) asks
     \<and> (m = MIGRATE_UNIT_FINISHED \<or> m = MIGRATE_UNIT_RUNNING \<and> MIGRATE_ASK_ID \<in> set asks)"
proof -
  have "MIGRATE_UNIT_FINISHED \<noteq> MIGRATE_UNIT_FAILED" "MIGRATE_UNIT_RUNNING \<noteq> MIGRATE_UNIT_FAILED"
    "MIGRATE_UNIT_FINISHED \<noteq> MIGRATE_UNIT_RUNNING"
    by (simp_all add: MIGRATE_UNIT_FINISHED_def MIGRATE_UNIT_FAILED_def MIGRATE_UNIT_RUNNING_def)
  then show ?thesis by (auto simp: judge_initrd_def)
qed

text \<open>The lines the probe command prints, from the unit's state, the FIFOs and the lines of the
  pending ask files.\<close>

definition ask_lines :: "string list \<Rightarrow> string list" where
  "ask_lines content = PROBE_ASK_BEGIN # content @ [PROBE_ASK_END]"

definition probe_lines :: "string \<Rightarrow> string list \<Rightarrow> string list list \<Rightarrow> string list" where
  "probe_lines m fifos asks =
     (PROBE_MIGRATE_PREFIX @ m) # map (\<lambda>f. PROBE_FIFO_PREFIX @ f) fifos @
     concat (map ask_lines asks) @ [PROBE_END]"

definition ids_of :: "string list \<Rightarrow> string list" where
  "ids_of content = map (after ASK_ID_PREFIX) (filter (\<lambda>l. startswith l ASK_ID_PREFIX) content)"

definition unlines :: "string list \<Rightarrow> string" where
  "unlines ls = concat (map (\<lambda>l. l @ NL) ls)"

lemma splitlines_unlines: "list_all clean_line ls \<Longrightarrow> splitlines (unlines ls) = ls"
  by (induction ls) (simp_all add: unlines_def NL_def splitlines_LF)

lemma scan_probe_lines_append:
  "scan_probe_lines (ls @ ks) s =
     (case scan_probe_lines ls s of None \<Rightarrow> None | Some t \<Rightarrow> scan_probe_lines ks t)"
  by (induction ls arbitrary: s) (auto split: option.splits)

lemma scan_ask_content:
  assumes "PROBE_ASK_END \<notin> set content" and "in_ask s" and "\<not> ended s"
  shows "scan_probe_lines content s = Some (s\<lparr>ask_ids := ask_ids s @ ids_of content\<rparr>)"
  using assms
proof (induction content arbitrary: s)
  case Nil
  then show ?case by (simp add: ids_of_def)
next
  case (Cons l ls)
  show ?case
  proof (cases "startswith l ASK_ID_PREFIX")
    case True
    let ?t = "s\<lparr>ask_ids := ask_ids s @ [after ASK_ID_PREFIX l]\<rparr>"
    from Cons.prems True have "scan_probe_line l s = Some ?t" by (auto simp: scan_probe_line_def)
    moreover have "scan_probe_lines ls ?t = Some (?t\<lparr>ask_ids := ask_ids ?t @ ids_of ls\<rparr>)"
      using Cons.prems by (intro Cons.IH) auto
    ultimately show ?thesis using True by (simp add: ids_of_def)
  next
    case False
    with Cons.prems have "scan_probe_line l s = Some s" by (auto simp: scan_probe_line_def)
    with Cons False show ?thesis by (simp add: ids_of_def)
  qed
qed

lemma scan_asks:
  assumes "\<forall>c \<in> set asks. PROBE_ASK_END \<notin> set c" and "\<not> in_ask s" and "\<not> ended s"
  shows "scan_probe_lines (concat (map ask_lines asks)) s
    = Some (s\<lparr>ask_ids := ask_ids s @ concat (map ids_of asks)\<rparr>)"
  using assms
proof (induction asks arbitrary: s)
  case Nil
  then show ?case by simp
next
  case (Cons c cs)
  let ?t = "s\<lparr>ask_ids := ask_ids s @ ids_of c\<rparr>"
  have "scan_probe_line PROBE_ASK_BEGIN s = Some (s\<lparr>in_ask := True\<rparr>)"
    using Cons.prems by (simp add: scan_probe_line_def)
  moreover have "scan_probe_lines c (s\<lparr>in_ask := True\<rparr>) = Some (?t\<lparr>in_ask := True\<rparr>)"
    using Cons.prems by (subst scan_ask_content) auto
  moreover have "scan_probe_line PROBE_ASK_END (?t\<lparr>in_ask := True\<rparr>) = Some ?t"
    using Cons.prems by (simp add: scan_probe_line_def)
  moreover have "scan_probe_lines (concat (map ask_lines cs)) ?t
      = Some (?t\<lparr>ask_ids := ask_ids ?t @ concat (map ids_of cs)\<rparr>)"
    using Cons.prems by (intro Cons.IH) auto
  moreover have "concat (map ask_lines (c # cs))
      = PROBE_ASK_BEGIN # c @ PROBE_ASK_END # concat (map ask_lines cs)"
    by (simp add: ask_lines_def)
  ultimately show ?case by (simp add: scan_probe_lines_append)
qed

lemma probe_prefix_clash:
  "\<not> startswith (PROBE_FIFO_PREFIX @ x) PROBE_MIGRATE_PREFIX" "PROBE_FIFO_PREFIX @ x \<noteq> PROBE_ASK_BEGIN"
  "PROBE_MIGRATE_PREFIX @ x \<noteq> PROBE_ASK_BEGIN" "PROBE_END \<noteq> PROBE_ASK_BEGIN"
  "\<not> startswith PROBE_END PROBE_MIGRATE_PREFIX" "\<not> startswith PROBE_END PROBE_FIFO_PREFIX"
  by (simp_all add: probe_words startswith_def)

lemma scan_fifos:
  assumes "\<not> in_ask s" and "\<not> ended s"
  shows "scan_probe_lines (map (\<lambda>f. PROBE_FIFO_PREFIX @ f) fifos) s
    = Some (s\<lparr>unlock_running := unlock_running s \<or> fifos \<noteq> []\<rparr>)"
  using assms
proof (induction fifos arbitrary: s)
  case Nil
  then show ?case by simp
next
  case (Cons f fs)
  then have "scan_probe_line (PROBE_FIFO_PREFIX @ f) s = Some (s\<lparr>unlock_running := True\<rparr>)"
    by (simp add: scan_probe_line_def probe_prefix_clash)
  moreover have "scan_probe_lines (map (\<lambda>f. PROBE_FIFO_PREFIX @ f) fs) (s\<lparr>unlock_running := True\<rparr>)
      = Some (s\<lparr>unlock_running := True\<rparr>)"
    using Cons by (subst Cons.IH) auto
  ultimately show ?case by simp
qed

lemma classify_probe_lines:
  assumes "list_all clean_line (probe_lines m fifos asks)" and "\<forall>c \<in> set asks. PROBE_ASK_END \<notin> set c"
  shows "classify_initrd_probe (unlines (probe_lines m fifos asks))
    = judge_initrd m (fifos \<noteq> []) (concat (map ids_of asks))"
proof -
  let ?s1 = "no_probe\<lparr>migrate_states := [m]\<rparr>"
  let ?s2 = "?s1\<lparr>unlock_running := fifos \<noteq> []\<rparr>"
  let ?s3 = "?s2\<lparr>ask_ids := concat (map ids_of asks)\<rparr>"
  have "scan_probe_line (PROBE_MIGRATE_PREFIX @ m) no_probe = Some ?s1"
    by (simp add: scan_probe_line_def no_probe_def probe_prefix_clash)
  moreover have "scan_probe_lines (map (\<lambda>f. PROBE_FIFO_PREFIX @ f) fifos) ?s1 = Some ?s2"
    by (subst scan_fifos) (simp_all add: no_probe_def)
  moreover have "scan_probe_lines (concat (map ask_lines asks)) ?s2 = Some ?s3"
    using assms(2) by (subst scan_asks) (simp_all add: no_probe_def)
  moreover have "scan_probe_line PROBE_END ?s3 = Some (?s3\<lparr>ended := True\<rparr>)"
    by (simp add: scan_probe_line_def no_probe_def probe_prefix_clash)
  ultimately have "scan_probe_lines (probe_lines m fifos asks) no_probe = Some (?s3\<lparr>ended := True\<rparr>)"
    by (simp add: probe_lines_def scan_probe_lines_append)
  then show ?thesis
    using splitlines_unlines [OF assms(1)]
    by (simp add: classify_initrd_probe_def no_probe_def)
qed

text \<open>What a verdict of an idle wait says of any output, however it came about.\<close>

definition outside_ask :: "string list \<Rightarrow> string \<Rightarrow> bool" where
  "outside_ask ls l \<longleftrightarrow> (\<exists>ks s. prefix (ks @ [l]) ls \<and> scan_probe_lines ks no_probe = Some s \<and> \<not> in_ask s)"

lemma scan_keeps_running: "scan_probe_line l s = Some t \<Longrightarrow> unlock_running s \<Longrightarrow> unlock_running t"
  by (auto simp: scan_probe_line_def split: if_splits)

lemma scan_lines_keep_running:
  "scan_probe_lines ls s = Some t \<Longrightarrow> unlock_running s \<Longrightarrow> unlock_running t"
  by (induction ls arbitrary: s) (auto simp: scan_keeps_running split: option.splits)

lemma classify_waiting:
  assumes "classify_initrd_probe out = Waiting_For_Passphrase"
  shows "\<exists>s m. scan_probe_lines (splitlines out) no_probe = Some s \<and> ended s \<and> \<not> in_ask s
      \<and> migrate_states s = [m] \<and> judge_initrd m False (ask_ids s) = Waiting_For_Passphrase"
    and "outside_ask (splitlines out) l \<Longrightarrow> \<not> startswith l PROBE_FIFO_PREFIX"
proof -
  from assms obtain s m where s: "scan_probe_lines (splitlines out) no_probe = Some s"
    "ended s" "\<not> in_ask s" "migrate_states s = [m]" "judge_initrd m (unlock_running s) (ask_ids s) = Waiting_For_Passphrase"
    by (auto simp: classify_initrd_probe_def split: option.splits if_splits list.splits)
  then have idle: "\<not> unlock_running s" by (simp add: judge_waiting_iff)
  with s show "\<exists>s m. scan_probe_lines (splitlines out) no_probe = Some s \<and> ended s \<and> \<not> in_ask s
      \<and> migrate_states s = [m] \<and> judge_initrd m False (ask_ids s) = Waiting_For_Passphrase" by auto
  assume "outside_ask (splitlines out) l"
  then obtain ks rest t where ks: "splitlines out = ks @ [l] @ rest"
    "scan_probe_lines ks no_probe = Some t" "\<not> in_ask t"
    by (auto simp: outside_ask_def prefix_def)
  with s(1) obtain u where u: "scan_probe_line l t = Some u" "scan_probe_lines rest u = Some s"
    by (auto simp: scan_probe_lines_append split: option.splits)
  show "\<not> startswith l PROBE_FIFO_PREFIX"
  proof
    assume l: "startswith l PROBE_FIFO_PREFIX"
    then obtain x where "l = PROBE_FIFO_PREFIX @ x" by (auto simp: startswith_iff)
    with u(1) ks(3) have "unlock_running u"
      by (auto simp: scan_probe_line_def probe_prefix_clash split: if_splits)
    with u(2) idle show False using scan_lines_keep_running by blast
  qed
qed

lemma boot_stage_Initrd:
  assumes "boot_stage E D b h = (Inr Initrd, t)"
  obtains u v banner where "stage2_up E D b h = (Inr False, u)" "ssh_banner E D b u = (Inr banner, v)"
    "STAGE2_SSH_BANNER_MARK \<notin> set (split_words banner)" "sshd_answers E D b ''root'' v = (Inr Answered, t)"
proof -
  from assms obtain up u where up: "stage2_up E D b h = (Inr up, u)"
    and k: "(if up then ret Stage2 else bnd (ssh_banner E D b) (\<lambda>banner.
       if STAGE2_SSH_BANNER_MARK \<in> set (split_words banner) then ret No_Stage
       else bnd (sshd_answers E D b ''root'') (\<lambda>root_probe.
         if root_probe = Answered then ret Initrd
         else ret (if banner \<noteq> [] then Unknown_Stage else No_Stage)))) u = (Inr Initrd, t)"
    unfolding boot_stage_def by (rule bnd_InrE)
  from k have "\<not> up" by (auto simp: ret_def)
  with k obtain banner v where banner: "ssh_banner E D b u = (Inr banner, v)"
    and k2: "(if STAGE2_SSH_BANNER_MARK \<in> set (split_words banner) then ret No_Stage
       else bnd (sshd_answers E D b ''root'') (\<lambda>root_probe.
         if root_probe = Answered then ret Initrd
         else ret (if banner \<noteq> [] then Unknown_Stage else No_Stage))) v = (Inr Initrd, t)"
    by (auto elim: bnd_InrE)
  from k2 have mark: "STAGE2_SSH_BANNER_MARK \<notin> set (split_words banner)"
    by (auto simp: ret_def split: if_splits)
  with k2 have "bnd (sshd_answers E D b ''root'') (\<lambda>root_probe.
         if root_probe = Answered then ret Initrd
         else ret (if banner \<noteq> [] then Unknown_Stage else No_Stage)) v = (Inr Initrd, t)"
    by (simp only: if_False)
  then obtain r w where r: "sshd_answers E D b ''root'' v = (Inr r, w)"
    and k3: "(if r = Answered then ret Initrd :: boot_stage io
         else ret (if banner \<noteq> [] then Unknown_Stage else No_Stage)) w = (Inr Initrd, t)"
    by (rule bnd_InrE)
  from k3 have "r = Answered" "w = t" by (auto simp: ret_def split: if_splits)
  with up \<open>\<not> up\<close> banner mark r that show thesis by simp
qed

lemma banner_cap: "length banner \<le> 255 \<Longrightarrow> length (read_banner banner chunks) \<le> 255"
  by (induction banner chunks rule: read_banner.induct) (auto simp: SSH_BANNER_MAX_BYTES_def)

text \<open>The banner does not depend on how TCP cut the line into pieces.\<close>

lemma takeWhile_stop: "x \<in> set xs \<Longrightarrow> takeWhile (\<lambda>c. c \<noteq> x) (xs @ ys) = takeWhile (\<lambda>c. c \<noteq> x) xs"
  by (induction xs) auto

lemma read_banner_line:
  "[] \<notin> set chunks \<Longrightarrow> length banner \<le> 255 \<Longrightarrow>
   takeWhile (\<lambda>c. c \<noteq> CHR 0x0A) (read_banner banner chunks)
     = takeWhile (\<lambda>c. c \<noteq> CHR 0x0A) (take 255 (banner @ concat chunks))"
proof (induction banner chunks rule: read_banner.induct)
  case (1 banner)
  then show ?case by simp
next
  case (2 banner chunk chunks)
  show ?case
  proof (cases "CHR 0x0A \<in> set banner")
    case True
    with "2.prems" show ?thesis by (simp add: takeWhile_stop take_append)
  next
    case no_nl: False
    show ?thesis
    proof (cases "length banner \<ge> 255")
      case True
      with "2.prems" show ?thesis by (simp add: SSH_BANNER_MAX_BYTES_def take_append)
    next
      case False
      then have go: "\<not> (CHR 0x0A \<in> set banner \<or> length banner \<ge> SSH_BANNER_MAX_BYTES \<or> chunk = [])"
        using no_nl "2.prems" by (auto simp: SSH_BANNER_MAX_BYTES_def)
      let ?b = "banner @ take (SSH_BANNER_MAX_BYTES - length banner) chunk"
      have "take 255 (?b @ concat chunks) = take 255 (banner @ chunk @ concat chunks)"
        using False
        by (cases "length chunk \<le> 255 - length banner") (simp_all add: SSH_BANNER_MAX_BYTES_def take_append)
      moreover have "length ?b \<le> 255" using False by (simp add: SSH_BANNER_MAX_BYTES_def)
      ultimately show ?thesis using "2.IH" [OF go] go "2.prems" by simp
    qed
  qed
qed

subsection \<open>When the passphrase is sent\<close>

text \<open>
  Whether this yo holds a lock after a history, and the events that hand a secret's worth: an input
  to a process started beside yo, as the unlock helper's is, or to one that is neither an ssh on
  yo's configuration nor fzf.
\<close>

definition lock_step :: "string \<Rightarrow> bool \<Rightarrow> event \<Rightarrow> bool" where
  "lock_step l held e =
     (case e of Took_Lock x \<Rightarrow> held \<or> x = l | Dropped_Lock x \<Rightarrow> held \<and> x \<noteq> l | _ \<Rightarrow> held)"

definition holds :: "string \<Rightarrow> history \<Rightarrow> bool" where
  "holds l h = foldl (lock_step l) False h"

definition is_send :: "event \<Rightarrow> bool" where
  "is_send e \<longleftrightarrow>
     (case e of Spawned argv input \<Rightarrow> input \<noteq> None | Ran argv input \<Rightarrow> \<not> fed argv input | _ \<Rightarrow> False)"

definition sends_locked :: "string \<Rightarrow> history \<Rightarrow> bool" where
  "sends_locked l h \<longleftrightarrow> (\<forall>k < length h. is_send (h ! k) \<longrightarrow> holds l (take k h))"

definition quiet_events :: "event set" where
  "quiet_events = {e. \<not> is_send e \<and> (\<forall>l. e \<noteq> Took_Lock l \<and> e \<noteq> Dropped_Lock l)}"

lemma quiet_simps [simp]:
  "Ran a i \<in> quiet_events \<longleftrightarrow> fed a i" "Said m \<in> quiet_events" "Warned m \<in> quiet_events" "Wrote p c md \<in> quiet_events"
  "Deleted p \<in> quiet_events" "Made_Dir p \<in> quiet_events" "Slept t \<in> quiet_events"
  "Called_Agent p q \<in> quiet_events" "Dialled p n \<in> quiet_events" "Execed a \<in> quiet_events"
  "Did p a \<in> quiet_events" "Spawned a None \<in> quiet_events"
  by (simp_all add: quiet_events_def is_send_def)

lemma sends_locked_append:
  "sends_locked l (h @ es) \<longleftrightarrow>
     sends_locked l h \<and> (\<forall>k < length es. is_send (es ! k) \<longrightarrow> holds l (h @ take k es))"
proof -
  have "(\<forall>k < length h + length es. P k) \<longleftrightarrow> (\<forall>k < length h. P k) \<and> (\<forall>k < length es. P (length h + k))" for P
    by (metis (no_types, lifting) add_less_cancel_left le_add1 le_add_diff_inverse less_le_trans not_less)
  then show ?thesis
    unfolding sends_locked_def length_append by (simp add: nth_append)
qed

lemma holds_append: "holds l (h @ es) = foldl (lock_step l) (holds l h) es"
  by (simp add: holds_def)

lemma foldl_quiet: "set es \<subseteq> quiet_events \<Longrightarrow> foldl (lock_step l) b es = b"
  by (induction es arbitrary: b) (auto simp: lock_step_def quiet_events_def split: event.splits)

lemma quiet_keeps:
  assumes "logs_only quiet_events m"
  shows "keeps (\<lambda>h. sends_locked l h \<and> \<not> holds l h) m"
proof (rule keepsI)
  fix h r t
  assume I: "sends_locked l h \<and> \<not> holds l h" and "m h = (r, t)"
  with assms obtain es where es: "t = h @ es" "set es \<subseteq> quiet_events" by (blast elim: logs_onlyE)
  then have "\<forall>k < length es. \<not> is_send (es ! k)" using nth_mem by (fastforce simp: quiet_events_def)
  with es I show "sends_locked l t \<and> \<not> holds l t"
    by (simp add: sends_locked_append holds_append foldl_quiet)
qed

definition send_events :: "event set" where
  "send_events = {e. \<forall>l. e \<noteq> Took_Lock l \<and> e \<noteq> Dropped_Lock l}"

lemma foldl_send: "set es \<subseteq> send_events \<Longrightarrow> foldl (lock_step l) b es = b"
  by (induction es arbitrary: b) (auto simp: lock_step_def send_events_def split: event.splits)

lemma unlock_lock_run:
  assumes "logs_only send_events m" and "unlock_lock E b True m h = (r, t)"
  shows "\<exists>es. t = h @ [Made_Dir (state_dir E), Took_Lock (unlock_lock_path E b)] @ es @ [Dropped_Lock (unlock_lock_path E b)]
    \<and> set es \<subseteq> send_events"
proof -
  let ?h = "h @ [Made_Dir (state_dir E), Took_Lock (unlock_lock_path E b)]"
  obtain q u where q: "m ?h = (q, u)" by fastforce
  with assms(1) obtain es where "u = ?h @ es" "set es \<subseteq> send_events" by (rule logs_onlyE)
  moreover from assms(2) q have "t = u @ [Dropped_Lock (unlock_lock_path E b)]"
    by (simp add: unlock_lock_def host_state_lock_def with_lock_def private_dir_def emit_def
          modifies_def bnd_def reads_def finally_do_def unlock_lock_path_def)
  ultimately show ?thesis by auto
qed

lemma unlock_lock_keeps:
  assumes "logs_only send_events m"
  shows "keeps (\<lambda>h. sends_locked (unlock_lock_path E b) h \<and> \<not> holds (unlock_lock_path E b) h)
    (unlock_lock E b True m)"
proof (rule keepsI)
  fix h r t
  let ?l = "unlock_lock_path E b"
  assume I: "sends_locked ?l h \<and> \<not> holds ?l h" and "unlock_lock E b True m h = (r, t)"
  with unlock_lock_run [OF assms] obtain es where
    t: "t = (h @ [Made_Dir (state_dir E), Took_Lock ?l]) @ es @ [Dropped_Lock ?l]"
    and es: "set es \<subseteq> send_events" by fastforce
  have head: "sends_locked ?l (h @ [Made_Dir (state_dir E), Took_Lock ?l])"
    "holds ?l (h @ [Made_Dir (state_dir E), Took_Lock ?l])"
    using I by (auto simp: sends_locked_append holds_append lock_step_def is_send_def less_Suc_eq nth_Cons')
  have "holds ?l ((h @ [Made_Dir (state_dir E), Took_Lock ?l]) @ take k es)" for k
    using head(2) foldl_send [of "take k es"] es set_take_subset [of k es]
    unfolding holds_append [of _ _ "take k es"] by blast
  then have "sends_locked ?l t"
    using head(1) unfolding t sends_locked_append [of _ "h @ [Made_Dir (state_dir E), Took_Lock ?l]"]
    by (auto simp: nth_append is_send_def less_Suc_eq)
  moreover have "\<not> holds ?l t"
    using foldl_send [OF es] unfolding t holds_append by (simp add: lock_step_def)
  ultimately show "sends_locked ?l t \<and> \<not> holds ?l t" by simp
qed

lemma logs_initrd_endpoint:
  "logs_only A (ssh_port D) \<Longrightarrow> logs_only A (initrd_endpoint_of E D b)"
  unfolding initrd_endpoint_of_def by (intro footprint)

lemma logs_initrd_ssh_argv:
  "logs_only A (ssh_port D) \<Longrightarrow> logs_only A (initrd_ssh_argv E D b r u)"
  unfolding initrd_ssh_argv_def by (intro footprint logs_initrd_endpoint)

text \<open>A host driver whose readings neither start a process with input nor touch yo's locks.\<close>

definition quiet_driver :: "driver \<Rightarrow> bool" where
  "quiet_driver D \<longleftrightarrow> logs_only quiet_events (ssh_port D) \<and> logs_only quiet_events (vm_status D)
     \<and> (\<forall>p. logs_only quiet_events (verify_initrd_listener D p))"

lemma quiet_send: "quiet_events \<subseteq> send_events"
  by (auto simp: quiet_events_def send_events_def)

lemma logs_helper_session:
  assumes "quiet_driver D"
  shows "logs_only send_events (helper_session E D b passphrase)"
proof -
  have q: "logs_only send_events (ssh_port D)" "logs_only send_events (verify_initrd_listener D p)" for p
    using assms quiet_send by (auto simp: quiet_driver_def intro: logs_only_mono)
  have e: "Spawned a i \<in> send_events" "Said m \<in> send_events" for a i m
    by (simp_all add: send_events_def)
  show ?thesis
    unfolding helper_session_def helper_streams_def
    by (intro footprint logs_initrd_endpoint logs_initrd_ssh_argv q)
       (auto split: proc_answer.split simp: Let_def intro!: footprint e)
qed

lemma keeps_run_initrd_helper:
  assumes "quiet_driver D"
  shows "keeps (\<lambda>h. sends_locked (unlock_lock_path E b) h \<and> \<not> holds (unlock_lock_path E b) h)
    (run_initrd_helper E D b passphrase)"
  unfolding run_initrd_helper_def by (rule unlock_lock_keeps) (rule logs_helper_session [OF assms])

lemma quiet_probes:
  assumes "quiet_driver D"
  shows "logs_only quiet_events (probe_sshd E D b u)" "logs_only quiet_events (sshd_answers E D b u)"
    "logs_only quiet_events (stage2_up E D b)" "logs_only quiet_events (ssh_banner E D b)"
    "logs_only quiet_events (boot_stage E D b)" "logs_only quiet_events (initrd_state E D b)"
    "logs_only quiet_events (initrd_root_ssh_command E D b r)"
proof -
  have p: "logs_only quiet_events (ssh_port D)" using assms by (simp add: quiet_driver_def)
  show 1: "logs_only quiet_events (probe_sshd E D b u)" for u
    unfolding probe_sshd_def by (intro footprint logs_initrd_ssh_argv p) simp
  show 2: "logs_only quiet_events (sshd_answers E D b u)" for u
    unfolding sshd_answers_def by (intro footprint 1)
  show 3: "logs_only quiet_events (stage2_up E D b)"
    unfolding stage2_up_def by (intro footprint 2)
  show 4: "logs_only quiet_events (ssh_banner E D b)"
    unfolding ssh_banner_def by (intro footprint logs_initrd_endpoint p) simp
  show "logs_only quiet_events (boot_stage E D b)"
    unfolding boot_stage_def by (intro footprint 2 3 4)
  show "logs_only quiet_events (initrd_state E D b)"
    unfolding initrd_state_def Let_def by (intro footprint logs_initrd_ssh_argv p) simp
  show "logs_only quiet_events (initrd_root_ssh_command E D b r)"
    unfolding initrd_root_ssh_command_def by (intro footprint logs_initrd_ssh_argv p)
qed

lemma quiet_turn_parts:
  assumes "quiet_driver D"
  shows "logs_only quiet_events (helper_failure_message E D b a)"
    "logs_only quiet_events (turn_starter E D b starter vars)"
proof -
  have p: "logs_only quiet_events (ssh_port D)" "logs_only quiet_events (vm_status D)"
    using assms by (simp_all add: quiet_driver_def)
  show "logs_only quiet_events (helper_failure_message E D b a)"
    unfolding helper_failure_message_def Let_def by (intro footprint p quiet_probes [OF assms])
  have "logs_only quiet_events (turn_end E D b x vars)" for x vars
    unfolding turn_end_def initrd_timeout_error_def by (intro footprint p) simp
  then show "logs_only quiet_events (turn_starter E D b starter vars)"
    unfolding turn_starter_def by (intro footprint quiet_probes [OF assms])
qed

lemma keeps_unlock_turn:
  assumes "quiet_driver D"
  shows "keeps (\<lambda>h. sends_locked (unlock_lock_path E b) h \<and> \<not> holds (unlock_lock_path E b) h)
    (unlock_turn E D b passphrase starter vars)"
  unfolding unlock_turn_def Let_def after_dropped_def after_refused_def
  by (intro keeps_bnd keeps_if keeps_when keeps_for_each keeps_ret keeps_raise
        keeps_run_initrd_helper [OF assms] quiet_keeps quiet_turn_parts [OF assms]
        quiet_probes [OF assms] logs_warn logs_now quiet_simps)

lemma keeps_unlock_loop:
  assumes "quiet_driver D"
  shows "keeps (\<lambda>h. sends_locked (unlock_lock_path E b) h \<and> \<not> holds (unlock_lock_path E b) h)
    (unlock_loop n E D b passphrase starter vars)"
proof (induction n arbitrary: vars)
  case 0
  show ?case by (simp add: keeps_ret)
next
  case (Suc n)
  show ?case
    by (auto intro!: keeps_bnd keeps_unlock_turn [OF assms] split: turn.split intro: keeps_ret Suc)
qed

subsection \<open>The loops end\<close>

text \<open>A clock that never runs back, and that a sleep moves on by at least its length.\<close>

definition steady_clock :: "env \<Rightarrow> bool" where
  "steady_clock E \<longleftrightarrow>
     (\<forall>h e. clock E h \<le> clock E (h @ [e])) \<and> (\<forall>h t. clock E h + t \<le> clock E (h @ [Slept t]))"

lemma clock_append: "steady_clock E \<Longrightarrow> clock E h \<le> clock E (h @ es)"
proof (induction es rule: rev_induct)
  case (snoc e es)
  then have "clock E h \<le> clock E (h @ es)" by simp
  also have "\<dots> \<le> clock E ((h @ es) @ [e])" using snoc.prems by (simp only: steady_clock_def)
  finally show ?case by simp
qed simp

lemma clock_run: "steady_clock E \<Longrightarrow> logs_only A m \<Longrightarrow> m h = (r, t) \<Longrightarrow> clock E h \<le> clock E t"
  using clock_append by (blast elim: logs_onlyE)

lemma sleep_run: "sleep q h = (r, t) \<Longrightarrow> t = h @ [Slept q]"
  by (auto simp: sleep_def emit_def modifies_def)

lemma now_run: "now E h = (Inr x, t) \<Longrightarrow> x = clock E h \<and> t = h"
  by (auto simp: now_def reads_def)

lemma operator_turn_again:
  assumes "steady_clock E" and "quiet_driver D" and "operator_turn E D b dl h = (Inr False, t)"
  shows "clock E h \<le> dl \<and> clock E h + 3 \<le> clock E t"
proof -
  from assms(3) obtain outcome err u where u: "probe_sshd E D b (host_user E) h = (Inr (outcome, err), u)"
    and "outcome \<noteq> Answered"
    and "bnd (vm_status D) (\<lambda>status.
       if status \<noteq> Some RUNNING then raise (vm_lost_error D b status ''its sshd to accept the operator'')
       else if outcome = Ssh_Error \<or> outcome = Ran_Failed
       then raise (YoError ''ssh to the box as the operator failed''
                     [box_name b, (let m = strip err in if m = [] then ''no message'' else m)])
       else
         bnd (now E) (\<lambda>t.
         if t > dl
         then raise (YoError ''the disk is unlocked but the box is not reachable as the operator''
                       [box_name b, yo_cmd b [''status'']])
         else sq (sleep (of_nat OPERATOR_POLL_SECONDS)) (ret False))) u = (Inr False, t)"
    unfolding operator_turn_def by (auto elim!: bnd_InrE simp: ret_def split: if_splits)
  then obtain status v where v: "vm_status D u = (Inr status, v)"
    and "bnd (now E) (\<lambda>t.
         if t > dl
         then raise (YoError ''the disk is unlocked but the box is not reachable as the operator''
                       [box_name b, yo_cmd b [''status'']])
         else sq (sleep (of_nat OPERATOR_POLL_SECONDS)) (ret False)) v = (Inr False, t)"
    by (auto elim!: bnd_InrE simp: raise_def split: if_splits)
  then have t: "clock E v \<le> dl" "t = v @ [Slept 3]"
    by (auto elim!: bnd_InrE dest!: now_run sleep_run simp: raise_def ret_def OPERATOR_POLL_SECONDS_def split: if_splits)
  have vq: "logs_only quiet_events (vm_status D)" using assms(2) by (simp add: quiet_driver_def)
  have "clock E h \<le> clock E u"
    by (rule clock_run [OF assms(1) quiet_probes(1) [OF assms(2)] u])
  moreover have "clock E u \<le> clock E v" by (rule clock_run [OF assms(1) vq v])
  moreover have "clock E v + 3 \<le> clock E (v @ [Slept 3])" using assms(1) by (simp only: steady_clock_def)
  ultimately show ?thesis using t by simp
qed

lemma operator_loop_ends:
  assumes "steady_clock E" and "quiet_driver D" and "0 < n" and "dl < clock E h + 3 * of_nat (n - 1)"
  shows "fst (operator_loop n E D b dl h) \<noteq> Inr None"
  using assms(3,4)
proof (induction n arbitrary: h)
  case 0
  then show ?case by simp
next
  case (Suc n)
  obtain r t where rt: "operator_turn E D b dl h = (r, t)" by fastforce
  show ?case
  proof (cases r)
    case (Inl e)
    with rt show ?thesis by (simp add: bnd_def)
  next
    case (Inr reached)
    show ?thesis
    proof (cases reached)
      case True
      with rt Inr show ?thesis by (simp add: bnd_def ret_def)
    next
      case False
      with operator_turn_again [OF assms(1,2)] rt Inr
      have c: "clock E h \<le> dl" "clock E h + 3 \<le> clock E t" by auto
      have dl: "dl < clock E h + 3 * of_nat n" using Suc.prems(2) by simp
      with c(1) have n: "0 < n" by (cases n) simp_all
      then have "(of_nat n :: rat) = of_nat (n - 1) + 1" by (cases n) simp_all
      with dl c have "dl < clock E t + 3 * of_nat (n - 1)" by linarith
      with n have "fst (operator_loop n E D b dl t) \<noteq> Inr None" by (rule Suc.IH)
      with rt Inr False show ?thesis by (simp add: bnd_def)
    qed
  qed
qed

lemma wait_for_operator_ends:
  assumes "steady_clock E" and "quiet_driver D" and "202 \<le> n"
  shows "fst (wait_for_operator n E D b h) \<noteq> Inr None"
proof -
  have "(201 :: rat) \<le> of_nat (n - 1)" using assms(3) by (simp add: of_nat_diff)
  then have "clock E h + of_nat OPERATOR_WAIT_SECONDS < clock E h + 3 * of_nat (n - 1)"
    by (simp add: OPERATOR_WAIT_SECONDS_def)
  with assms operator_loop_ends [of E D n "clock E h + of_nat OPERATOR_WAIT_SECONDS" h b] show ?thesis
    by (simp add: wait_for_operator_def now_def bnd_def reads_def)
qed

text \<open>A turn of the unlock loop that turns again, when the helper's session never streamed.\<close>

definition never_streams :: "env \<Rightarrow> driver \<Rightarrow> box \<Rightarrow> string \<Rightarrow> bool" where
  "never_streams E D b p \<longleftrightarrow> (\<forall>h a t. run_initrd_helper E D b p h = (Inr a, t) \<longrightarrow> \<not> hr_streamed a)"

lemma judge_Dropped: "judge_helper_run a = Dropped \<Longrightarrow> hr_streamed a"
  by (auto simp: judge_helper_run_def split: ssh_outcome.splits if_splits)

lemma deadline_after_Inr:
  assumes "deadline_after D b dl status False t = Inr dl'"
  shows "dl' = Some (case dl of Some d \<Rightarrow> if d = 0 then t + 600 else d | None \<Rightarrow> t + 600)"
  using assms by (auto simp: deadline_after_def INITRD_WAIT_SECONDS_def split: if_splits option.splits)

lemma turn_end_again:
  assumes "steady_clock E" and "quiet_driver D" and "turn_end E D b False vars h = (Inr x, t)"
  obtains d v where "x = Again (vars\<lparr>deadline := Some d\<rparr>)" "clock E h \<le> v" "v \<le> d" "v + 2 \<le> clock E t"
    "d = (case deadline vars of Some d \<Rightarrow> if d = 0 then v + 600 else d | None \<Rightarrow> v + 600)"
proof -
  from assms(3) obtain status u where u: "vm_status D h = (Inr status, u)"
    and k: "bnd (now E) (\<lambda>t.
     bnd (lift (deadline_after D b (deadline vars) status False t)) (\<lambda>dl.
     bnd (now E) (\<lambda>t'.
     if (case dl of None \<Rightarrow> False | Some d \<Rightarrow> t' > d)
     then bnd (initrd_timeout_error E D b (refused_since vars \<noteq> None)) raise
     else sq (sleep (of_nat INITRD_POLL_SECONDS)) (ret (Again (vars\<lparr>deadline := dl\<rparr>)))))) u = (Inr x, t)"
    unfolding turn_end_def by (rule bnd_InrE)
  then obtain dl where dl: "deadline_after D b (deadline vars) status False (clock E u) = Inr dl"
    and k2: "(if (case dl of None \<Rightarrow> False | Some d \<Rightarrow> clock E u > d)
     then bnd (initrd_timeout_error E D b (refused_since vars \<noteq> None)) raise
     else sq (sleep (of_nat INITRD_POLL_SECONDS)) (ret (Again (vars\<lparr>deadline := dl\<rparr>)))) u = (Inr x, t)"
    by (auto elim!: bnd_InrE dest!: now_run simp: lift_def)
  from deadline_after_Inr [OF dl] obtain d where d: "dl = Some d"
    "d = (case deadline vars of Some d \<Rightarrow> if d = 0 then clock E u + 600 else d | None \<Rightarrow> clock E u + 600)"
    by auto
  from k2 d(1) have "clock E u \<le> d" "t = u @ [Slept 2]" "x = Again (vars\<lparr>deadline := Some d\<rparr>)"
    by (auto elim!: bnd_InrE dest!: sleep_run simp: raise_def ret_def INITRD_POLL_SECONDS_def split: if_splits)
  moreover have "clock E h \<le> clock E u"
    using clock_run [OF assms(1)] assms(2) u by (auto simp: quiet_driver_def)
  moreover have "clock E u + 2 \<le> clock E (u @ [Slept 2])" using assms(1) by (simp only: steady_clock_def)
  ultimately show thesis using d(2) that by blast
qed

lemma logs_run_initrd_helper: "quiet_driver D \<Longrightarrow> logs_only UNIV (run_initrd_helper E D b p)"
  unfolding run_initrd_helper_def
  by (intro logs_unlock_lock logs_only_mono [OF logs_helper_session]) auto

lemma unlock_turn_again:
  assumes "steady_clock E" and "quiet_driver D" and "never_streams E D b p"
    and "unlock_turn E D b p None vars h = (Inr (Again vars'), t)"
  obtains d v where "deadline vars' = Some d" "clock E h \<le> v" "v \<le> d" "v + 2 \<le> clock E t"
    "d = (case deadline vars of Some d \<Rightarrow> if d = 0 then v + 600 else d | None \<Rightarrow> v + 600)"
proof -
  from assms(4) obtain a u where a: "run_initrd_helper E D b p h = (Inr a, u)"
    and k: "(let vars = vars\<lparr>migrated_any := migrated_any vars \<or> hr_migrated a\<rparr>; v = judge_helper_run a in
     sq (when_do (v = Unlocked \<or> v = Dropped) (for_each (splitlines (hr_stderr a)) (\<lambda>l. warn l [])))
     (if v = Unlocked then ret (Leave (migrated_any vars))
      else if v = Failed then bnd (helper_failure_message E D b a) (\<lambda>m. raise (message_error m))
      else
        bnd (after_dropped E v vars) (\<lambda>vars.
        bnd (if v = Dropped \<or> v = Key_Refused then stage2_up E D b else ret False) (\<lambda>up.
        if up then ret (Leave (migrated_any vars))
        else bnd (after_refused E v vars) (\<lambda>vars. turn_starter E D b None vars))))) u = (Inr (Again vars'), t)"
    unfolding unlock_turn_def by (rule bnd_InrE)
  let ?v = "judge_helper_run a" and ?w = "vars\<lparr>migrated_any := migrated_any vars \<or> hr_migrated a\<rparr>"
  have nd: "?v \<noteq> Dropped" using assms(3) a judge_Dropped by (auto simp: never_streams_def)
  from k nd have v: "?v \<noteq> Unlocked" "?v \<noteq> Failed"
    by (auto simp: Let_def ret_def raise_def elim!: bnd_InrE split: if_splits)
  with k nd obtain up s where up: "(if ?v = Key_Refused then stage2_up E D b else ret False) u = (Inr up, s)"
    and k2: "(if up then ret (Leave (migrated_any ?w))
        else bnd (after_refused E ?v ?w) (turn_starter E D b None)) s = (Inr (Again vars'), t)"
    by (auto simp: Let_def when_do_def after_dropped_def eff_simps elim!: bnd_InrE)
  from k2 obtain w s' where w: "after_refused E ?v ?w s = (Inr w, s')"
    and e: "turn_end E D b False w s' = (Inr (Again vars'), t)"
    by (auto simp: ret_def turn_starter_def elim!: bnd_InrE split: if_splits)
  from w have ws: "deadline w = deadline vars" "s' = s"
    by (auto simp: after_refused_def ret_def elim!: bnd_InrE dest!: now_run split: if_splits)
  have "logs_only quiet_events (if ?v = Key_Refused then stage2_up E D b else ret False)"
    by (intro footprint quiet_probes(3) [OF assms(2)])
  from clock_run [OF assms(1) this up] have "clock E u \<le> clock E s" .
  moreover from clock_run [OF assms(1) logs_run_initrd_helper [OF assms(2)] a] have "clock E h \<le> clock E u" .
  ultimately have "clock E h \<le> clock E s'" by (simp add: ws)
  moreover from turn_end_again [OF assms(1,2) e] obtain d v where
    "Again vars' = Again (w\<lparr>deadline := Some d\<rparr>)" "clock E s' \<le> v" "v \<le> d" "v + 2 \<le> clock E t"
    "d = (case deadline w of Some d \<Rightarrow> if d = 0 then v + 600 else d | None \<Rightarrow> v + 600)"
    by blast
  ultimately show thesis using that [of d v] ws(1) by simp
qed

text \<open>How many more turns the loop can take, by its deadline.\<close>

definition turns_left :: "nat \<Rightarrow> env \<Rightarrow> unlock_vars \<Rightarrow> history \<Rightarrow> bool" where
  "turns_left n E vars h \<longleftrightarrow>
     (case deadline vars of None \<Rightarrow> 302 \<le> n | Some d \<Rightarrow> 0 < d \<and> 0 < n \<and> d < clock E h + 2 * of_nat (n - 1))"

lemma unlock_loop_ends:
  assumes "steady_clock E" and "\<And>h. 0 \<le> clock E h" and "quiet_driver D" and "never_streams E D b p"
    and "turns_left n E vars h"
  shows "fst (unlock_loop n E D b p None vars h) \<noteq> Inr None"
  using assms(5)
proof (induction n arbitrary: vars h)
  case 0
  then show ?case by (simp add: turns_left_def split: option.splits)
next
  case (Suc n)
  obtain r t where rt: "unlock_turn E D b p None vars h = (r, t)" by fastforce
  show ?case
  proof (cases r)
    case (Inl e)
    with rt show ?thesis by (simp add: bnd_def)
  next
    case (Inr x)
    show ?thesis
    proof (cases x)
      case (Leave y)
      with rt Inr show ?thesis by (simp add: bnd_def ret_def)
    next
      case (Again vars')
      with rt Inr obtain d v where dv: "deadline vars' = Some d" "clock E h \<le> v" "v \<le> d" "v + 2 \<le> clock E t"
        "d = (case deadline vars of Some d \<Rightarrow> if d = 0 then v + 600 else d | None \<Rightarrow> v + 600)"
        using unlock_turn_again [OF assms(1,3,4)] by blast
      have pos: "0 \<le> v" using assms(2) [of h] dv(2) by linarith
      have "0 < d \<and> 0 < n \<and> d < clock E t + 2 * of_nat (n - 1)"
      proof (cases "deadline vars")
        case None
        with Suc.prems have n: "301 \<le> n" by (simp add: turns_left_def)
        then have "(300 :: rat) \<le> of_nat (n - 1)" by (simp add: of_nat_diff)
        with dv(4,5) None pos n show ?thesis by simp
      next
        case (Some d')
        with Suc.prems dv(5) have d': "d' = d" "0 < d" "d < clock E h + 2 * of_nat n"
          by (auto simp: turns_left_def)
        with dv(2,3) have n: "0 < n" by (cases n) simp_all
        then have "(of_nat n :: rat) = of_nat (n - 1) + 1" by (cases n) simp_all
        with d' dv(2,4) n show ?thesis by linarith
      qed
      then have "turns_left n E vars' t"
        unfolding turns_left_def dv(1) option.case .
      then have "fst (unlock_loop n E D b p None vars' t) \<noteq> Inr None" by (rule Suc.IH)
      with rt Inr Again show ?thesis by (simp add: bnd_def)
    qed
  qed
qed

lemma unlock_disk_ends:
  assumes "steady_clock E" and "\<And>h. 0 \<le> clock E h" and "quiet_driver D" and "never_streams E D b p"
    and "302 \<le> n"
  shows "fst (unlock_disk n E D b p None h) \<noteq> Inr None"
  using unlock_loop_ends [OF assms(1-4), of n no_unlock] assms(5)
  by (simp add: unlock_disk_def warn_def emit_def modifies_def bnd_def turns_left_def no_unlock_def)

subsection \<open>Properties\<close>

text \<open>
  C22: on the lines the probe prints, the verdict is an idle wait for the passphrase exactly when
  no helper runs, something is asked, every ask is for the disk's passphrase, and the migration
  is over or itself waiting.
\<close>

theorem idle_wait_is_recognised:
  assumes "list_all clean_line (probe_lines m fifos asks)"
    and "list_all (\<lambda>content. PROBE_ASK_END \<notin> set content) asks"
  shows "classify_initrd_probe (unlines (probe_lines m fifos asks)) = Waiting_For_Passphrase \<longleftrightarrow>
    fifos = [] \<and> concat (map ids_of asks) \<noteq> []
    \<and> list_all (\<lambda>i. i = MIGRATE_ASK_ID \<or> startswith i CRYPTSETUP_ASK_ID_PREFIX) (concat (map ids_of asks))
    \<and> (m = ''active'' \<or> (m = ''activating'' \<and> MIGRATE_ASK_ID \<in> set (concat (map ids_of asks))))"
proof -
  have "classify_initrd_probe (unlines (probe_lines m fifos asks))
      = judge_initrd m (fifos \<noteq> []) (concat (map ids_of asks))"
    using assms by (intro classify_probe_lines) (auto simp: list_all_iff)
  then show ?thesis
    by (simp add: judge_waiting_iff MIGRATE_UNIT_FINISHED_def MIGRATE_UNIT_RUNNING_def)
qed

theorem idle_wait_is_recognised_witness:
  "classify_initrd_probe (unlines (probe_lines ''active'' [] [[''[Ask]'', ''Id=cryptsetup:/dev/vda2'']]))
    = Waiting_For_Passphrase"
proof -
  have "list_all clean_line (probe_lines ''active'' [] [[''[Ask]'', ''Id=cryptsetup:/dev/vda2'']])"
    "list_all (\<lambda>content. PROBE_ASK_END \<notin> set content) [[''[Ask]'', ''Id=cryptsetup:/dev/vda2'']]"
    by code_simp+
  from idle_wait_is_recognised [OF this]
  show ?thesis by (simp add: ids_of_def ASK_ID_PREFIX_def CRYPTSETUP_ASK_ID_PREFIX_def startswith_def after_def)
qed

text \<open>
  A box is taken to be in its initrd only when the operator's login failed, the sshd that
  answers does not show the running system's banner, and root's login succeeded, in that order.
\<close>

lemma initrd_verdict_is_proved:
  assumes "boot_stage E D b h = (Inr Initrd, t)"
  shows "\<exists>u v banner. stage2_up E D b h = (Inr False, u) \<and> ssh_banner E D b u = (Inr banner, v)
    \<and> STAGE2_SSH_BANNER_MARK \<notin> set (split_words banner) \<and> sshd_answers E D b ''root'' v = (Inr Answered, t)"
  using assms by (rule boot_stage_Initrd) blast

theorem initrd_verdict_is_proved_witness:
  "\<exists>u. stage2_up sample_env sample_driver sample_box [] = (Inr False, u)"
proof -
  have "fst (boot_stage sample_env sample_driver sample_box []) = Inr Initrd" by code_simp
  then obtain t where "boot_stage sample_env sample_driver sample_box [] = (Inr Initrd, t)"
    by (metis prod.collapse)
  from initrd_verdict_is_proved [OF this] show ?thesis by blast
qed

text \<open>
  The passphrase leaves yo only while this yo holds the box's unlock lock: every process
  started with an input, in any run of the unlock loop, is started between taking the lock and
  dropping it, and the lock is free again at the end.
\<close>

lemma passphrase_sent_under_lock:
  assumes "quiet_driver D" and "sends_locked (unlock_lock_path E b) h" and "\<not> holds (unlock_lock_path E b) h"
    and "unlock_disk n E D b passphrase starter h = (r, t)"
  shows "sends_locked (unlock_lock_path E b) t \<and> \<not> holds (unlock_lock_path E b) t"
proof -
  have "logs_only quiet_events (warn w a)" for w a by (intro footprint) simp
  then have "keeps (\<lambda>h. sends_locked (unlock_lock_path E b) h \<and> \<not> holds (unlock_lock_path E b) h)
      (unlock_disk n E D b passphrase starter)"
    unfolding unlock_disk_def by (intro keeps_bnd quiet_keeps keeps_unlock_loop assms(1))
  from keepsD [OF this] assms show ?thesis by blast
qed

lemma quiet_sample: "quiet_driver sample_driver"
  by (simp add: quiet_driver_def sample_driver_def logs_ret)

theorem passphrase_sent_under_lock_witness:
  "\<exists>r t. unlock_disk 1 sample_env sample_driver sample_box ''key'' None [] = (r, t)
    \<and> sends_locked (unlock_lock_path sample_env sample_box) t"
proof -
  obtain r t where run: "unlock_disk 1 sample_env sample_driver sample_box ''key'' None [] = (r, t)"
    by (cases "unlock_disk 1 sample_env sample_driver sample_box ''key'' None []")
  have "sends_locked l [] \<and> \<not> holds l []" for l by (simp add: sends_locked_def holds_def)
  then show ?thesis
    using run passphrase_sent_under_lock [OF quiet_sample _ _ run] by blast
qed


definition refusing_env :: env where
  "refusing_env = sample_env\<lparr>proc_ans := (\<lambda>h argv i. Finished 255 [] ''Connection refused'')\<rparr>"

lemma steady_refusing: "steady_clock refusing_env"
  unfolding steady_clock_def
proof (intro conjI allI)
  fix h :: history and e :: event and t :: rat
  show "clock refusing_env h \<le> clock refusing_env (h @ [e])"
    using slept_mono [of "[e]"] by (simp add: refusing_env_def sample_env_def slept_append)
  show "clock refusing_env h + t \<le> clock refusing_env (h @ [Slept t])"
    by (simp add: refusing_env_def sample_env_def slept_append)
qed

lemma helper_streams_Inr:
  assumes "helper_streams argv p ans h = (Inr a, t)"
  obtains code out err where "ans = Finished code out err"
    "hr_streamed a \<longleftrightarrow> map decode_replace (byte_lines out) \<noteq> []"
  using assms
  by (cases ans) (auto simp: helper_streams_def raise_def Let_def ret_def elim!: bnd_InrE)

lemma helper_session_streamed:
  assumes "helper_session E D b p h = (Inr a, t)"
  obtains argv code out err u where "proc_ans E u argv (Some (p @ NL)) = Finished code out err"
    "hr_streamed a \<longleftrightarrow> map decode_replace (byte_lines out) \<noteq> []"
proof -
  from assms obtain argv u where
    "helper_streams argv p (proc_ans E u argv (Some (p @ NL))) u = (Inr a, t)"
    unfolding helper_session_def by (auto elim!: bnd_InrE simp: reads_def)
  then show thesis using that by (rule helper_streams_Inr)
qed

lemma refusing_never_streams: "never_streams refusing_env sample_driver sample_box p"
proof -
  have "\<not> hr_streamed a" if "helper_session refusing_env sample_driver sample_box p h = (Inr a, t)" for h a t
  proof -
    from that obtain argv code out err u where
      "proc_ans refusing_env u argv (Some (p @ NL)) = Finished code out err"
      "hr_streamed a \<longleftrightarrow> map decode_replace (byte_lines out) \<noteq> []"
      by (rule helper_session_streamed)
    then show ?thesis by (simp add: refusing_env_def byte_lines_def)
  qed
  then show ?thesis
    by (auto simp: never_streams_def run_initrd_helper_def unlock_lock_def host_state_lock_def with_lock_def
        finally_do_def raise_def elim!: bnd_InrE split: if_splits prod.splits)
qed


end
