(* ===== verification/Yo_Aws.thy ===== *)
theory Yo_Aws
  imports Yo_Guest "HOL-Library.AList"
begin

text \<open>
  \<open>yolobox_cli/aws.py\<close>: the profiles of \<open>~/.aws/config\<close> yo passes to the guest, the text it
  pushes there, and the credential broker it keeps on the host: its health, its handshake,
  when it is replaced and how a stale one is stopped. The lemmas show that the pushed text
  has exactly the three lines of each allowed profile, that the handshake does not depend on
  how the pipe cut it, that yo never signals process 0 or 1, and when a broker is left alone.
\<close>

definition GUEST_AWS_CONFIG_PATH :: string where
  "GUEST_AWS_CONFIG_PATH = AGENT_HOME @ ''/.config/yolobox/aws-config''"

definition GUEST_AWS_CONFIG_DIR :: string where
  "GUEST_AWS_CONFIG_DIR = AGENT_HOME @ ''/.config/yolobox''"

definition BROKER_HANDSHAKE_SECONDS :: nat where "BROKER_HANDSHAKE_SECONDS = 30"
definition STALE_BROKER_EXIT_SECONDS :: rat where "STALE_BROKER_EXIT_SECONDS = 10"
definition HTTP_OK :: nat where "HTTP_OK = 200"
definition YO_BROKER_LOCK_NAME :: string where "YO_BROKER_LOCK_NAME = ''aws-broker.yo.lock''"

subsection \<open>The handshake of a broker\<close>

text \<open>
  \<open>read_handshake\<close> on what the child writes: each chunk with the time it arrives, the empty
  chunk for the closed pipe. \<open>t\<close> is the clock; a wait ends when something arrives or at the
  deadline, and past the deadline one last chunk that is already there is read.
\<close>

fun read_handshake :: "rat \<Rightarrow> rat \<Rightarrow> string \<Rightarrow> (rat \<times> string) list \<Rightarrow> string \<times> bool" where
  "read_handshake dl t buf [] = (buf, False)"
| "read_handshake dl t buf ((arrives, chunk) # rest) =
     (if CHR 0x0A \<in> set buf then (buf, False)
      else if arrives > max t dl then (buf, False)
      else if chunk = [] then (buf, True)
      else if dl - t \<le> 0 then (buf @ chunk, False)
      else read_handshake dl (max t arrives) (buf @ chunk) rest)"

datatype handshake_verdict = Broker_Ready | Broker_Failed string | Silent_Close | No_Line | Unexpected string

definition judge_handshake :: "string list \<Rightarrow> bool \<Rightarrow> handshake_verdict" where
  "judge_handshake ls eof =
     (let line = (case ls of [] \<Rightarrow> [] | l # _ \<Rightarrow> l) in
      if startswith line ''ERROR='' then Broker_Failed (after ''ERROR='' line)
      else if line = ''READY'' then Broker_Ready
      else if eof \<and> line = [] then Silent_Close
      else if line = [] then No_Line
      else Unexpected line)"

subsection \<open>The profiles yo passes to the guest\<close>

text \<open>\<open>[a-z]{2,4}(-[a-z]+)+-\d+\<close>\<close>

definition AWS_REGION_RE :: rx where
  "AWS_REGION_RE =
     Cat (Times 2 (Cls is_lower)) (Cat (Upto 2 (Cls is_lower))
       (Cat (Plus (Cat (Cls (\<lambda>c. c = CHR ''-'')) (Plus (Cls is_lower))))
         (Cat (Cls (\<lambda>c. c = CHR ''-'')) (Plus (Cls is_digit)))))"

definition section_profile :: "string \<Rightarrow> string option" where
  "section_profile section =
     (if section = ''default'' then Some ''default''
      else if startswith section ''profile '' then Some (after ''profile '' section)
      else None)"

text \<open>The first loop: profile name to the section that defines it, the later one winning.\<close>

fun profile_sections :: "(string \<times> (string \<times> string) list) list \<Rightarrow>
    (string \<times> string \<times> (string \<times> string) list) list \<Rightarrow>
    (string \<times> string \<times> (string \<times> string) list) list io" where
  "profile_sections [] defined_by = ret defined_by"
| "profile_sections ((section, options) # rest) defined_by =
     (case section_profile section of
        None \<Rightarrow> profile_sections rest defined_by
      | Some name \<Rightarrow>
          if \<not> fullmatch PROFILE_NAME_RE name
          then sq (warn ''profile has a name yo will not pass to the guest'' [name])
                  (profile_sections rest defined_by)
          else
            sq (case map_of defined_by name of
                  None \<Rightarrow> ret ()
                | Some (earlier, _) \<Rightarrow>
                    warn ''both name the profile, ignoring the earlier one'' [earlier, section, name, section])
               (profile_sections rest (AList.update name (section, options) defined_by)))"

text \<open>The second loop: the SSO profiles with a region.\<close>

fun sso_profiles :: "(string \<times> string \<times> (string \<times> string) list) list \<Rightarrow> (string \<times> string) list io" where
  "sso_profiles [] = ret []"
| "sso_profiles ((name, section, options) # rest) =
     (if map_of options ''sso_session'' = None \<and> map_of options ''sso_start_url'' = None
      then sso_profiles rest
      else
        (let region = (case map_of options ''region'' of None \<Rightarrow> [] | Some r \<Rightarrow> r) in
         if region = []
         then sq (warn ''profile has no region in ~/.aws/config'' [name]) (sso_profiles rest)
         else if \<not> fullmatch AWS_REGION_RE region
         then sq (warn ''profile has a region which is not an AWS region name'' [name, region]) (sso_profiles rest)
         else bnd (sso_profiles rest) (\<lambda>allowed. ret ((name, region) # allowed))))"

definition aws_allowlist :: "env \<Rightarrow> (string \<times> string) list io" where
  "aws_allowlist E =
     (let path = path_join (path_join (env_home E) ''.aws'') ''config'' in
      bnd (reads (\<lambda>h. ini_ans E h path)) (\<lambda>ini.
      case ini of
        No_Ini \<Rightarrow> ret []
      | Ini_Failure reason \<Rightarrow> raise (YoError ''cannot read or parse'' [path, reason])
      | Sections sections \<Rightarrow>
          bnd (profile_sections sections []) (\<lambda>defined_by. sso_profiles defined_by)))"

definition profile_lines :: "string \<times> string \<Rightarrow> string list" where
  "profile_lines p =
     [''[profile '' @ fst p @ '']'', ''region = '' @ snd p,
      ''credential_process = '' @ HELPER @ '' aws-creds '' @ fst p]"

definition guest_aws_config_text :: "(string \<times> string) list \<Rightarrow> string" where
  "guest_aws_config_text allowed = concat (map (\<lambda>p. concat (map (\<lambda>l. l @ NL) (profile_lines p))) allowed)"

subsection \<open>The health of a broker\<close>

datatype broker_state = Broker_Unreachable | Broker_Healthy | No_Control

record broker_health =
  bh_state :: broker_state
  bh_info :: json
  bh_sock :: string

definition BROKER_UNREACHABLE :: broker_health where
  "BROKER_UNREACHABLE = \<lparr>bh_state = Broker_Unreachable, bh_info = JObj [], bh_sock = []\<rparr>"

definition aws_broker_sock :: "env \<Rightarrow> string" where
  "aws_broker_sock E = path_join (state_dir E) ''aws-broker.sock''"

definition aws_broker_ctl_sock :: "env \<Rightarrow> string" where
  "aws_broker_ctl_sock E = path_join (state_dir E) ''aws-broker.ctl.sock''"

text \<open>An integer of a parsed value, as \<open>isinstance(value, int)\<close> sees it: \<open>True\<close> is one.\<close>

definition json_int :: "json \<Rightarrow> int option" where
  "json_int v =
     (case v of
        JNum s \<Rightarrow>
          if is_ascii_number s then Some (int (decimal s))
          else if startswith s ''-'' \<and> is_ascii_number (after ''-'' s) then Some (- int (decimal (after ''-'' s)))
          else None
      | JBool b \<Rightarrow> Some (if b then 1 else 0)
      | _ \<Rightarrow> None)"

definition checked_pid :: "json option \<Rightarrow> int option" where
  "checked_pid v =
     (case v of
        None \<Rightarrow> None
      | Some j \<Rightarrow> (case json_int j of None \<Rightarrow> None | Some n \<Rightarrow> if n > 1 then Some n else None))"

definition health_on :: "env \<Rightarrow> string \<Rightarrow> json option io" where
  "health_on E sock =
     bnd (reads (\<lambda>h. health_ans E h sock)) (\<lambda>answer.
     sq (emit (Did ''GET /health'' [sock]))
     (ret (case answer of
        None \<Rightarrow> None
      | Some (status, body) \<Rightarrow>
          if status \<noteq> HTTP_OK then None
          else (case json_loads body of Some (JObj d) \<Rightarrow> Some (JObj d) | _ \<Rightarrow> None))))"

definition aws_broker_health :: "env \<Rightarrow> broker_health io" where
  "aws_broker_health E =
     bnd (health_on E (aws_broker_ctl_sock E)) (\<lambda>control.
     case control of
       Some info \<Rightarrow> ret \<lparr>bh_state = Broker_Healthy, bh_info = info, bh_sock = aws_broker_ctl_sock E\<rparr>
     | None \<Rightarrow>
         bnd (health_on E (aws_broker_sock E)) (\<lambda>forwarded.
         case forwarded of
           Some info \<Rightarrow> ret \<lparr>bh_state = No_Control, bh_info = info, bh_sock = aws_broker_sock E\<rparr>
         | None \<Rightarrow> ret BROKER_UNREACHABLE))"

subsection \<open>Stopping a broker\<close>

definition pid_exits_within :: "env \<Rightarrow> int \<Rightarrow> rat \<Rightarrow> bool io" where
  "pid_exits_within E pid seconds =
     bnd (reads (\<lambda>h. watch_ans E h pid seconds)) (\<lambda>watch.
     case watch of
       Already_Gone \<Rightarrow> ret True
     | Unwatchable reason \<Rightarrow> raise (YoError ''cannot watch pid for its exit'' [show_int pid, reason])
     | Exits_Within b \<Rightarrow> sq (emit (Did ''wait for exit'' [show_int pid])) (ret b))"

definition wait_for_pid_exit :: "env \<Rightarrow> int \<Rightarrow> rat \<Rightarrow> unit io" where
  "wait_for_pid_exit E pid seconds =
     bnd (pid_exits_within E pid seconds) (\<lambda>gone.
     if \<not> gone then raise (YoError ''stale aws-broker did not exit within its time'' [show_int pid]) else ret ())"

definition kill_event :: "int \<Rightarrow> event" where
  "kill_event pid = Did ''kill SIGTERM'' [show_int pid]"

definition kill_stale_broker :: "env \<Rightarrow> int \<Rightarrow> unit io" where
  "kill_stale_broker E pid =
     bnd (reads (\<lambda>h. kill_ans E h pid)) (\<lambda>answer.
     sq (emit (kill_event pid))
     (case answer of
        No_Such_Process \<Rightarrow> ret ()
      | Not_Permitted \<Rightarrow> raise (YoError ''cannot signal the stale aws-broker: permission denied'' [show_int pid])
      | Signalled \<Rightarrow> wait_for_pid_exit E pid STALE_BROKER_EXIT_SECONDS))"

definition kill_broker_in :: "env \<Rightarrow> broker_health \<Rightarrow> unit io" where
  "kill_broker_in E health =
     (if bh_state health = Broker_Unreachable then ret ()
      else
        (case checked_pid (json_get ''pid'' (bh_info health)) of
           None \<Rightarrow> raise (YoError ''the aws-broker answered /health without a usable pid'' [bh_sock health])
         | Some pid \<Rightarrow> kill_stale_broker E pid))"

subsection \<open>Starting a broker\<close>

definition describe_exit :: "env \<Rightarrow> int \<Rightarrow> message" where
  "describe_exit E code =
     (if code \<ge> 0 then (''exited with code'', [show_int code])
      else
        (case env_signal_name E (nat (- code)) of
           Some name \<Rightarrow> (''was killed by'', [name])
         | None \<Rightarrow> (''was killed by signal'', [show_int (- code)])))"

definition broker_argv :: "env \<Rightarrow> int \<Rightarrow> string list \<Rightarrow> string list" where
  "broker_argv E watch_pid allowed_names =
     [''aws-broker'', ''--socket'', aws_broker_sock E, ''--control-socket'', aws_broker_ctl_sock E,
      ''--watch-pid'', show_int watch_pid, ''--allow''] @ allowed_names"

definition start_aws_broker :: "env \<Rightarrow> int \<Rightarrow> string list \<Rightarrow> unit io" where
  "start_aws_broker E watch_pid allowed_names =
     (let log_dir = path_join (state_dir E) ''aws-broker'';
          log_path = path_join log_dir ''broker.log'';
          argv = broker_argv E watch_pid allowed_names;
          terminate = sq (emit (Did ''terminate'' argv)) (emit (Did ''wait'' argv)) in
      sq (private_dir (state_dir E))
      (sq (private_dir log_dir)
      (sq (host_op E ''create'' [log_path])
      (bnd (reads (\<lambda>h. child_ans E h argv)) (\<lambda>child.
       case child of
         None \<Rightarrow> raise (YoError ''not found on PATH'' [argv0 argv])
       | Some writes \<Rightarrow>
           sq (emit (Spawned argv None))
           (bnd (now E) (\<lambda>t.
            let (buf, eof) = read_handshake (t + of_nat BROKER_HANDSHAKE_SECONDS) t [] writes in
            case judge_handshake (splitlines (decode_replace buf)) eof of
              Broker_Failed reason \<Rightarrow>
                sq (emit (Did ''wait'' argv)) (raise (YoError ''aws-broker failed'' [reason]))
            | Broker_Ready \<Rightarrow> ret ()
            | Silent_Close \<Rightarrow>
                bnd (reads (\<lambda>h. exit_ans E h argv)) (\<lambda>code.
                case code of
                  Some c \<Rightarrow>
                    raise (YoError ''aws-broker ended before its handshake''
                             (fst (describe_exit E c) # snd (describe_exit E c) @ [log_path]))
                | None \<Rightarrow>
                    sq terminate
                       (raise (YoError ''aws-broker closed its output without exiting'' [log_path])))
            | No_Line \<Rightarrow>
                sq terminate
                   (raise (YoError ''aws-broker produced no handshake'' [show_nat BROKER_HANDSHAKE_SECONDS, log_path]))
            | Unexpected line \<Rightarrow>
                sq terminate (raise (YoError ''aws-broker produced an unexpected handshake'' [line, log_path])))))))))"

subsection \<open>The broker of a box\<close>

definition PUSH_AWS_CONFIG_SH :: string where
  "PUSH_AWS_CONFIG_SH =
     ''mkdir -p '' @ GUEST_AWS_CONFIG_DIR @ '' && tmp=$(mktemp '' @ GUEST_AWS_CONFIG_DIR @
     ''/.aws-config.XXXXXX) && cat >'' @ [CHR 0x22] @ ''$tmp'' @ [CHR 0x22] @ '' && mv '' @ [CHR 0x22] @
     ''$tmp'' @ [CHR 0x22] @ '' '' @ GUEST_AWS_CONFIG_PATH"

definition push_aws_guest_files :: "env \<Rightarrow> box \<Rightarrow> (string \<times> string) list \<Rightarrow> unit io" where
  "push_aws_guest_files E b allowed =
     sq (ssh_run E b AGENT [''sh'', ''-c'', PUSH_AWS_CONFIG_SH]
           (checked\<lparr>stdin_of := Some (guest_aws_config_text allowed)\<rparr>))
     (bnd (ssh_run E b AGENT [''test'', ''-e'', AGENT_HOME @ ''/.aws/config''] plain) (\<lambda>existing.
      when_do (returncode existing = 0)
        (warn ''a config exists in the VM but AWS_CONFIG_FILE hides it'' [AGENT_HOME, GUEST_AWS_CONFIG_PATH])))"

definition BrokerDisableError :: "exn \<Rightarrow> exn" where
  "BrokerDisableError failure = Exn Broker_Disable (exn_message failure) (exn_code failure)"

definition disable_aws_broker :: "env \<Rightarrow> box \<Rightarrow> unit io" where
  "disable_aws_broker E b =
     except_yo
       (sq (host_state_lock E YO_BROKER_LOCK_NAME True
              (bnd (aws_broker_health E) (\<lambda>health. kill_broker_in E health)))
       (sq (ssh_run E b AGENT [''rm'', ''-f'', GUEST_AWS_CONFIG_PATH] checked) (ret ())))
       (\<lambda>failure. raise (BrokerDisableError failure))"

definition broker_needs_restart :: "broker_health \<Rightarrow> int \<Rightarrow> string list \<Rightarrow> bool" where
  "broker_needs_restart health watch_pid allowed_names \<longleftrightarrow>
     bh_state health \<noteq> Broker_Healthy
     \<or> checked_pid (json_get ''watch_pid'' (bh_info health)) \<noteq> Some watch_pid
     \<or> json_get ''allow'' (bh_info health) \<noteq> Some (JArr (map JStr allowed_names))"

text \<open>\<open>sorted(...)\<close> of strings: by code points.\<close>

fun string_le :: "string \<Rightarrow> string \<Rightarrow> bool" where
  "string_le [] t = True"
| "string_le (a # s) [] = False"
| "string_le (a # s) (b # t) =
     ((of_char a :: nat) < of_char b \<or> a = b \<and> string_le s t)"

fun insert_name :: "string \<Rightarrow> string list \<Rightarrow> string list" where
  "insert_name s [] = [s]"
| "insert_name s (t # ts) = (if string_le s t then s # t # ts else t # insert_name s ts)"

definition sorted_names :: "string list \<Rightarrow> string list" where
  "sorted_names ss = foldr insert_name ss []"

definition keep_broker :: "env \<Rightarrow> int \<Rightarrow> string list \<Rightarrow> unit io" where
  "keep_broker E pid allowed_names =
     bnd (aws_broker_health E) (\<lambda>health.
     when_do (broker_needs_restart health pid allowed_names)
       (sq (kill_broker_in E health) (start_aws_broker E pid allowed_names)))"

definition ensure_aws_broker :: "env \<Rightarrow> driver \<Rightarrow> box \<Rightarrow> bool io" where
  "ensure_aws_broker E D b =
     bnd (which E ''aws'') (\<lambda>aws.
     if aws = None
     then sq (warn ''aws is not on this host's PATH'' []) (sq (disable_aws_broker E b) (ret False))
     else
       bnd (aws_allowlist E) (\<lambda>allowed.
       if allowed = []
       then sq (warn ''no SSO profiles in ~/.aws/config'' []) (sq (disable_aws_broker E b) (ret False))
       else
         bnd (keepalive_pid D) (\<lambda>pid.
         case pid of
           None \<Rightarrow> raise (YoError (keepalive_pid_error D) [])
         | Some p \<Rightarrow>
             sq (host_state_lock E YO_BROKER_LOCK_NAME True
                   (keep_broker E (int p) (sorted_names (map fst allowed))))
             (sq (push_aws_guest_files E b allowed) (ret True)))))"

subsection \<open>The handshake\<close>

text \<open>
  A line that has wholly arrived before the deadline is read whole, however the pipe cut it.
\<close>

lemma read_handshake_stop: "CHR 0x0A \<in> set buf \<Longrightarrow> read_handshake dl t buf ws = (buf, False)"
  by (cases ws) auto

lemma handshake_line:
  assumes "\<forall>(a, c) \<in> set ws. a < dl \<and> c \<noteq> []" and "t < dl" and "CHR 0x0A \<notin> set buf"
    and "concat (map snd ws) = l @ CHR 0x0A # r" and "CHR 0x0A \<notin> set l"
  shows "\<exists>r'. read_handshake dl t buf ws = (buf @ l @ CHR 0x0A # r', False)"
  using assms
proof (induction ws arbitrary: t buf l)
  case Nil
  then show ?case by simp
next
  case (Cons w ws)
  obtain a c where w: "w = (a, c)" by (cases w)
  with Cons.prems have step: "read_handshake dl t buf (w # ws) = read_handshake dl (max t a) (buf @ c) ws"
    by auto
  show ?case
  proof (cases "CHR 0x0A \<in> set c")
    case True
    with Cons.prems(4,5) w have "\<exists>r'. c = l @ CHR 0x0A # r'"
      by (auto simp: append_eq_append_conv2 Cons_eq_append_conv append_eq_Cons_conv)
    with True show ?thesis
      using step read_handshake_stop [of "buf @ c" dl "max t a" ws] by auto
  next
    case False
    with Cons.prems(4) w obtain l' where l': "l = c @ l'"
      by (auto simp: append_eq_append_conv2 Cons_eq_append_conv append_eq_Cons_conv)
    with Cons.prems w False have "\<exists>r'. read_handshake dl (max t a) (buf @ c) ws = ((buf @ c) @ l' @ CHR 0x0A # r', False)"
      by (intro Cons.IH) auto
    with step l' show ?thesis by simp
  qed
qed

lemma judge_ready_line: "judge_handshake (splitlines (''READY'' @ CHR 0x0A # r)) eof = Broker_Ready"
  using splitlines_LF [of "''READY''" r]
  by (simp add: judge_handshake_def clean_line_def is_line_end_def startswith_def)

subsection \<open>What the guest is given\<close>

lemma profile_name_chars: "fullmatch PROFILE_NAME_RE s \<Longrightarrow> list_all profile_char s"
  by (rule rx_chars_fullmatch) (simp_all add: PROFILE_NAME_RE_def profile_char_def)

definition region_char :: "char \<Rightarrow> bool" where
  "region_char c \<longleftrightarrow> is_lower c \<or> is_digit c \<or> c = CHR ''-''"

lemma region_chars: "fullmatch AWS_REGION_RE s \<Longrightarrow> list_all region_char s"
  by (rule rx_chars_fullmatch)
     (simp_all add: AWS_REGION_RE_def region_char_def rx_chars_Times rx_chars_Upto)

definition guest_profile :: "string \<times> string \<Rightarrow> bool" where
  "guest_profile p \<longleftrightarrow> fullmatch PROFILE_NAME_RE (fst p) \<and> fullmatch AWS_REGION_RE (snd p)"

lemma profile_sections_Inr:
  assumes "profile_sections sections ps h = (Inr qs, t)"
    and "distinct (map fst ps)" and "\<forall>p \<in> set ps. fullmatch PROFILE_NAME_RE (fst p)"
  shows "distinct (map fst qs) \<and> (\<forall>p \<in> set qs. fullmatch PROFILE_NAME_RE (fst p))"
  using assms
proof (induction sections arbitrary: ps h)
  case Nil
  then show ?case by (simp add: ret_def)
next
  case (Cons s sections)
  obtain sec options where s: "s = (sec, options)" by (cases s)
  show ?case
  proof (cases "section_profile sec")
    case None
    with Cons s show ?thesis by auto
  next
    case (Some name)
    show ?thesis
    proof (cases "fullmatch PROFILE_NAME_RE name")
      case False
      with Cons s Some show ?thesis by (auto elim!: bnd_InrE simp del: fullmatch.simps)
    next
      case True
      let ?ps = "AList.update name (sec, options) ps"
      from Cons.prems(1) s Some True obtain u where "profile_sections sections ?ps u = (Inr qs, t)"
        by (auto elim!: bnd_InrE)
      moreover have "distinct (map fst ?ps)" using Cons.prems(2) by (rule distinct_update)
      moreover have "\<forall>p \<in> set ?ps. fullmatch PROFILE_NAME_RE (fst p)"
      proof
        fix p assume "p \<in> set ?ps"
        then have "fst p \<in> fst ` set ?ps" by simp
        then have "fst p = name \<or> fst p \<in> fst ` set ps" by (simp add: dom_update)
        then show "fullmatch PROFILE_NAME_RE (fst p)" using True Cons.prems(3) by auto
      qed
      ultimately show ?thesis by (rule Cons.IH)
    qed
  qed
qed

lemma sso_profiles_Inr:
  assumes "sso_profiles ps h = (Inr qs, t)" and "\<forall>p \<in> set ps. fullmatch PROFILE_NAME_RE (fst p)"
    and "distinct (map fst ps)"
  shows "list_all guest_profile qs \<and> set (map fst qs) \<subseteq> set (map fst ps) \<and> distinct (map fst qs)"
  using assms
proof (induction ps arbitrary: h qs)
  case Nil
  then show ?case by (simp add: ret_def)
next
  case (Cons p ps)
  obtain name sec options where p: "p = (name, sec, options)" by (cases p)
  let ?region = "case map_of options ''region'' of None \<Rightarrow> [] | Some r \<Rightarrow> r"
  from Cons.prems(2,3) have rest: "\<forall>p \<in> set ps. fullmatch PROFILE_NAME_RE (fst p)" "distinct (map fst ps)"
    "name \<notin> set (map fst ps)" "fullmatch PROFILE_NAME_RE name" using p by auto
  have "(\<exists>u. sso_profiles ps u = (Inr qs, t)) \<or>
    (fullmatch AWS_REGION_RE ?region \<and> (\<exists>u ks. sso_profiles ps u = (Inr ks, t) \<and> qs = (name, ?region) # ks))"
    using Cons.prems(1) p
    by (auto simp: Let_def ret_def elim!: bnd_InrE split: if_splits simp del: fullmatch.simps)
  then show ?case
  proof (elim disjE exE conjE)
    fix u assume "sso_profiles ps u = (Inr qs, t)"
    from Cons.IH [OF this rest(1,2)] show ?thesis using p by auto
  next
    fix u ks
    assume r: "fullmatch AWS_REGION_RE ?region" "qs = (name, ?region) # ks" and "sso_profiles ps u = (Inr ks, t)"
    from Cons.IH [OF this(3) rest(1,2)] r rest(3,4) p show ?thesis
      by (auto simp: guest_profile_def simp del: fullmatch.simps)
  qed
qed

lemma aws_allowlist_Inr:
  assumes "aws_allowlist E h = (Inr allowed, t)"
  shows "list_all guest_profile allowed \<and> distinct (map fst allowed)"
proof -
  from assms have "allowed = [] \<or> (\<exists>sections ps u. profile_sections sections [] h = (Inr ps, u)
      \<and> sso_profiles ps u = (Inr allowed, t))"
    by (auto simp: aws_allowlist_def Let_def reads_def ret_def raise_def bnd_def
        split: ini_answer.splits prod.splits sum.splits)
  then show ?thesis
    using profile_sections_Inr [of _ "[]"] sso_profiles_Inr by fastforce
qed

lemma profile_lines_clean:
  assumes "guest_profile p" and "l \<in> set (profile_lines p)"
  shows "clean_line l"
proof -
  have "list_all profile_char (fst p)" "list_all region_char (snd p)"
    using assms(1) profile_name_chars region_chars by (auto simp: guest_profile_def)
  moreover have "profile_char c \<Longrightarrow> \<not> is_line_end c" "region_char c \<Longrightarrow> \<not> is_line_end c" for c
    by (auto simp: profile_char_def region_char_def char_class_defs)
  ultimately have "clean_line (fst p)" "clean_line (snd p)"
    by (auto simp: clean_line_def list_all_iff)
  then show ?thesis
    using assms(2) by (auto simp: profile_lines_def HELPER_def is_line_end_def)
qed

lemma guest_aws_config_lines:
  assumes "list_all guest_profile allowed"
  shows "splitlines (guest_aws_config_text allowed) = concat (map profile_lines allowed)"
proof -
  have lines: "splitlines (concat (map (\<lambda>l. l @ NL) ls) @ r) = ls @ splitlines r" if "list_all clean_line ls" for ls r
    using that by (induction ls) (simp_all add: NL_def splitlines_LF)
  have "splitlines (guest_aws_config_text allowed @ []) = concat (map profile_lines allowed)"
    using assms
  proof (induction allowed)
    case (Cons p ps)
    then have "guest_profile p" by simp
    then have "list_all clean_line (profile_lines p)"
      unfolding list_all_iff using profile_lines_clean by blast
    with Cons lines show ?case by (simp add: guest_aws_config_text_def)
  qed (simp add: guest_aws_config_text_def)
  then show ?thesis by simp
qed

subsection \<open>Which process yo signals, and which broker it leaves alone\<close>

text \<open>Every event but a signal to process 0, 1 or a process group.\<close>

definition safe_kills :: "event set" where
  "safe_kills = {e. \<forall>args. e \<noteq> Did ''kill SIGTERM'' args} \<union> {kill_event pid | pid. 1 < pid}"

lemma safe_kills_simps [simp]:
  "1 < pid \<Longrightarrow> kill_event pid \<in> safe_kills"
  "call \<noteq> ''kill SIGTERM'' \<Longrightarrow> Did call args \<in> safe_kills"
  "Ran a i \<in> safe_kills" "Said m \<in> safe_kills" "Warned m \<in> safe_kills" "Wrote p c md \<in> safe_kills"
  "Made_Dir p \<in> safe_kills" "Spawned a i \<in> safe_kills" "Took_Lock p \<in> safe_kills" "Dropped_Lock p \<in> safe_kills"
  by (auto simp: safe_kills_def)

lemma checked_pid_Some: "checked_pid v = Some pid \<Longrightarrow> 1 < pid"
  by (auto simp: checked_pid_def split: option.splits if_splits)

lemma logs_kill_broker_in: "logs_only safe_kills (kill_broker_in E health)"
  unfolding kill_broker_in_def
  by (auto intro!: footprint split: option.split kill_answer.split watch_answer.split dest!: checked_pid_Some
      simp: kill_stale_broker_def wait_for_pid_exit_def pid_exits_within_def)

lemma logs_broker_health [footprint]:
  "(\<And>sock. Did ''GET /health'' [sock] \<in> A) \<Longrightarrow> logs_only A (aws_broker_health E)"
  unfolding aws_broker_health_def health_on_def by (intro footprint)

lemma keep_broker_left_alone:
  assumes "aws_broker_health E h = (Inr health, t)" and "\<not> broker_needs_restart health pid names"
  shows "keep_broker E pid names h = (Inr (), t)"
  using assms by (simp add: keep_broker_def bnd_def when_do_def ret_def)

subsection \<open>Properties\<close>

text \<open>
  C35: what yo writes into the guest's AWS config is exactly three lines for each allowed
  profile: no name or region from the host's file can add a line of its own, and no profile
  appears twice.
\<close>

theorem guest_aws_config_is_exact:
  assumes "aws_allowlist E h = (Inr allowed, t)"
  shows "splitlines (guest_aws_config_text allowed) = concat (map profile_lines allowed)
    \<and> distinct (map fst allowed) \<and> list_all guest_profile allowed"
  using aws_allowlist_Inr [OF assms] guest_aws_config_lines by blast

definition sso_env :: env where
  "sso_env = sample_env\<lparr>ini_ans := (\<lambda>h p. Sections
     [(''default'', [(''region'', ''eu-west-1'')]),
      (''profile dev'', [(''sso_session'', ''s''), (''region'', ''eu-west-1'')]),
      (''profile bad name'', [(''sso_session'', ''s''), (''region'', ''eu-west-1'')])])\<rparr>"

theorem guest_aws_config_is_exact_witness:
  "\<exists>t. aws_allowlist sso_env [] = (Inr [(''dev'', ''eu-west-1'')], t)
    \<and> splitlines (guest_aws_config_text [(''dev'', ''eu-west-1'')]) = profile_lines (''dev'', ''eu-west-1'')"
proof -
  have "fst (aws_allowlist sso_env []) = Inr [(''dev'', ''eu-west-1'')]" by code_simp
  then obtain t where "aws_allowlist sso_env [] = (Inr [(''dev'', ''eu-west-1'')], t)" by (metis prod.collapse)
  with guest_aws_config_is_exact [OF this] show ?thesis by simp
qed

text \<open>
  A handshake line that has arrived before the deadline is read whole however the pipe cut
  it, and a broker that wrote \<open>READY\<close> is taken as ready.
\<close>

lemma handshake_read_whole:
  assumes "list_all (\<lambda>(a, c). a < dl \<and> c \<noteq> []) ws" and "t < dl"
    and "concat (map snd ws) = l @ CHR 0x0A # r" and "CHR 0x0A \<notin> set l"
  shows "\<exists>r'. read_handshake dl t [] ws = (l @ CHR 0x0A # r', False)
    \<and> (if l = ''READY'' then judge_handshake (splitlines (l @ CHR 0x0A # r')) eof = Broker_Ready else True)"
proof -
  have "\<forall>(a, c) \<in> set ws. a < dl \<and> c \<noteq> []" using assms(1) by (auto simp: list_all_iff)
  with handshake_line [of ws dl t "[]" l r] assms(2-4)
  obtain r' where "read_handshake dl t [] ws = (l @ CHR 0x0A # r', False)" by auto
  then show ?thesis using judge_ready_line [of r' eof] by auto
qed

theorem handshake_read_whole_witness:
  "\<exists>r'. read_handshake 30 0 [] [(1, ''REA''), (2, ''DY'' @ [CHR 0x0A])] = (''READY'' @ CHR 0x0A # r', False)"
proof -
  let ?ws = "[(1, ''REA''), (2, ''DY'' @ [CHR 0x0A])] :: (rat \<times> string) list"
  have "list_all (\<lambda>(a, c). a < 30 \<and> c \<noteq> []) ?ws" "(0 :: rat) < 30" "concat (map snd ?ws) = ''READY'' @ CHR 0x0A # []"
    "CHR 0x0A \<notin> set ''READY''" by simp_all
  from handshake_read_whole [OF this] show ?thesis by blast
qed

lemma logs_state_lock:
  "logs_only safe_kills m \<Longrightarrow> logs_only safe_kills (host_state_lock E name w m)"
  unfolding host_state_lock_def by (intro footprint) simp_all

lemma logs_start_broker: "logs_only safe_kills (start_aws_broker E pid names)"
  unfolding start_aws_broker_def Let_def
  by (intro footprint) (auto split: handshake_verdict.split prod.split intro!: footprint)

lemma logs_keep_broker: "logs_only safe_kills (keep_broker E pid names)"
  unfolding keep_broker_def
  by (intro footprint logs_kill_broker_in logs_start_broker) simp

text \<open>
  C36: whatever pid a broker reports, keeping or disabling the broker never signals process 0,
  process 1 or a process group.
\<close>

theorem brokers_are_signalled_safely:
  "logs_only safe_kills (keep_broker E pid names) \<and> logs_only safe_kills (disable_aws_broker E b)"
proof
  have ssh: "ssh_events E b \<subseteq> safe_kills" by (auto simp: ssh_events_def)
  show "logs_only safe_kills (disable_aws_broker E b)"
    unfolding disable_aws_broker_def
    by (intro footprint logs_state_lock logs_kill_broker_in ssh) simp
qed (rule logs_keep_broker)

end
