(* ===== verification/Yo_Forwards.thy ===== *)
theory Yo_Forwards
  imports Yo_Aws
begin

text \<open>
  \<open>yolobox_cli/forwards.py\<close>: the herdr machine of a box, the reverse forwards of the
  1Password agent and the AWS broker into the guest, and \<open>vm_services\<close>, which every command
  that needs them runs. The lemmas show that the herdr machine named by its id is the one of
  this box, that a forward that answers is left alone, and what a quiet end of \<open>vm_services\<close>
  proves.
\<close>

subsection \<open>The herdr machine\<close>

definition is_entry_of :: "box \<Rightarrow> json \<Rightarrow> bool" where
  "is_entry_of b entry \<longleftrightarrow> json_get ''target'' entry = Some (JStr (herdr_alias b))"

fun find_machine :: "box \<Rightarrow> json list \<Rightarrow> exn + string option" where
  "find_machine b [] = Inr None"
| "find_machine b (entry # entries) =
     (if is_entry_of b entry then
        (case json_str (json_get ''id'' entry) of
           Some machine_id \<Rightarrow>
             if machine_id = []
             then Inl (YoError ''herdr machine list --json: the entry has no id'' [herdr_alias b])
             else Inr (Some machine_id)
         | None \<Rightarrow> Inl (YoError ''herdr machine list --json: the entry has no id'' [herdr_alias b]))
      else find_machine b entries)"

definition herdr_machine_id :: "box \<Rightarrow> string \<Rightarrow> exn + string option" where
  "herdr_machine_id b listing_json =
     (case json_loads listing_json of
        None \<Rightarrow> Inl (YoError ''herdr machine list --json produced unparseable output'' [])
      | Some (JArr entries) \<Rightarrow> find_machine b entries
      | Some _ \<Rightarrow> Inl (YoError ''herdr machine list --json did not print a JSON array'' []))"

definition herdr_binary :: "env \<Rightarrow> string option io" where
  "herdr_binary E = which E ''herdr''"

definition listed_herdr_machine_id :: "env \<Rightarrow> box \<Rightarrow> string \<Rightarrow> string option io" where
  "listed_herdr_machine_id E b herdr =
     bnd (run E [herdr, ''machine'', ''list'', ''--json''] checked) (\<lambda>listing.
     lift (herdr_machine_id b (stdout listing)))"

definition herdr_machine_removals :: "env \<Rightarrow> box \<Rightarrow> string \<Rightarrow> removal list io" where
  "herdr_machine_removals E b herdr =
     bnd (listed_herdr_machine_id E b herdr) (\<lambda>machine.
     case machine of
       None \<Rightarrow> ret []
     | Some machine_id \<Rightarrow>
         ret [\<lparr>step_name = (''delete the herdr machine'', [herdr_alias b]),
               step_do = sq (run E [herdr, ''machine'', ''remove'', machine_id] checked) (ret ())\<rparr>])"

definition ensure_herdr_machine :: "env \<Rightarrow> box \<Rightarrow> bool \<Rightarrow> unit io" where
  "ensure_herdr_machine E b ssh_config_includes_the_vm =
     bnd (herdr_binary E) (\<lambda>found.
     case found of
       None \<Rightarrow> warn ''herdr not found on this host's PATH'' []
     | Some herdr \<Rightarrow>
         bnd (listed_herdr_machine_id E b herdr) (\<lambda>machine.
         if machine \<noteq> None then ret ()
         else if \<not> ssh_config_includes_the_vm then
           sq (warn ''not saving the herdr machine'' [herdr_alias b])
           (sq (warn ''Add this line to the top of ~/.ssh/config, then run again'' [yo_cmd b [''bootstrap'']])
               (warn SSH_CONFIG_INCLUDE_LINE []))
         else
           bnd (run E [herdr, ''machine'', ''add'', herdr_alias b, ''--label'', herdr_alias b] plain) (\<lambda>added.
           if returncode added \<noteq> 0
           then raise (YoError ''herdr machine add failed''
                         [herdr_alias b, strip (if stderr added \<noteq> [] then stderr added else stdout added)])
           else ret ())))"

subsection \<open>The reverse forwards\<close>

definition op_probe_alive :: "completed \<Rightarrow> bool" where
  "op_probe_alive c \<longleftrightarrow>
     returncode c = 0 \<or> returncode c = 1 \<and> contains (stdout c) ''The agent has no identities''"

definition aws_broker_probe_alive :: "completed \<Rightarrow> bool" where
  "aws_broker_probe_alive c \<longleftrightarrow> returncode c = 0"

record reverse_forward =
  fwd_name :: string
  fwd_guest_path :: string
  fwd_host_path :: string
  fwd_probe :: "string list"
  fwd_alive :: "completed \<Rightarrow> bool"

definition one_password_forward :: "driver \<Rightarrow> reverse_forward" where
  "one_password_forward D =
     \<lparr>fwd_name = ''1password'', fwd_guest_path = OP_GUEST_SOCK, fwd_host_path = op_sock D,
      fwd_probe = [''ssh-add'', ''-l''], fwd_alive = op_probe_alive\<rparr>"

definition aws_broker_forward :: "env \<Rightarrow> reverse_forward" where
  "aws_broker_forward E =
     \<lparr>fwd_name = ''aws-broker'', fwd_guest_path = AWS_BROKER_GUEST_SOCK, fwd_host_path = aws_broker_sock E,
      fwd_probe = [''curl'', ''-sS'', ''--unix-socket'', AGENT_AWS_BROKER_SOCK, ''http://broker/health''],
      fwd_alive = aws_broker_probe_alive\<rparr>"

definition forward_control_cmd :: "env \<Rightarrow> box \<Rightarrow> string \<Rightarrow> reverse_forward \<Rightarrow> string list io" where
  "forward_control_cmd E b action fwd =
     ssh_argv E b OPERATOR
       [''-O'', action, ''-R'', fwd_guest_path fwd @ '':'' @ fwd_host_path fwd, vm_host b] True"

definition forward_is_up :: "env \<Rightarrow> box \<Rightarrow> reverse_forward \<Rightarrow> bool io" where
  "forward_is_up E b fwd =
     bnd (ssh_run E b AGENT (fwd_probe fwd) plain) (\<lambda>c. ret (fwd_alive fwd c))"

definition heal_reverse_forward :: "env \<Rightarrow> box \<Rightarrow> reverse_forward \<Rightarrow> bool io" where
  "heal_reverse_forward E b fwd =
     bnd (forward_is_up E b fwd) (\<lambda>up.
     if up then ret True
     else
       bnd (forward_control_cmd E b ''cancel'' fwd) (\<lambda>cancel.
       sq (run E cancel plain)
       (sq (ssh_run_inheriting E b OPERATOR [''rm'', ''-f'', fwd_guest_path fwd] checked True False)
       (bnd (forward_control_cmd E b ''forward'' fwd) (\<lambda>again.
        sq (run E again checked) (forward_is_up E b fwd))))))"

text \<open>\<open>failure.message or default\<close>\<close>

definition message_or :: "message \<Rightarrow> exn \<Rightarrow> message" where
  "message_or dflt e =
     (case exn_message e of None \<Rightarrow> dflt | Some m \<Rightarrow> if m = ([], []) then dflt else m)"

text \<open>The errors appended to the list given.\<close>

definition heal_forward_collecting_errors ::
  "env \<Rightarrow> box \<Rightarrow> reverse_forward \<Rightarrow> message list \<Rightarrow> message list io" where
  "heal_forward_collecting_errors E b fwd errors =
     except_yo
       (bnd (heal_reverse_forward E b fwd) (\<lambda>healed.
        ret (if healed then errors
             else errors @ [(''the forward into the VM is still dead after re-issuing it'', [fwd_name fwd])])))
       (\<lambda>failure.
        let m = message_or (''unknown error'', []) failure in
        ret (errors @ [(''the forward into the VM failed while healing it'', fwd_name fwd # fst m # snd m)]))"

definition ensure_forwards :: "env \<Rightarrow> driver \<Rightarrow> box \<Rightarrow> bool \<Rightarrow> message list io" where
  "ensure_forwards E D b aws_enabled =
     bnd (path_exists E (op_sock D)) (\<lambda>there.
     bnd (if \<not> there
          then sq (warn ''1Password not running on this host, skipping its VM forward'' [op_sock D]) (ret [])
          else heal_forward_collecting_errors E b (one_password_forward D) []) (\<lambda>errors.
     if aws_enabled then heal_forward_collecting_errors E b (aws_broker_forward E) errors
     else ret errors))"

definition units_missing_note :: "box \<Rightarrow> message" where
  "units_missing_note b = (''box predates the 1Password/AWS forwards; run'', [yo_cmd b [''bootstrap'']])"

text \<open>What \<open>aws.ensure_aws_broker\<close> ended in: whether it runs, why it could not be turned
  off, and the other errors.\<close>

record broker_outcome =
  aws_runs :: bool
  disable_failure :: "message option"
  broker_errors :: "message list"

definition broker_outcome_of :: "env \<Rightarrow> driver \<Rightarrow> box \<Rightarrow> broker_outcome io" where
  "broker_outcome_of E D b =
     except_yo
       (bnd (ensure_aws_broker E D b) (\<lambda>r.
        ret \<lparr>aws_runs = r, disable_failure = None, broker_errors = []\<rparr>))
       (\<lambda>failure.
        if exn_class failure = Broker_Disable
        then ret \<lparr>aws_runs = False,
                   disable_failure = Some (message_or (''aws-broker could not be disabled'', []) failure),
                   broker_errors = []\<rparr>
        else ret \<lparr>aws_runs = False, disable_failure = None,
                   broker_errors = [message_or (''aws-broker failed'', []) failure]\<rparr>)"

definition service_reports :: "driver \<Rightarrow> box \<Rightarrow> message list \<Rightarrow> message option \<Rightarrow> message list" where
  "service_reports D b errors disable =
     (if errors \<noteq> []
      then [(''recreate the master'', message_texts errors @ [stop_command D, yo_cmd b [''up'']])] else []) @
     (case disable of None \<Rightarrow> [] | Some m \<Rightarrow> [m])"

definition vm_services :: "env \<Rightarrow> driver \<Rightarrow> box \<Rightarrow> unit io" where
  "vm_services E D b =
     bnd (account_status E b) (\<lambda>(status, _).
     if status = Unreachable_Account then raise (unreachable b OPERATOR)
     else
       bnd (vm_units_present E b) (\<lambda>present.
       if \<not> present then warn (fst (units_missing_note b)) (snd (units_missing_note b))
       else
         bnd (broker_outcome_of E D b) (\<lambda>broker.
         bnd (ensure_forwards E D b (aws_runs broker)) (\<lambda>errors.
         let reports = service_reports D b (broker_errors broker @ errors) (disable_failure broker) in
         if reports = [] then ret () else raise (YoError [] (message_texts reports))))))"

subsection \<open>The machine of this box\<close>

lemma find_machine_Some:
  assumes "find_machine b entries = Inr (Some machine_id)"
  obtains entry where "entry \<in> set entries" "is_entry_of b entry"
    "json_get ''id'' entry = Some (JStr machine_id)" "machine_id \<noteq> []"
proof -
  have "\<exists>entry \<in> set entries. is_entry_of b entry
      \<and> json_get ''id'' entry = Some (JStr machine_id) \<and> machine_id \<noteq> []"
    using assms
    by (induction entries) (auto simp: json_str_def split: if_splits option.splits json.splits)
  then show thesis using that by blast
qed

lemma find_machine_None: "find_machine b entries = Inr None \<longleftrightarrow> (\<forall>entry \<in> set entries. \<not> is_entry_of b entry)"
  by (induction entries) (auto split: option.split)

subsection \<open>Healing\<close>

lemma forward_up_left_alone:
  assumes "forward_is_up E b fwd h = (Inr True, t)"
  shows "heal_reverse_forward E b fwd h = (Inr True, t)"
  using assms by (simp add: heal_reverse_forward_def bnd_def ret_def)

text \<open>Whatever healing did, it answers \<open>True\<close> only right after a probe that found it up.\<close>

lemma heal_Inr:
  assumes "heal_reverse_forward E b fwd h = (Inr r, t)"
  obtains u where "forward_is_up E b fwd u = (Inr r, t)"
  using assms unfolding heal_reverse_forward_def
  by (auto elim!: bnd_InrE simp: ret_def split: if_splits)

lemma heal_collecting_Inr:
  assumes "heal_forward_collecting_errors E b fwd errors h = (Inr errors', t)"
  shows "errors' = errors \<and> (\<exists>u. forward_is_up E b fwd u = (Inr True, t))
    \<or> (\<exists>m. errors' = errors @ [m])"
proof -
  let ?body = "bnd (heal_reverse_forward E b fwd) (\<lambda>healed.
        ret (if healed then errors
             else errors @ [(''the forward into the VM is still dead after re-issuing it'', [fwd_name fwd])]))"
  obtain r u where body: "?body h = (r, u)" by fastforce
  show ?thesis
  proof (cases r)
    case (Inl e)
    with assms body show ?thesis
      by (auto simp: heal_forward_collecting_errors_def except_yo_def catch_def ret_def raise_def Let_def
          split: if_splits)
  next
    case (Inr x)
    with assms body have "?body h = (Inr errors', t)"
      by (auto simp: heal_forward_collecting_errors_def except_yo_def catch_def)
    then obtain healed s where "heal_reverse_forward E b fwd h = (Inr healed, s)"
      "errors' = (if healed then errors
             else errors @ [(''the forward into the VM is still dead after re-issuing it'', [fwd_name fwd])])" "s = t"
      by (auto elim!: bnd_InrE simp: ret_def)
    then show ?thesis by (cases healed) (auto elim: heal_Inr)
  qed
qed

lemma ensure_forwards_quiet:
  assumes "ensure_forwards E D b aws_enabled h = (Inr [], t)"
  shows "(exists_ans E h (op_sock D) \<longrightarrow> (\<exists>u v. forward_is_up E b (one_password_forward D) u = (Inr True, v)))
    \<and> (aws_enabled \<longrightarrow> (\<exists>u v. forward_is_up E b (aws_broker_forward E) u = (Inr True, v)))"
proof -
  let ?there = "exists_ans E h (op_sock D)"
  from assms obtain errors u where
    first: "(if \<not> ?there
          then sq (warn ''1Password not running on this host, skipping its VM forward'' [op_sock D]) (ret [])
          else heal_forward_collecting_errors E b (one_password_forward D) []) h = (Inr errors, u)"
    and second: "(if aws_enabled then heal_forward_collecting_errors E b (aws_broker_forward E) errors
     else ret errors) u = (Inr [], t)"
    unfolding ensure_forwards_def by (auto elim!: bnd_InrE simp: path_exists_def reads_def)
  have none: "errors = []"
    using second heal_collecting_Inr [of E b "aws_broker_forward E" errors u "[]" t]
    by (auto simp: ret_def split: if_splits)
  have "\<exists>u v. forward_is_up E b (one_password_forward D) u = (Inr True, v)" if "?there"
    using that first none heal_collecting_Inr [of E b "one_password_forward D" "[]" h errors u] by auto
  moreover have "\<exists>u v. forward_is_up E b (aws_broker_forward E) u = (Inr True, v)" if "aws_enabled"
    using that second none heal_collecting_Inr [of E b "aws_broker_forward E" errors u "[]" t] by auto
  ultimately show ?thesis by blast
qed

lemma vm_services_quiet:
  assumes "vm_services E D b h = (Inr (), t)"
  obtains u v where "vm_units_present E b u = (Inr False, v)"
  | broker u v where "broker_outcome_of E D b u = (Inr broker, v)" "disable_failure broker = None"
      "broker_errors broker = []" "ensure_forwards E D b (aws_runs broker) v = (Inr [], t)"
proof -
  let ?more = "bnd (broker_outcome_of E D b) (\<lambda>broker.
         bnd (ensure_forwards E D b (aws_runs broker)) (\<lambda>errors.
         let reports = service_reports D b (broker_errors broker @ errors) (disable_failure broker) in
         if reports = [] then ret () else raise (YoError [] (message_texts reports))))"
  from assms obtain present u v where present: "vm_units_present E b u = (Inr present, v)"
    and more: "(if \<not> present then warn (fst (units_missing_note b)) (snd (units_missing_note b)) else ?more) v = (Inr (), t)"
    unfolding vm_services_def by (auto elim!: bnd_InrE simp: raise_def split: if_splits prod.splits)
  show thesis
  proof (cases present)
    case False
    with present that(1) show thesis by simp
  next
    case True
    with more have "?more v = (Inr (), t)" by simp
    then obtain broker w errors s where broker: "broker_outcome_of E D b v = (Inr broker, w)"
      and fwd: "ensure_forwards E D b (aws_runs broker) w = (Inr errors, s)"
      and quiet: "(let reports = service_reports D b (broker_errors broker @ errors) (disable_failure broker) in
         if reports = [] then ret () else raise (YoError [] (message_texts reports))) s = (Inr (), t)"
      by (elim bnd_InrE)
    from quiet have "service_reports D b (broker_errors broker @ errors) (disable_failure broker) = []" "s = t"
      by (auto simp: Let_def ret_def raise_def split: if_splits)
    then have "broker_errors broker = []" "errors = []" "disable_failure broker = None"
      by (auto simp: service_reports_def split: if_splits option.splits)
    with broker fwd \<open>s = t\<close> that(2) show thesis by blast
  qed
qed

subsection \<open>Properties\<close>



text \<open>
  The id \<open>yo destroy\<close> gives to \<open>herdr machine remove\<close> is that of an entry whose target is
  this box's alias, and none is removed exactly when no entry is the box's.
\<close>

lemma herdr_machine_is_this_box:
  assumes "json_loads listing = Some (JArr entries)"
  shows "(herdr_machine_id b listing = Inr None \<longleftrightarrow> list_all (\<lambda>e. \<not> is_entry_of b e) entries)
    \<and> (case herdr_machine_id b listing of
         Inr (Some machine_id) \<Rightarrow> list_ex (\<lambda>e. is_entry_of b e \<and> json_get ''id'' e = Some (JStr machine_id)) entries
       | _ \<Rightarrow> True)"
proof -
  have "herdr_machine_id b listing = find_machine b entries"
    using assms by (simp add: herdr_machine_id_def)
  moreover have "list_ex (\<lambda>e. is_entry_of b e \<and> json_get ''id'' e = Some (JStr machine_id)) entries"
    if "find_machine b entries = Inr (Some machine_id)" for machine_id
    using that by (auto simp: list_ex_iff elim: find_machine_Some)
  ultimately show ?thesis
    by (auto simp: find_machine_None list_all_iff split: sum.split option.split)
qed

theorem herdr_machine_is_this_box_witness:
  "herdr_machine_id sample_box ''[]'' = Inr None"
proof -
  have "json_loads ''[]'' = Some (JArr [])" by code_simp
  from herdr_machine_is_this_box [OF this] show ?thesis by simp
qed

end
