(* ===== verification/Yo_Vm.thy ===== *)
theory Yo_Vm
  imports Yo_Unlock Yo_Forwards
begin

text \<open>
  \<open>yolobox_cli/vm.py\<close>: bringing the box up, resizing it, stopping and destroying it,
  bootstrap, garbage collection and the growth of its disk. The waiting loops take their fuel
  as the first argument; a run that has not ended within it raises \<open>StillRunning\<close>, which
  nothing catches. The lemmas show what each command refuses and in which order it acts: the
  passphrase before any change, the forced power-off only after the probe that proved an idle
  wait, under the lock that probe was made under, the steps of a destruction only under it,
  and the disk only ever grown.
\<close>

definition LUKS_MAPPER :: string where "LUKS_MAPPER = ''root''"
definition IN_PLACE_MAX_USED_PERCENT :: nat where "IN_PLACE_MAX_USED_PERCENT = 90"
definition IN_PLACE_HEADROOM_PERCENT :: nat where "IN_PLACE_HEADROOM_PERCENT = 5"
definition IN_PLACE_HEADER_ROOM_MIB :: nat where "IN_PLACE_HEADER_ROOM_MIB = 64"
definition PARTITION_SLACK_BYTES :: nat where "PARTITION_SLACK_BYTES = GIB"
definition MAPPING_SLACK_BYTES :: nat where "MAPPING_SLACK_BYTES = 64 * MIB"
definition RERUN :: string where "RERUN = ''run the command again''"

subsection \<open>A change of size\<close>

record resize_plan =
  rz_current :: box_size
  rz_wanted :: box_size

definition sets_hardware :: "resize_plan \<Rightarrow> bool" where
  "sets_hardware r \<longleftrightarrow>
     (memory_gib (rz_wanted r), cpus (rz_wanted r)) \<noteq> (memory_gib (rz_current r), cpus (rz_current r))"

definition plan_resize :: "driver \<Rightarrow> box \<Rightarrow> string \<Rightarrow> size \<Rightarrow> resize_plan option io" where
  "plan_resize D b status sz =
     (if \<not> asked sz then ret None
      else
        bnd (current_size D) (\<lambda>cur.
        let wanted = fill sz cur in
        if wanted = cur then ret None
        else if disk_gib wanted < disk_gib cur
        then raise (YoError ''--disk is smaller: neither lima nor libvirt can shrink a disk''
                      [box_name b, show_nat (disk_gib cur), show_nat (disk_gib wanted)])
        else if status \<noteq> off_status D
        then
          (let changed = changes_to cur wanted;
               grow_alone = (if status = RUNNING \<and> asked_memory changed = None \<and> asked_cpus changed = None
                             then [yo_cmd b [''disk-grow'', show_nat (disk_gib wanted)]] else []) in
           raise (YoError ''a box is resized only while it is stopped''
                    ([box_name b, status, fst (describe cur)] @ snd (describe cur) @ flags changed
                     @ [yo_cmd b [''down'']] @ grow_alone)))
        else
          bnd (resize_refusal D cur wanted) (\<lambda>refusal.
          case refusal of
            Some m \<Rightarrow> raise (message_error m)
          | None \<Rightarrow> ret (Some \<lparr>rz_current = cur, rz_wanted = wanted\<rparr>))))"

subsection \<open>Bringing the box up\<close>

text \<open>\<open>passphrase or agent.luks_passphrase()\<close>\<close>

definition passphrase_or :: "env \<Rightarrow> driver \<Rightarrow> box \<Rightarrow> string option \<Rightarrow> string io" where
  "passphrase_or E D b p =
     (case p of
        None \<Rightarrow> luks_passphrase E D b
      | Some x \<Rightarrow> if x = [] then luks_passphrase E D b else ret x)"

text \<open>\<open>login_problem\<close> and \<open>unknown_stage_message\<close>.\<close>

definition login_problem :: "driver \<Rightarrow> message option io" where
  "login_problem D =
     except_yo (sq (require_login_key D) (ret None)) (\<lambda>failure. ret (exn_message failure))"

definition unknown_stage_message :: "driver \<Rightarrow> box \<Rightarrow> message option \<Rightarrow> string \<Rightarrow> message io" where
  "unknown_stage_message D b login rerun =
     bnd (ssh_port D) (\<lambda>port.
     ret (''an sshd answers without the stage-2 banner and refused both keys'',
          [show_nat port, box_name b] @ (case login of None \<Rightarrow> [] | Some m \<Rightarrow> fst m # snd m)
          @ [login_fix D, rerun, unknown_next_step D]))"

text \<open>The two halves of \<open>vm_up\<close>: before anything changes, and the start.\<close>

definition up_plan :: "env \<Rightarrow> driver \<Rightarrow> box \<Rightarrow> string option \<Rightarrow> size \<Rightarrow> (size \<times> resize_plan option) io" where
  "up_plan E D b status sz =
     (case status of
        None \<Rightarrow>
          bnd (creation_refusal D sz) (\<lambda>refusal.
          case refusal of
            Some m \<Rightarrow> raise (message_error m)
          | None \<Rightarrow> bnd (lift (for_creation (env_cpus E) sz)) (\<lambda>sz'. ret (sz', None)))
      | Some s \<Rightarrow> bnd (plan_resize D b s sz) (\<lambda>r. ret (sz, r)))"

definition up_from_off :: "env \<Rightarrow> driver \<Rightarrow> box \<Rightarrow> string option \<Rightarrow> string option \<Rightarrow> size \<Rightarrow> resize_plan option
    \<Rightarrow> string option io" where
  "up_from_off E D b status passphrase sz resize_to =
     bnd (passphrase_or E D b passphrase) (\<lambda>p.
     sq (case resize_to of
           None \<Rightarrow> ret ()
         | Some r \<Rightarrow> when_do (sets_hardware r) (resize D (memory_gib (rz_wanted r)) (cpus (rz_wanted r))))
     (sq (start D p (if status = None then sz else NO_SIZE)) (ret (Some p))))"

definition up_running :: "nat \<Rightarrow> env \<Rightarrow> driver \<Rightarrow> box \<Rightarrow> string option \<Rightarrow> string option io" where
  "up_running n E D b passphrase =
     bnd (boot_stage E D b) (\<lambda>stage.
     if stage = Unknown_Stage
     then bnd (unknown_stage_message D b None RERUN) (\<lambda>m. raise (message_error m))
     else if stage = No_Stage
     then bnd (ssh_port D) (\<lambda>port.
          raise (YoError ''Running but neither its initrd nor its sshd answers''
                   [box_name b, show_nat port, list_command D, yo_cmd b [''status'']]))
     else if stage = Initrd
     then bnd (passphrase_or E D b passphrase) (\<lambda>p.
          sq (await (unlock_disk n E D b p None))
          (sq (await (wait_for_operator n E D b)) (ret (Some p))))
     else ret passphrase)"

definition vm_up :: "nat \<Rightarrow> env \<Rightarrow> driver \<Rightarrow> box \<Rightarrow> bool \<Rightarrow> string option \<Rightarrow> size \<Rightarrow> string option io" where
  "vm_up n E D b run_services passphrase sz =
     bnd (config_gaps D) (\<lambda>gaps.
     if fatal_gaps D gaps \<noteq> [] then bnd (config_gap_message D gaps) (\<lambda>m. raise (YoError m []))
     else
       sq (when_do (gaps \<noteq> []) (bnd (config_gap_message D gaps) (\<lambda>m. warn m [])))
       (bnd (vm_status D) (\<lambda>status.
        bnd (up_plan E D b status sz) (\<lambda>(sz', resize_to).
        sq (require_login_key D)
        (bnd (if status \<noteq> Some RUNNING then up_from_off E D b status passphrase sz' resize_to
              else up_running n E D b passphrase) (\<lambda>p.
         sq (ensure_agent_ssh_config E b)
         (sq (ensure_guest_known_hosts E b)
         (sq (when_do run_services (vm_services E D b)) (ret p)))))))))"

subsection \<open>The disk of the guest\<close>

datatype disk_state = Disk_Unreadable | Plain_Ext4 | Encrypted | Disk_Other

definition classify_disk :: "string \<Rightarrow> disk_state" where
  "classify_disk fstype =
     (if fstype = [] then Disk_Unreadable
      else if fstype = ''ext4'' then Plain_Ext4
      else if fstype = ''crypto_LUKS'' then Encrypted
      else Disk_Other)"

definition luks_device_fstype :: "env \<Rightarrow> box \<Rightarrow> string io" where
  "luks_device_fstype E b =
     bnd (guest_out E b [''lsblk'', ''-dno'', ''FSTYPE'', LUKS_DEVICE]) (\<lambda>out. ret (strip out))"

definition guest_generations :: "env \<Rightarrow> box \<Rightarrow> (string \<times> string) io" where
  "guest_generations E b =
     bnd (guest_out E b [''sh'', ''-c'',
            ''readlink -f /nix/var/nix/profiles/system && readlink -f /run/current-system'']) (\<lambda>out.
     let ls = splitlines out in
     ret (if ls \<noteq> [] then ls ! 0 else [], if length ls > 1 then ls ! 1 else []))"

text \<open>\<open>report.abort\<close>: the FAIL lines, and the error with no message.\<close>

definition report_abort :: "message \<Rightarrow> message list \<Rightarrow> 'a io" where
  "report_abort m remedies =
     sq (warn (''FAIL: '' @ fst m) (snd m))
     (sq (for_each remedies (\<lambda>r. warn (''      '' @ fst r) (snd r))) (raise (YoExit 1)))"

definition report_ok :: "message \<Rightarrow> unit io" where
  "report_ok m = say (''ok:   '' @ fst m) (snd m)"

definition booted_generations :: "env \<Rightarrow> box \<Rightarrow> (string \<times> string) io" where
  "booted_generations E b =
     bnd (guest_generations E b) (\<lambda>(profile, booted).
     if booted = [] then report_abort (not_up_hint b ''cannot read the VM's generations'') []
     else ret (profile, booted))"

definition in_place_encryption_warning :: "box \<Rightarrow> message" where
  "in_place_encryption_warning b =
     (''the next boot encrypts the disk in place'',
      [LUKS_DEVICE, yo_cmd b [''up''], yo_cmd b [''gc'', ''--deep'', ''--yes'']])"

definition guest_device_bytes :: "env \<Rightarrow> box \<Rightarrow> string \<Rightarrow> nat io" where
  "guest_device_bytes E b device =
     bnd (guest_out E b [''lsblk'', ''-bdno'', ''SIZE'', device]) (\<lambda>out.
     let sizes = splitlines out; sz = (case sizes of [] \<Rightarrow> [] | s # _ \<Rightarrow> strip s) in
     if \<not> is_ascii_number sz
     then raise (message_error (not_up_hint b (''cannot read the size of '' @ device @ '': '' @ sz)))
     else ret (decimal sz))"

text \<open>\<open>re.search(r"^NAME:\s+(\d+)$", listing, re.MULTILINE)\<close>: the first line start where the
  pattern matches.\<close>

definition field_at :: "string \<Rightarrow> string \<Rightarrow> string option" where
  "field_at name s =
     (if startswith s (name @ '':'') then
        (let r = after (name @ '':'') s; d = dropWhile is_space r;
             ds = takeWhile is_digit d; rest = dropWhile is_digit d in
         if takeWhile is_space r \<noteq> [] \<and> ds \<noteq> [] \<and> (rest = [] \<or> hd rest = CHR 0x0A) then Some ds else None)
      else None)"

fun search_field :: "string \<Rightarrow> bool \<Rightarrow> string \<Rightarrow> string option" where
  "search_field name at_start [] = None"
| "search_field name at_start (c # s) =
     (case (if at_start then field_at name (c # s) else None) of
        Some ds \<Rightarrow> Some ds
      | None \<Rightarrow> search_field name (c = CHR 0x0A) s)"

definition guest_filesystem_bytes :: "env \<Rightarrow> box \<Rightarrow> string \<Rightarrow> nat io" where
  "guest_filesystem_bytes E b device =
     bnd (guest_out E b [''sudo'', ''dumpe2fs'', ''-h'', device]) (\<lambda>listing.
     case (search_field ''Block count'' True listing, search_field ''Block size'' True listing) of
       (Some count, Some block) \<Rightarrow> ret (decimal count * decimal block)
     | (count, block) \<Rightarrow>
         raise (YoError ''cannot read the filesystem size: dumpe2fs printed no''
                  (device # (if count = None then [''Block count''] else [])
                   @ (if block = None then [''Block size''] else []))))"

definition require_partition_grown :: "env \<Rightarrow> box \<Rightarrow> nat \<Rightarrow> unit io" where
  "require_partition_grown E b ceiling_gib =
     bnd (guest_device_bytes E b LUKS_DEVICE) (\<lambda>sz.
     if int sz < int (ceiling_gib * GIB) - int PARTITION_SLACK_BYTES
     then raise (YoError ''the partition is short of the ceiling: growpart did not grow it''
                   [LUKS_DEVICE, show_nat sz, show_nat ceiling_gib, yo_cmd b [''ssh'', ''systemctl'', ''status'', ''growpart'']])
     else ret ())"

definition root_has_room_to_grow :: "env \<Rightarrow> box \<Rightarrow> nat \<Rightarrow> bool io" where
  "root_has_room_to_grow E b ceiling_gib =
     bnd (luks_device_fstype E b) (\<lambda>fstype.
     let disk = classify_disk fstype in
     if disk = Plain_Ext4 then ret False
     else if disk \<noteq> Encrypted
     then raise (YoError ''cannot tell whether the root fills its disk'' [box_name b, fstype, LUKS_DEVICE])
     else
       sq (require_partition_grown E b ceiling_gib)
       (let mapping = ''/dev/mapper/'' @ LUKS_MAPPER in
        bnd (guest_device_bytes E b mapping) (\<lambda>mapping_bytes.
        bnd (guest_device_bytes E b LUKS_DEVICE) (\<lambda>device_bytes.
        if int device_bytes - int mapping_bytes > int MAPPING_SLACK_BYTES then ret True
        else
          bnd (guest_filesystem_bytes E b mapping) (\<lambda>fs_bytes.
          ret (int mapping_bytes - int fs_bytes > int MAPPING_SLACK_BYTES))))))"

subsection \<open>Growing the disk\<close>

definition require_growable_guest :: "env \<Rightarrow> box \<Rightarrow> unit io" where
  "require_growable_guest E b =
     bnd (guest_out E b [''systemctl'', ''show'', ''-p'', ''LoadState'', ''--value'', ''growpart'']) (\<lambda>out.
     let load_state = (case splitlines out of [] \<Rightarrow> [] | l # _ \<Rightarrow> l) in
     if load_state = []
     then raise (message_error (not_up_hint b ''cannot read the growpart unit from the VM''))
     else if load_state \<noteq> ''loaded''
     then bnd (rebuild_hint E b) (\<lambda>hint.
          raise (YoError ''no growpart unit in the VM's current system'' (fst hint # snd hint)))
     else
       bnd (luks_device_fstype E b) (\<lambda>fstype.
       if classify_disk fstype \<noteq> Encrypted
       then raise (YoError ''not encrypted yet, so there is no mapping to grow''
                     [LUKS_DEVICE, yo_cmd b [''bootstrap'']])
       else ret ()))"

definition vda2_size_for_report :: "env \<Rightarrow> box \<Rightarrow> message io" where
  "vda2_size_for_report E b =
     except_yo
       (bnd (guest_out E b [''lsblk'', ''-no'', ''SIZE'', ''/dev/vda2'']) (\<lambda>out.
        ret (case splitlines out of [] \<Rightarrow> (''unreadable: lsblk printed nothing'', []) | s # _ \<Rightarrow> (s, []))))
       (\<lambda>failure. ret (''unreadable'', fst (message_of failure) # snd (message_of failure)))"

definition root_usage_before_grow :: "env \<Rightarrow> box \<Rightarrow> root_usage io" where
  "root_usage_before_grow E b =
     except_yo (guest_root_usage E b)
       (\<lambda>failure. raise (YoError (fst (message_of failure)) (snd (message_of failure) @ [yo_cmd b [''status'']])))"

definition grow_mapping_and_filesystem ::
  "env \<Rightarrow> box \<Rightarrow> string \<Rightarrow> nat \<Rightarrow> root_usage \<Rightarrow> bool \<Rightarrow> unit io" where
  "grow_mapping_and_filesystem E b passphrase ceiling_gib before finishing =
     sq (ssh_run E b OPERATOR [''sudo'', ''cryptsetup'', ''resize'', ''--key-file'', ''-'', LUKS_MAPPER]
           (checked\<lparr>stdin_of := Some passphrase\<rparr>))
     (sq (ssh_run E b OPERATOR [''sudo'', ''resize2fs'', ''/dev/mapper/'' @ LUKS_MAPPER] checked)
     (bnd (except_yo (guest_root_usage E b)
             (\<lambda>failure. raise (YoError ''the ceiling is raised but the grow is unverified''
                (show_nat ceiling_gib # fst (message_of failure) # snd (message_of failure)
                 @ [yo_cmd b [''ssh'', ''df'', ''-k'', ''/'']])))) (\<lambda>after_usage.
      sq (say ''before: '' [human_line before])
      (sq (say ''after:  '' [human_line after_usage])
      (bnd (vda2_size_for_report E b) (\<lambda>vda2.
       sq (say ''after:  vda2 is '' (fst vda2 # snd vda2))
       (if total_kib after_usage > total_kib before then ret ()
        else if finishing then
          sq (require_partition_grown E b ceiling_gib)
             (say ''the root already fills the ceiling; nothing left to grow'' [show_nat ceiling_gib])
        else raise (YoError ''the ceiling is raised but the guest root did not grow''
                      [show_nat ceiling_gib, yo_cmd b [''ssh'', ''systemctl'', ''status'', ''growpart'']]))))))))"

definition finish_previous_grow :: "env \<Rightarrow> box \<Rightarrow> nat \<Rightarrow> string \<Rightarrow> unit io" where
  "finish_previous_grow E b ceiling_gib passphrase =
     sq (require_growable_guest E b)
     (bnd (root_usage_before_grow E b) (\<lambda>before.
      grow_mapping_and_filesystem E b passphrase ceiling_gib before True))"

definition grow_running_disk ::
  "nat \<Rightarrow> env \<Rightarrow> driver \<Rightarrow> box \<Rightarrow> nat \<Rightarrow> nat \<Rightarrow> string option \<Rightarrow> unit io" where
  "grow_running_disk n E D b current_gib wanted_gib passphrase =
     bnd (passphrase_or E D b passphrase) (\<lambda>p.
     bnd (root_usage_before_grow E b) (\<lambda>before.
     sq (stop D)
     (sq (except_yo (grow_disk D current_gib wanted_gib)
            (\<lambda>e. raise (YoErrorAfter e ''is stopped and its disk is still as it was''
               [box_name b, show_nat current_gib, yo_cmd b [''up'', ''--disk'', show_nat wanted_gib]])))
     (except_yo
        (sq (vm_up n E D b True (Some p) NO_SIZE) (grow_mapping_and_filesystem E b p wanted_gib before False))
        (\<lambda>e. raise (YoErrorAfter e ''disk limit is already raised; finish growing it with''
           [box_name b, show_nat wanted_gib, yo_cmd b [''disk-grow'', show_nat wanted_gib]]))))))"

definition grow_to_asked_disk :: "nat \<Rightarrow> env \<Rightarrow> driver \<Rightarrow> box \<Rightarrow> nat \<Rightarrow> string option \<Rightarrow> unit io" where
  "grow_to_asked_disk n E D b wanted_gib passphrase =
     bnd (current_size D) (\<lambda>cur.
     let current_gib = disk_gib cur in
     if wanted_gib < current_gib then ret ()
     else if wanted_gib = current_gib then
       bnd (root_has_room_to_grow E b wanted_gib) (\<lambda>room.
       when_do room (bnd (passphrase_or E D b passphrase) (finish_previous_grow E b wanted_gib)))
     else
       sq (except_yo (require_growable_guest E b)
             (\<lambda>e. raise (YoErrorAfter e ''the disk is as it was; once the guest can grow, grow it with''
                [box_name b, show_nat current_gib, yo_cmd b [''disk-grow'', show_nat wanted_gib]])))
          (grow_running_disk n E D b current_gib wanted_gib passphrase))"

definition cmd_disk_grow :: "nat \<Rightarrow> env \<Rightarrow> driver \<Rightarrow> box \<Rightarrow> nat \<Rightarrow> unit io" where
  "cmd_disk_grow n E D b wanted =
     bnd (current_size D) (\<lambda>cur.
     let current_gib = disk_gib cur in
     if wanted < current_gib
     then raise (YoError ''the ceiling is already larger and can only grow''
                   [box_name b, show_nat current_gib, drv_name D])
     else if wanted = current_gib then
       sq (say ''already has this ceiling; finishing a previous grow'' [drv_name D, box_name b, show_nat current_gib])
       (bnd (luks_passphrase E D b) (\<lambda>p.
        sq (vm_up n E D b True (Some p) NO_SIZE) (finish_previous_grow E b wanted p)))
     else sq (require_growable_guest E b) (grow_running_disk n E D b current_gib wanted None))"

definition cmd_up :: "nat \<Rightarrow> env \<Rightarrow> driver \<Rightarrow> box \<Rightarrow> size \<Rightarrow> unit io" where
  "cmd_up n E D b sz =
     bnd (vm_up n E D b True None sz) (\<lambda>p.
     case asked_disk sz of None \<Rightarrow> ret () | Some d \<Rightarrow> grow_to_asked_disk n E D b d p)"

subsection \<open>Stopping the box\<close>

definition initrd_down_refusal :: "env \<Rightarrow> driver \<Rightarrow> box \<Rightarrow> initrd_reading \<Rightarrow> message io" where
  "initrd_down_refusal E D b reading =
     (let name = box_name b; force = force_stop_command D; up = yo_cmd b [''up'']; down = yo_cmd b [''down''] in
      bnd (initrd_root_ssh_command E D b ''journalctl -u yolobox-luks-migrate -b'') (\<lambda>journal.
      case ir_state reading of
        Migrating \<Rightarrow> ret (''in its initrd, encrypting the disk in place. Not stopping it'', [name, up, down, journal])
      | Unlocking \<Rightarrow> ret (''in its initrd with a yolobox-unlock helper running. Not stopping it'',
                           [name, UNLOCK_FIFO_GLOB, up, down, force])
      | Migration_Failed \<Rightarrow> ret (''in its initrd after its in-place disk encryption failed. Not stopping it'',
                           [name, journal, force])
      | Unlocked_Idle \<Rightarrow>
          bnd (initrd_root_ssh_command E D b ''journalctl -b'') (\<lambda>all.
          ret (''in its initrd with the disk unlocked, and nothing is asking. Not stopping it'',
               [name, up, down, all, force, up]))
      | _ \<Rightarrow> ret (''in its initrd, and yo cannot prove it is idle. Not stopping it'',
               [name, (if ir_cause reading \<noteq> [] then ir_cause reading
                       else if ir_state reading = Waiting_For_Passphrase then ''waiting for the passphrase''
                       else ''unknown''), journal, force])))"

definition unlock_busy_refusal :: "box \<Rightarrow> string \<Rightarrow> string \<Rightarrow> exn" where
  "unlock_busy_refusal b consequence rerun =
     YoError ''another yo is unlocking the box''
       [box_name b, yo_cmd b [''up''], yo_cmd b [''bootstrap''], yo_cmd b [''disk-grow''], consequence, rerun]"

text \<open>What \<open>yo down\<close> does while it holds the unlock lock.\<close>

definition down_in_initrd :: "env \<Rightarrow> driver \<Rightarrow> box \<Rightarrow> unit io" where
  "down_in_initrd E D b =
     bnd (initrd_state E D b) (\<lambda>reading.
     if ir_state reading \<noteq> Waiting_For_Passphrase
     then bnd (initrd_down_refusal E D b reading) (\<lambda>m. raise (message_error m))
     else
       sq (say ''is waiting in its initrd for the passphrase, powering it off'' [box_name b]) (force_stop D))"

definition cmd_down :: "env \<Rightarrow> driver \<Rightarrow> box \<Rightarrow> unit io" where
  "cmd_down E D b =
     bnd (boot_stage E D b) (\<lambda>stage.
     if stage = Unknown_Stage then
       bnd (login_problem D) (\<lambda>login.
       bnd (unknown_stage_message D b login RERUN) (\<lambda>m.
       raise (YoError ''not stopping it'' (fst m # snd m))))
     else if stage \<noteq> Initrd then stop D
     else
       except_busy (unlock_lock E b False (down_in_initrd E D b))
         (raise (unlock_busy_refusal b ''Not stopping it: its answer may start the in-place encryption.''
                   (yo_cmd b [''down'']))))"

subsection \<open>Destroying it\<close>

definition file_removal :: "env \<Rightarrow> string \<Rightarrow> removal" where
  "file_removal E path = \<lparr>step_name = (''delete file'', [tilde E path]), step_do = delete_file E path\<rparr>"

definition destruction_steps :: "env \<Rightarrow> driver \<Rightarrow> box \<Rightarrow> removal list io" where
  "destruction_steps E D b =
     bnd (agent_master_removals E b) (\<lambda>masters.
     bnd (removals D) (\<lambda>machine.
     bnd (herdr_binary E) (\<lambda>herdr.
     bnd (case herdr of None \<Rightarrow> ret [] | Some h \<Rightarrow> herdr_machine_removals E b h) (\<lambda>herdr_steps.
     bnd (path_exists E (flake_ref_file E b)) (\<lambda>pinned.
     ret (masters @ machine @ herdr_steps @ (if pinned then [file_removal E (flake_ref_file E b)] else [])))))))"

definition destroy_body :: "env \<Rightarrow> driver \<Rightarrow> box \<Rightarrow> bool \<Rightarrow> unit io" where
  "destroy_body E D b yes =
     bnd (destruction_steps E D b) (\<lambda>steps.
     if steps = [] then say ''has nothing to destroy'' [box_name b]
     else if yes then
       for_each steps (\<lambda>s. sq (say (fst (step_name s)) (snd (step_name s))) (step_do s))
     else
       sq (say ''Destroying it would:'' [box_name b])
       (sq (for_each steps (\<lambda>s. say (''  - '' @ fst (step_name s)) (snd (step_name s))))
           (say ''Everything on it is lost. Run this to do it.'' [box_name b, yo_cmd b [''destroy'', ''--yes'']])))"

definition cmd_destroy :: "env \<Rightarrow> driver \<Rightarrow> box \<Rightarrow> bool \<Rightarrow> unit io" where
  "cmd_destroy E D b yes =
     except_busy
       (if yes then unlock_lock E b False (destroy_body E D b yes) else destroy_body E D b yes)
       (raise (unlock_busy_refusal b ''Not destroying it.'' (yo_cmd b [''destroy'', ''--yes''])))"

subsection \<open>Bootstrap\<close>

definition too_full :: "root_usage \<Rightarrow> bool" where
  "too_full u \<longleftrightarrow> used_kib u * 100 > total_kib u * IN_PLACE_MAX_USED_PERCENT"

text \<open>The check before a plain disk is encrypted in place.\<close>

definition disk_ready :: "env \<Rightarrow> box \<Rightarrow> unit io" where
  "disk_ready E b =
     bnd (luks_device_fstype E b) (\<lambda>fstype.
     let disk = classify_disk fstype in
     if disk = Disk_Unreadable
     then raise (YoError ''cannot read the type of the disk, is the box up?'' [LUKS_DEVICE, yo_cmd b [''status'']])
     else if disk = Plain_Ext4 then
       bnd (guest_root_usage E b) (\<lambda>u.
       if too_full u
       then raise (YoError ''the root is over what the in-place encryption allows''
                     [box_name b, show_nat (used_kib u * 100 div total_kib u), show_nat IN_PLACE_MAX_USED_PERCENT,
                      show_nat IN_PLACE_HEADROOM_PERCENT, show_nat IN_PLACE_HEADER_ROOM_MIB,
                      yo_cmd b [''gc'', ''--deep'', ''--yes'']])
       else warn (fst (in_place_encryption_warning b)) (snd (in_place_encryption_warning b)))
     else ret ())"

definition build_generation :: "env \<Rightarrow> box \<Rightarrow> string \<Rightarrow> unit io" where
  "build_generation E b ref =
     bnd (locked_rev E b ref) (\<lambda>commit.
     sq (report_ok (''building'', [ref, commit]))
     (let argv = nixos_rebuild_argv b ''boot'' (host_user E) ref commit in
      bnd (ssh_run_inheriting E b OPERATOR argv (plain\<lparr>capture := False\<rparr>) True True) (\<lambda>rebuild.
      if returncode rebuild = REBUILD_BUSY_EXIT then raise (message_error (rebuild_busy_message b))
      else if returncode rebuild \<noteq> 0
      then raise (message_error (failed_message (shlex_join argv) (returncode rebuild) None []))
      else ret ())))"

definition remember_flake_ref :: "env \<Rightarrow> box \<Rightarrow> string option \<Rightarrow> string \<Rightarrow> unit io" where
  "remember_flake_ref E b version ref =
     (if version \<noteq> None then
        sq (private_dir (state_dir E)) (atomic_write E (flake_ref_file E b) (ref @ NL) FILE_MODE_PRIVATE)
      else delete_file E (flake_ref_file E b))"

text \<open>Rebooting into the built generation.\<close>

definition stop_for_reboot :: "driver \<Rightarrow> box \<Rightarrow> unit io" where
  "stop_for_reboot D b =
     except_yo (stop D)
       (\<lambda>e. report_abort (stop_failed D (fst (message_of e) # snd (message_of e)), [])
          ([(''The built generation is installed but not booted; the herdr machine'', []),
            (''and the 1Password/AWS forwards did not run.'', [])]
           @ map (\<lambda>l. (l, [])) (stop_recovery D)
           @ [(''Then re-run: it boots the new generation, sees the two agree, and finishes.'', [yo_cmd b [''bootstrap'']])]))"

definition reboot_into :: "nat \<Rightarrow> env \<Rightarrow> driver \<Rightarrow> box \<Rightarrow> string option \<Rightarrow> string option io" where
  "reboot_into n E D b passphrase =
     bnd (passphrase_or E D b passphrase) (\<lambda>p.
     sq (stop_for_reboot D b)
     (sq (vm_up n E D b False (Some p) NO_SIZE)
     (bnd (booted_generations E b) (\<lambda>(profile, booted).
      if profile \<noteq> booted
      then report_abort (''the VM rebooted but is still not running the built generation'', [])
             [(''profile: '', [profile]), (''booted:  '', [booted]),
              (''Check df /boot in the VM: a half-failed bootloader install leaves the two generations disagreeing.'', [])]
      else sq (report_ok (''rebooted into the built generation'', [])) (ret (Some p))))))"

definition cmd_bootstrap ::
  "(string \<Rightarrow> string) \<Rightarrow> (string \<Rightarrow> string) \<Rightarrow> nat \<Rightarrow> env \<Rightarrow> driver \<Rightarrow> box \<Rightarrow> string option \<Rightarrow> size \<Rightarrow> unit io" where
  "cmd_bootstrap realpath dir_of n E D b version sz =
     bnd (case version of Some v \<Rightarrow> ret v | None \<Rightarrow> lift (flake_ref E (Some b) None)) (\<lambda>ref.
     bnd (vm_up n E D b False None sz) (\<lambda>passphrase.
     sq (report_ok (''VM up'', []))
     (sq (disk_ready E b)
     (sq (build_generation E b ref)
     (sq (remember_flake_ref E b version ref)
     (sq (report_ok (''built from'', [ref]))
     (bnd (booted_generations E b) (\<lambda>(profile, booted).
      bnd (if profile = booted
           then sq (report_ok (''already running the built generation'', [])) (ret passphrase)
           else reboot_into n E D b passphrase) (\<lambda>passphrase.
      sq (case asked_disk sz of None \<Rightarrow> ret () | Some d \<Rightarrow> grow_to_asked_disk n E D b d passphrase)
      (bnd (ensure_ssh_config_include realpath dir_of E b False) (\<lambda>include_present.
       sq (ensure_guest_known_hosts E b)
       (sq (ensure_herdr_machine E b include_present) (vm_services E D b)))))))))))))"

subsection \<open>Garbage collection\<close>

definition cmd_gc :: "env \<Rightarrow> box \<Rightarrow> bool \<Rightarrow> bool \<Rightarrow> unit io" where
  "cmd_gc E b yes deep =
     (let apply_flag = (if yes then [''--apply''] else []); deep_flag = (if deep then [''--deep''] else []) in
      bnd (guest_helper_over True E b OPERATOR ''gc-machine'' apply_flag True plain) (\<lambda>machine.
      sq (require_agent_account E b)
      (bnd (guest_helper_over True E b AGENT ''gc-user'' (apply_flag @ deep_flag) True plain) (\<lambda>user.
       if returncode machine \<noteq> 0 \<or> returncode user \<noteq> 0 then raise (YoExit 1) else ret ()))))"

subsection \<open>What a change of size may be\<close>

lemma plan_resize_Some:
  assumes "plan_resize D b status sz h = (Inr (Some r), t)"
  obtains u where "current_size D h = (Inr (rz_current r), u)" "rz_wanted r = fill sz (rz_current r)"
    "rz_wanted r \<noteq> rz_current r" "disk_gib (rz_current r) \<le> disk_gib (rz_wanted r)"
    "status = off_status D" "resize_refusal D (rz_current r) (rz_wanted r) u = (Inr None, t)"
  using assms
  by (auto simp: plan_resize_def Let_def ret_def raise_def elim!: bnd_InrE split: if_splits option.splits)

lemma plan_resize_None:
  assumes "plan_resize D b status sz h = (Inr None, t)"
  shows "\<not> asked sz \<or> (\<exists>cur u. current_size D h = (Inr cur, u) \<and> fill sz cur = cur)"
  using assms
  by (auto simp: plan_resize_def Let_def ret_def raise_def elim!: bnd_InrE split: if_splits option.splits)

lemma plan_resize_smaller:
  assumes "current_size D h = (Inr cur, u)" and "asked_disk sz = Some d" and "d < disk_gib cur"
  shows "plan_resize D b status sz h
    = (Inl (YoError ''--disk is smaller: neither lima nor libvirt can shrink a disk''
              [box_name b, show_nat (disk_gib cur), show_nat d]), u)"
proof -
  have "asked sz" "disk_gib (fill sz cur) = d" using assms(2) by (simp_all add: asked_def fill_def)
  moreover have "fill sz cur \<noteq> cur" using assms(3) calculation(2) by auto
  ultimately show ?thesis using assms by (simp add: plan_resize_def Let_def bnd_def raise_def)
qed

subsection \<open>Commands that do not depend on an operation they must not run\<close>

text \<open>
  That a command never runs an operation of its driver is stated by replacing that operation:
  the command behaves the same whatever it is.
\<close>

lemma bnd_never: "(\<And>x t. m h \<noteq> (Inr x, t)) \<Longrightarrow> bnd m f h = bnd m g h"
  by (auto simp: bnd_def split: prod.split sum.split)

lemma bnd_agree: "(\<And>x t. m h = (Inr x, t) \<Longrightarrow> f x t = g x t) \<Longrightarrow> bnd m f h = bnd m g h"
  by (auto simp: bnd_def split: prod.split sum.split)

definition with_start :: "driver \<Rightarrow> (nat \<Rightarrow> nat \<Rightarrow> unit io) \<Rightarrow> (string \<Rightarrow> size \<Rightarrow> unit io) \<Rightarrow> driver" where
  "with_start D rz st = D\<lparr>resize := rz, start := st\<rparr>"

lemma luks_passphrase_driver: "op_sock D' = op_sock D \<Longrightarrow> luks_passphrase E D' b = luks_passphrase E D b"
  by (simp add: luks_passphrase_def)

lemma passphrase_or_with_start: "passphrase_or E (with_start D rz st) b = passphrase_or E D b"
  by (simp add: passphrase_or_def luks_passphrase_def with_start_def fun_eq_iff split: option.split)

lemma with_start_parts:
  "config_gaps (with_start D rz st) = config_gaps D" "fatal_gaps (with_start D rz st) = fatal_gaps D"
  "config_gap_message (with_start D rz st) = config_gap_message D" "vm_status (with_start D rz st) = vm_status D"
  "require_login_key (with_start D rz st) = require_login_key D" "ssh_port (with_start D rz st) = ssh_port D"
  "creation_refusal (with_start D rz st) = creation_refusal D" "current_size (with_start D rz st) = current_size D"
  "off_status (with_start D rz st) = off_status D" "resize_refusal (with_start D rz st) = resize_refusal D"
  "list_command (with_start D rz st) = list_command D"
  "initrd_identity (with_start D rz st) = initrd_identity D"
  "initrd_identity_agent (with_start D rz st) = initrd_identity_agent D"
  "op_sock (with_start D rz st) = op_sock D"
  "stop_command (with_start D rz st) = stop_command D" "keepalive_pid (with_start D rz st) = keepalive_pid D"
  "keepalive_pid_error (with_start D rz st) = keepalive_pid_error D"
  "login_fix (with_start D rz st) = login_fix D" "unknown_next_step (with_start D rz st) = unknown_next_step D"
  by (simp_all add: with_start_def)

lemma boot_stage_with_start: "boot_stage E (with_start D rz st) b = boot_stage E D b"
  unfolding boot_stage_def stage2_up_def sshd_answers_def probe_sshd_def ssh_banner_def
    initrd_ssh_argv_def initrd_endpoint_of_def with_start_parts ..

lemma up_plan_with_start: "up_plan E (with_start D rz st) b = up_plan E D b"
  unfolding up_plan_def plan_resize_def with_start_parts ..

lemma vm_services_with_start: "vm_services E (with_start D rz st) b = vm_services E D b"
  unfolding vm_services_def broker_outcome_of_def ensure_aws_broker_def ensure_forwards_def
    one_password_forward_def service_reports_def with_start_parts ..

lemma no_passphrase_no_start:
  assumes "\<And>h x t. luks_passphrase E D b h \<noteq> (Inr x, t)"
  shows "vm_up n E D b run_services None sz = vm_up n E (with_start D rz st) b run_services None sz"
proof -
  define M :: "string option io" where "M = bnd (passphrase_or E D b None) (\<lambda>_. raise StillRunning)"
  have stuck: "bnd (passphrase_or E D b None) f = M" for f :: "string \<Rightarrow> string option io"
    unfolding M_def by (rule ext, rule bnd_never) (simp add: passphrase_or_def assms)
  show ?thesis
    unfolding vm_up_def up_plan_with_start vm_services_with_start with_start_parts
      up_from_off_def up_running_def boot_stage_with_start passphrase_or_with_start
      unknown_stage_message_def stuck ..
qed

subsection \<open>The order in which a box that is off is started\<close>

lemma vm_up_Inr:
  assumes "vm_up n E D b run_services passphrase sz h = (Inr q, t)"
  obtains status u v w x sz' r where "vm_status D u = (Inr status, v)"
    "up_plan E D b status sz v = (Inr (sz', r), w)" "require_login_key D w = (Inr (), x)"
    "\<exists>y. (if status \<noteq> Some RUNNING then up_from_off E D b status passphrase sz' r
        else up_running n E D b passphrase) x = (Inr q, y)"
proof -
  from assms have "\<exists>status u v w x sz' r y. vm_status D u = (Inr status, v)
    \<and> up_plan E D b status sz v = (Inr (sz', r), w) \<and> require_login_key D w = (Inr (), x)
    \<and> (if status \<noteq> Some RUNNING then up_from_off E D b status passphrase sz' r
        else up_running n E D b passphrase) x = (Inr q, y)"
    unfolding vm_up_def
    by (auto elim!: bnd_InrE simp: raise_def ret_def split: if_splits) blast+
  with that show thesis by blast
qed

lemma up_from_off_Inr:
  assumes "up_from_off E D b status passphrase sz r h = (Inr q, t)"
  obtains p u v where "q = Some p" "passphrase_or E D b passphrase h = (Inr p, u)"
    "(case r of None \<Rightarrow> ret ()
      | Some rz \<Rightarrow> when_do (sets_hardware rz) (resize D (memory_gib (rz_wanted rz)) (cpus (rz_wanted rz)))) u = (Inr (), v)"
    "start D p (if status = None then sz else NO_SIZE) v = (Inr (), t)"
  using assms unfolding up_from_off_def by (elim bnd_InrE) (auto simp: ret_def)

lemma up_from_off_started:
  assumes "up_from_off E D b status passphrase sz r h = (Inr q, t)"
  shows "\<exists>p y z k. q = Some p \<and> passphrase_or E D b passphrase h = (Inr p, y)
    \<and> (case r of None \<Rightarrow> ret ()
       | Some rz \<Rightarrow> when_do (sets_hardware rz) (resize D (memory_gib (rz_wanted rz)) (cpus (rz_wanted rz)))) y = (Inr (), z)
    \<and> start D p (if status = None then sz else NO_SIZE) z = (Inr (), k)"
  using assms by (rule up_from_off_Inr) blast

subsection \<open>When a box is powered off by force\<close>

definition with_force :: "driver \<Rightarrow> unit io \<Rightarrow> driver" where
  "with_force D f = D\<lparr>force_stop := f\<rparr>"

lemma with_force_parts:
  "vm_status (with_force D f) = vm_status D" "require_login_key (with_force D f) = require_login_key D"
  "ssh_port (with_force D f) = ssh_port D" "stop (with_force D f) = stop D"
  "force_stop_command (with_force D f) = force_stop_command D"
  "initrd_identity (with_force D f) = initrd_identity D"
  "initrd_identity_agent (with_force D f) = initrd_identity_agent D"
  "login_fix (with_force D f) = login_fix D" "unknown_next_step (with_force D f) = unknown_next_step D"
  "force_stop (with_force D f) = f"
  by (simp_all add: with_force_def)

lemma probes_with_force:
  "boot_stage E (with_force D f) b = boot_stage E D b"
  "initrd_state E (with_force D f) b = initrd_state E D b"
  "initrd_down_refusal E (with_force D f) b = initrd_down_refusal E D b"
  "login_problem (with_force D f) = login_problem D"
  "unknown_stage_message (with_force D f) b = unknown_stage_message D b"
  unfolding boot_stage_def stage2_up_def sshd_answers_def probe_sshd_def ssh_banner_def initrd_state_def
    initrd_down_refusal_def initrd_root_ssh_command_def login_problem_def unknown_stage_message_def
    initrd_ssh_argv_def initrd_endpoint_of_def with_force_parts by (rule refl)+

lemma down_in_initrd_force:
  assumes "down_in_initrd E (with_force D f) b h \<noteq> down_in_initrd E D b h"
  obtains reading u where "initrd_state E D b h = (Inr reading, u)" "ir_state reading = Waiting_For_Passphrase"
proof -
  have "\<exists>reading u. initrd_state E D b h = (Inr reading, u) \<and> ir_state reading = Waiting_For_Passphrase"
  proof (rule ccontr)
    assume "\<not> ?thesis"
    then have "down_in_initrd E (with_force D f) b h = down_in_initrd E D b h"
      unfolding down_in_initrd_def probes_with_force with_force_parts
      by (intro bnd_agree) auto
    with assms show False by simp
  qed
  with that show thesis by blast
qed

lemma unlock_lock_cases:
  "unlock_lock E b False m h =
     (if lock_busy E (h @ [Made_Dir (state_dir E)]) (unlock_lock_path E b)
      then (Inl LockBusy, h @ [Made_Dir (state_dir E)])
      else (case m (h @ [Made_Dir (state_dir E), Took_Lock (unlock_lock_path E b)]) of
              (r, t) \<Rightarrow> (r, t @ [Dropped_Lock (unlock_lock_path E b)])))"
  by (simp add: unlock_lock_def host_state_lock_def with_lock_def private_dir_def emit_def modifies_def
      bnd_def reads_def raise_def finally_do_def unlock_lock_path_def split: prod.split sum.split)

lemma cmd_down_force:
  assumes "cmd_down E (with_force D f) b h \<noteq> cmd_down E D b h"
  obtains u v reading where "boot_stage E D b h = (Inr Initrd, u)"
    "\<not> lock_busy E (u @ [Made_Dir (state_dir E)]) (unlock_lock_path E b)"
    "initrd_state E D b (u @ [Made_Dir (state_dir E), Took_Lock (unlock_lock_path E b)]) = (Inr reading, v)"
    "ir_state reading = Waiting_For_Passphrase"
proof -
  obtain r u where boot: "boot_stage E D b h = (r, u)" by fastforce
  have r: "r = Inr Initrd"
  proof (rule ccontr)
    assume "r \<noteq> Inr Initrd"
    with boot have "cmd_down E (with_force D f) b h = cmd_down E D b h"
      unfolding cmd_down_def probes_with_force with_force_parts
      by (intro bnd_agree) auto
    with assms show False by simp
  qed
  let ?w = "u @ [Made_Dir (state_dir E), Took_Lock (unlock_lock_path E b)]"
  let ?busy = "lock_busy E (u @ [Made_Dir (state_dir E)]) (unlock_lock_path E b)"
  have run: "cmd_down E D' b h = except_busy (unlock_lock E b False (down_in_initrd E D' b))
         (raise (unlock_busy_refusal b ''Not stopping it: its answer may start the in-place encryption.''
                   (yo_cmd b [''down'']))) u" if "boot_stage E D' b = boot_stage E D b" for D'
    using that boot r by (simp add: cmd_down_def bnd_def)
  have differ: "unlock_lock E b False (down_in_initrd E (with_force D f) b) u
      \<noteq> unlock_lock E b False (down_in_initrd E D b) u"
    using assms run [of D] run [of "with_force D f"]
    by (auto simp: probes_with_force except_busy_def catch_def)
  then have "\<not> ?busy" and "down_in_initrd E (with_force D f) b ?w \<noteq> down_in_initrd E D b ?w"
    unfolding unlock_lock_cases by (auto split: if_splits)
  with boot r that show thesis by (elim down_in_initrd_force) blast
qed

lemma cmd_down_busy:
  assumes "boot_stage E D b h = (Inr Initrd, u)"
    and "lock_busy E (u @ [Made_Dir (state_dir E)]) (unlock_lock_path E b)"
  shows "cmd_down E D b h =
    (Inl (unlock_busy_refusal b ''Not stopping it: its answer may start the in-place encryption.'' (yo_cmd b [''down''])),
     u @ [Made_Dir (state_dir E)])"
  using assms
  by (simp add: cmd_down_def bnd_run_Inr except_busy_def catch_def unlock_lock_cases LockBusy_def raise_def)

subsection \<open>What a destruction touches\<close>

text \<open>What listing the steps leaves: the ssh checks, herdr's list, and the lines said.\<close>

definition listing_events :: "env \<Rightarrow> box \<Rightarrow> event set" where
  "listing_events E b =
     ssh_events E b \<union> {Ran [herdr, ''machine'', ''list'', ''--json''] None | herdr. True} \<union> {Said m | m. True}"

lemma logs_agent_master_removals [footprint]:
  "ssh_events E b \<subseteq> A \<Longrightarrow> logs_only A (agent_master_removals E b)"
  unfolding agent_master_removals_def by (intro footprint)

lemma logs_destruction_steps:
  assumes "logs_only A (removals D)"
  shows "logs_only (A \<union> listing_events E b) (destruction_steps E D b)"
proof -
  let ?A = "A \<union> listing_events E b"
  have ssh: "ssh_events E b \<subseteq> ?A" by (auto simp: listing_events_def)
  have machine: "logs_only ?A (removals D)" using assms by (rule logs_only_mono) auto
  have herdr: "logs_only ?A (herdr_machine_removals E b h)" for h
    unfolding herdr_machine_removals_def listed_herdr_machine_id_def
    by (intro footprint) (auto simp: listing_events_def checked_def plain_def)
  show ?thesis
    unfolding destruction_steps_def herdr_binary_def
    by (intro footprint machine herdr ssh)
qed

lemma logs_destroy_listing:
  assumes "logs_only A (removals D)"
  shows "logs_only (A \<union> listing_events E b) (cmd_destroy E D b False)"
proof -
  have "Said m \<in> A \<union> listing_events E b" for m by (simp add: listing_events_def)
  then have "logs_only (A \<union> listing_events E b) (destroy_body E D b False)"
    unfolding destroy_body_def if_False
    by (intro footprint logs_destruction_steps [OF assms])
  then show ?thesis
    unfolding cmd_destroy_def except_busy_def if_False
    by (intro footprint)
qed

text \<open>\<open>yo destroy --yes\<close>: everything it does is between taking the unlock lock and dropping it.\<close>

lemma cmd_destroy_run:
  assumes "logs_only UNIV (destroy_body E D b True)" and "cmd_destroy E D b True h = (r, t)"
  shows "if lock_busy E (h @ [Made_Dir (state_dir E)]) (unlock_lock_path E b)
    then t = h @ [Made_Dir (state_dir E)]
      \<and> r = Inl (unlock_busy_refusal b ''Not destroying it.'' (yo_cmd b [''destroy'', ''--yes'']))
    else \<exists>es. t = h @ [Made_Dir (state_dir E), Took_Lock (unlock_lock_path E b)] @ es @ [Dropped_Lock (unlock_lock_path E b)]"
proof (cases "lock_busy E (h @ [Made_Dir (state_dir E)]) (unlock_lock_path E b)")
  case True
  with assms(2) show ?thesis
    by (simp add: cmd_destroy_def except_busy_def catch_def unlock_lock_cases LockBusy_def raise_def)
next
  case False
  let ?w = "h @ [Made_Dir (state_dir E), Took_Lock (unlock_lock_path E b)]"
  obtain q u where q: "destroy_body E D b True ?w = (q, u)" by fastforce
  with assms(1) obtain es where "u = ?w @ es" by (rule logs_onlyE)
  with q False assms(2) show ?thesis
    by (auto simp: cmd_destroy_def except_busy_def catch_def unlock_lock_cases raise_def
        split: sum.splits if_splits)
qed

lemma logs_destroy_body:
  assumes "ordinary A" and "logs_only A (removals D)"
    and "\<And>h rs t x. removals D h = (Inr rs, t) \<Longrightarrow> x \<in> set rs \<Longrightarrow> logs_only A (step_do x)"
  shows "logs_only A (destroy_body E D b True)"
proof -
  have steps: "logs_only A (destruction_steps E D b)"
    using logs_destruction_steps [OF assms(2)]
    by (rule logs_only_mono) (auto simp: listing_events_def ordinary_events assms(1) dest: subsetD [OF ordinary_ssh [OF assms(1)]])
  have each: "logs_only A (step_do x)" if "destruction_steps E D b h = (Inr rs, t)" "x \<in> set rs" for h rs t x
  proof -
    have stop: "logs_only A (stop_master E b AGENT m)" for m
      by (rule logs_stop_master [OF ordinary_ssh [OF assms(1)]])
    have rm: "logs_only A (sq (run E argv checked) (ret ()))" for argv
      by (intro footprint ordinary_events assms(1))
    have del: "logs_only A (delete_file E p)" for p by (intro footprint ordinary_events assms(1))
    from that(1) obtain masters u machine v hs w w' found pinned where
      m: "agent_master_removals E b h = (Inr masters, u)" and d: "removals D u = (Inr machine, v)"
      and hs: "(case found of None \<Rightarrow> ret [] | Some h \<Rightarrow> herdr_machine_removals E b h) w = (Inr hs, w')"
      and "rs = masters @ machine @ hs @ (if pinned then [file_removal E (flake_ref_file E b)] else [])"
      unfolding destruction_steps_def
      by (elim bnd_InrE) (simp only: ret_def prod.inject sum.inject, blast)
    then have rs: "set rs \<subseteq> set masters \<union> set machine \<union> set hs \<union> {file_removal E (flake_ref_file E b)}"
      by auto
    from m have "\<forall>y \<in> set masters. logs_only A (step_do y)"
      by (auto simp: agent_master_removals_def ret_def stop elim!: bnd_InrE split: if_splits)
    moreover have "\<forall>y \<in> set machine. logs_only A (step_do y)" using assms(3) [OF d] by blast
    moreover from hs have "\<forall>y \<in> set hs. logs_only A (step_do y)"
      by (auto simp: herdr_machine_removals_def ret_def rm [unfolded ret_def] elim!: bnd_InrE split: option.splits)
    moreover have "logs_only A (step_do (file_removal E (flake_ref_file E b)))"
      by (simp add: file_removal_def del)
    ultimately show ?thesis using rs that(2) by blast
  qed
  show ?thesis
    unfolding destroy_body_def if_True
  proof (rule logs_bnd_result [OF steps])
    fix h rs t
    assume "destruction_steps E D b h = (Inr rs, t)"
    note each = each [OF this]
    show "logs_only A (if rs = [] then say ''has nothing to destroy'' [box_name b]
        else for_each rs (\<lambda>s. sq (say (fst (step_name s)) (snd (step_name s))) (step_do s)))"
    proof -
      have "logs_only A (for_each xs (\<lambda>s. sq (say (fst (step_name s)) (snd (step_name s))) (step_do s)))"
        if "set xs \<subseteq> set rs" for xs
        using that by (induction xs) (auto intro!: footprint each ordinary_events assms(1))
      from this [of rs] show ?thesis by (auto intro!: footprint ordinary_events assms(1))
    qed
  qed
qed

subsection \<open>A disk only grows\<close>

definition only_growing :: "driver \<Rightarrow> (nat \<Rightarrow> nat \<Rightarrow> unit io) \<Rightarrow> driver" where
  "only_growing D bad = D\<lparr>grow_disk := (\<lambda>c w. if c < w then grow_disk D c w else bad c w)\<rparr>"

lemma only_growing_parts:
  "config_gaps (only_growing D x) = config_gaps D" "fatal_gaps (only_growing D x) = fatal_gaps D"
  "config_gap_message (only_growing D x) = config_gap_message D" "vm_status (only_growing D x) = vm_status D"
  "require_login_key (only_growing D x) = require_login_key D" "ssh_port (only_growing D x) = ssh_port D"
  "creation_refusal (only_growing D x) = creation_refusal D" "current_size (only_growing D x) = current_size D"
  "off_status (only_growing D x) = off_status D" "resize_refusal (only_growing D x) = resize_refusal D"
  "list_command (only_growing D x) = list_command D" "initrd_identity (only_growing D x) = initrd_identity D"
  "initrd_identity_agent (only_growing D x) = initrd_identity_agent D" "op_sock (only_growing D x) = op_sock D"
  "stop_command (only_growing D x) = stop_command D" "keepalive_pid (only_growing D x) = keepalive_pid D"
  "keepalive_pid_error (only_growing D x) = keepalive_pid_error D" "drv_name (only_growing D x) = drv_name D"
  "login_fix (only_growing D x) = login_fix D" "unknown_next_step (only_growing D x) = unknown_next_step D"
  "resize (only_growing D x) = resize D" "start (only_growing D x) = start D" "stop (only_growing D x) = stop D"
  "start_command (only_growing D x) = start_command D" "vm_lost_hint (only_growing D x) = vm_lost_hint D"
  "verify_initrd_listener (only_growing D x) = verify_initrd_listener D"
  "initrd_unseen_hint (only_growing D x) = initrd_unseen_hint D"
  by (simp_all add: only_growing_def)

lemma probes_only_growing:
  "initrd_ssh_argv E (only_growing D x) b = initrd_ssh_argv E D b"
  "initrd_endpoint_of E (only_growing D x) b = initrd_endpoint_of E D b"
  unfolding initrd_ssh_argv_def initrd_endpoint_of_def only_growing_parts by (rule refl)+

lemma turn_only_growing: "unlock_turn E (only_growing D x) b = unlock_turn E D b"
  unfolding fun_eq_iff unlock_turn_def run_initrd_helper_def helper_session_def helper_streams_def helper_failure_message_def
    initrd_root_ssh_command_def stage2_up_def sshd_answers_def probe_sshd_def turn_starter_def turn_end_def
    deadline_after_def vm_lost_error_def initrd_timeout_error_def probes_only_growing only_growing_parts
  by (intro allI refl)

lemma unlock_only_growing:
  "unlock_loop n E (only_growing D x) b p st = unlock_loop n E D b p st"
proof (induction n)
  case (Suc n)
  show ?case by (rule ext) (unfold unlock_loop.simps turn_only_growing Suc, rule refl)
qed (simp add: fun_eq_iff)

lemma operator_only_growing: "operator_loop n E (only_growing D x) b dl = operator_loop n E D b dl"
proof (induction n)
  case (Suc n)
  have "operator_turn E (only_growing D x) b dl = operator_turn E D b dl"
    unfolding operator_turn_def probe_sshd_def vm_lost_error_def probes_only_growing only_growing_parts ..
  then show ?case unfolding operator_loop.simps Suc by (rule arg_cong)
qed simp

lemma vm_up_only_growing: "vm_up n E (only_growing D x) b = vm_up n E D b"
  unfolding fun_eq_iff vm_up_def up_plan_def plan_resize_def up_from_off_def up_running_def passphrase_or_def
    luks_passphrase_def boot_stage_def stage2_up_def sshd_answers_def probe_sshd_def ssh_banner_def
    unknown_stage_message_def unlock_disk_def wait_for_operator_def
    vm_services_def broker_outcome_of_def ensure_aws_broker_def ensure_forwards_def
    one_password_forward_def service_reports_def
    unlock_only_growing operator_only_growing probes_only_growing only_growing_parts
  by (intro allI refl)

lemma grow_running_only_growing:
  "c < w \<Longrightarrow> grow_running_disk n E (only_growing D x) b c w p = grow_running_disk n E D b c w p"
  unfolding grow_running_disk_def vm_up_only_growing passphrase_or_def luks_passphrase_def only_growing_parts
  by (simp add: only_growing_def)

lemma disk_grow_only_grows: "cmd_disk_grow n E (only_growing D x) b w = cmd_disk_grow n E D b w"
  unfolding cmd_disk_grow_def vm_up_only_growing luks_passphrase_def only_growing_parts
  by (rule ext, rule bnd_agree) (simp add: Let_def grow_running_only_growing)

lemma grow_to_asked_only_grows:
  "grow_to_asked_disk n E (only_growing D x) b w p = grow_to_asked_disk n E D b w p"
  unfolding grow_to_asked_disk_def passphrase_or_def luks_passphrase_def only_growing_parts
  by (rule ext, rule bnd_agree) (simp add: Let_def grow_running_only_growing)

lemma cmd_up_only_grows: "cmd_up n E (only_growing D x) b sz = cmd_up n E D b sz"
  unfolding cmd_up_def vm_up_only_growing grow_to_asked_only_grows ..

text \<open>A grow that failed after the ceiling was raised says what finishes it, and with which code.\<close>

lemma except_yo_After:
  assumes "except_yo m (\<lambda>e. raise (YoErrorAfter e w args)) h = (Inl err, t)" and "is_yo_error err"
  obtains e where "m h = (Inl e, t)" "is_yo_error e" "err = YoErrorAfter e w args"
  using assms by (auto simp: except_yo_def catch_def raise_def split: prod.splits sum.splits if_splits)

subsection \<open>Properties\<close>

text \<open>
  C4: \<open>yo down\<close> powers a box off by force only when it found it in its initrd, took the unlock
  lock at once, and a probe made under that lock found an idle wait for the passphrase: on every
  other run it does the same whatever its driver's forced stop would do.
\<close>

theorem forced_stop_only_on_proved_idle_wait:
  "cmd_down E (with_force D f) b h = cmd_down E D b h
   \<or> (\<exists>u v reading. boot_stage E D b h = (Inr Initrd, u)
        \<and> lock_busy E (u @ [Made_Dir (state_dir E)]) (unlock_lock_path E b) = False
        \<and> initrd_state E D b (u @ [Made_Dir (state_dir E), Took_Lock (unlock_lock_path E b)]) = (Inr reading, v)
        \<and> ir_state reading = Waiting_For_Passphrase)"
proof (cases "cmd_down E (with_force D f) b h = cmd_down E D b h")
  case False
  then show ?thesis by (rule cmd_down_force) auto
qed blast

text \<open>
  While another yo holds the unlock lock, \<open>yo down\<close> leaves a box in its initrd running, and
  says so; it does nothing after it failed to take the lock.
\<close>

lemma down_refuses_while_unlocking:
  assumes "boot_stage E D b h = (Inr Initrd, u)"
    and "lock_busy E (u @ [Made_Dir (state_dir E)]) (unlock_lock_path E b)"
  shows "cmd_down E D b h =
    (Inl (unlock_busy_refusal b ''Not stopping it: its answer may start the in-place encryption.'' (yo_cmd b [''down''])),
     u @ [Made_Dir (state_dir E)])"
  using assms by (rule cmd_down_busy)

definition busy_env :: env where
  "busy_env = sample_env\<lparr>lock_busy := (\<lambda>h p. True)\<rparr>"

theorem down_refuses_while_unlocking_witness:
  "\<exists>e t. cmd_down busy_env sample_driver sample_box [] = (Inl e, t) \<and> is_yo_error e"
proof -
  have "fst (boot_stage busy_env sample_driver sample_box []) = Inr Initrd" by code_simp
  then obtain u where u: "boot_stage busy_env sample_driver sample_box [] = (Inr Initrd, u)"
    by (metis prod.collapse)
  have "lock_busy busy_env (u @ [Made_Dir (state_dir busy_env)]) (unlock_lock_path busy_env sample_box)"
    by (simp add: busy_env_def)
  from down_refuses_while_unlocking [OF u this] show ?thesis by (simp add: unlock_busy_refusal_def)
qed

text \<open>
  C10: without a disk passphrase (1Password is not running, has no key, or declines) a \<open>yo up\<close>
  that was given none neither resizes nor starts the box: it does the same whatever those
  operations of its driver would do.
\<close>

theorem no_passphrase_changes_nothing:
  assumes "\<And>h x t. luks_passphrase E D b h \<noteq> (Inr x, t)"
  shows "vm_up n E D b run_services None sz = vm_up n E (with_start D rz st) b run_services None sz"
  using assms by (rule no_passphrase_no_start)

theorem no_passphrase_changes_nothing_witness:
  "vm_up 9 sample_env sample_driver sample_box True None NO_SIZE
    = vm_up 9 sample_env (with_start sample_driver (\<lambda>m c. ret ()) (\<lambda>p s. ret ())) sample_box True None NO_SIZE"
proof -
  have "luks_passphrase sample_env sample_driver sample_box h \<noteq> (Inr x, t)" for h x t
    by (simp add: luks_passphrase_def sample_env_def path_exists_def reads_def bnd_def raise_def)
  then show ?thesis by (rule no_passphrase_changes_nothing)
qed



text \<open>
  A change of size is planned only for a box that is off, only when it changes something,
  only with the driver's consent and never to a smaller disk; and its target is the size asked,
  filled from the current one.
\<close>

lemma planned_resize_is_allowed:
  assumes "plan_resize D b status sz h = (Inr (Some r), t)"
  shows "\<exists>u. current_size D h = (Inr (rz_current r), u) \<and> rz_wanted r = fill sz (rz_current r)
    \<and> rz_wanted r \<noteq> rz_current r \<and> disk_gib (rz_current r) \<le> disk_gib (rz_wanted r)
    \<and> status = off_status D \<and> resize_refusal D (rz_current r) (rz_wanted r) u = (Inr None, t)"
  using assms by (rule plan_resize_Some) blast

theorem planned_resize_is_allowed_witness:
  "\<exists>r. plan_resize sample_driver sample_box ''Stopped'' (NO_SIZE\<lparr>asked_disk := Some 120\<rparr>) [] = (Inr (Some r), [])
    \<and> disk_gib (rz_current r) \<le> disk_gib (rz_wanted r)"
proof -
  let ?r = "\<lparr>rz_current = sample_size, rz_wanted = sample_size\<lparr>disk_gib := 120\<rparr>\<rparr>"
  have run: "plan_resize sample_driver sample_box ''Stopped'' (NO_SIZE\<lparr>asked_disk := Some 120\<rparr>) [] = (Inr (Some ?r), [])"
    by (simp add: plan_resize_def asked_def NO_SIZE_def sample_driver_def sample_size_def fill_def bnd_def ret_def Let_def)
  from planned_resize_is_allowed [OF run] run show ?thesis by blast
qed

text \<open>
  Everything \<open>yo destroy --yes\<close> does after it found the lock free lies between taking the
  box's unlock lock and dropping it; if another yo holds it, the command refuses and does
  nothing more.
\<close>

lemma destruction_under_the_lock:
  assumes "logs_only UNIV (removals D)"
    and "\<And>h rs t x. removals D h = (Inr rs, t) \<Longrightarrow> x \<in> set rs \<Longrightarrow> logs_only UNIV (step_do x)"
    and "cmd_destroy E D b True h = (r, t)"
  shows "if lock_busy E (h @ [Made_Dir (state_dir E)]) (unlock_lock_path E b)
    then t = h @ [Made_Dir (state_dir E)]
      \<and> r = Inl (unlock_busy_refusal b ''Not destroying it.'' (yo_cmd b [''destroy'', ''--yes'']))
    else \<exists>es. t = h @ [Made_Dir (state_dir E), Took_Lock (unlock_lock_path E b)] @ es @ [Dropped_Lock (unlock_lock_path E b)]"
  by (rule cmd_destroy_run [OF logs_destroy_body [OF ordinary_UNIV assms(1,2)] assms(3)])

theorem destruction_under_the_lock_witness:
  "\<exists>r es. cmd_destroy sample_env sample_driver sample_box True []
    = (r, [Made_Dir (state_dir sample_env), Took_Lock (unlock_lock_path sample_env sample_box)] @ es
          @ [Dropped_Lock (unlock_lock_path sample_env sample_box)])"
proof -
  obtain r t where run: "cmd_destroy sample_env sample_driver sample_box True [] = (r, t)" by fastforce
  have "removals sample_driver = ret []" by (simp add: sample_driver_def)
  then have parts: "logs_only UNIV (removals sample_driver)"
    "\<And>h rs t x. removals sample_driver h = (Inr rs, t) \<Longrightarrow> x \<in> set rs \<Longrightarrow> logs_only UNIV (step_do x)"
    by (simp_all add: logs_ret) (simp add: ret_def)
  have "\<not> lock_busy sample_env h p" for h p by (simp add: sample_env_def)
  with destruction_under_the_lock [OF parts run] run show ?thesis by auto
qed

text \<open>
  Without \<open>--yes\<close>, \<open>yo destroy\<close> changes nothing: beyond what its driver does to list its
  removals, it only runs ssh's checks and herdr's listing, keeps its own ssh config current, and
  prints.
\<close>

lemma listing_a_destruction_changes_nothing:
  assumes "logs_only A (removals D)"
  shows "logs_only (A \<union> listing_events E b) (cmd_destroy E D b False)"
  using assms by (rule logs_destroy_listing)

theorem listing_a_destruction_changes_nothing_witness:
  "logs_only ({} \<union> listing_events sample_env sample_box) (cmd_destroy sample_env sample_driver sample_box False)"
  by (rule listing_a_destruction_changes_nothing) (simp add: sample_driver_def logs_ret)

text \<open>
  C33: no command gives its driver a disk size that is not larger than the current one: \<open>yo up
  --disk\<close>, \<open>yo disk-grow\<close> and the growth after a bootstrap do the same whatever growing to a
  smaller or equal size would do.
\<close>

theorem disks_only_grow:
  "cmd_up n E (only_growing D bad) b sz = cmd_up n E D b sz
   \<and> cmd_disk_grow n E (only_growing D bad) b w = cmd_disk_grow n E D b w
   \<and> grow_to_asked_disk n E (only_growing D bad) b w p = grow_to_asked_disk n E D b w p"
  by (simp add: cmd_up_only_grows disk_grow_only_grows grow_to_asked_only_grows)

end
