(* ===== verification/Yo_Status.thy ===== *)
theory Yo_Status
  imports Yo_Vm
begin

text \<open>
  \<open>yolobox_cli/status.py\<close> and the \<open>Report\<close> of \<open>ui.py\<close> it fills: the judgements of the guest's
  answers (egress table, network check, tailscale), the lines of each component, and
  \<open>cmd_status\<close> with its exit code. The theorems say when the egress and the
  network lines warn; what a status that exits 0 vouches for is in \<open>Yo_Quiet_Status\<close>.
\<close>

subsection \<open>Lines of the report\<close>

text \<open>A \<open>StatusLine\<close>: its text, and whether it is a warning.\<close>

type_synonym status_line = "message \<times> bool"

definition fine :: "string \<Rightarrow> string list \<Rightarrow> status_line" where "fine txt args = ((txt, args), False)"

definition alarm :: "string \<Rightarrow> string list \<Rightarrow> status_line" where "alarm txt args = ((txt, args), True)"

lemmas line_defs = fine_def alarm_def

text \<open>Of several lines \<open>key=value\<close> for a key the last counts, as \<open>dict\<close> has it.\<close>

definition guest_field :: "string \<Rightarrow> string \<Rightarrow> string" where
  "guest_field txt key =
     (let pairs = map (\<lambda>l. case partition_on CHR ''='' l of (k, _, v) \<Rightarrow> (k, v))
                    (filter (\<lambda>l. CHR ''='' \<in> set l) (splitlines txt)) in
      case map_of (rev pairs) key of None \<Rightarrow> [] | Some v \<Rightarrow> v)"

subsection \<open>Tailscale\<close>

definition TAILSCALE_PROBE :: string where
  "TAILSCALE_PROBE =
     ''command -v tailscale >/dev/null 2>&1 || { echo NO_TAILSCALE; exit 0; }; tailscale status --json''"

text \<open>A \<open>BackendState\<close> that is no string is none of the known ones; the text shows it empty.\<close>

definition tailscale_status_line :: "box \<Rightarrow> string \<Rightarrow> string \<Rightarrow> status_line" where
  "tailscale_status_line b out err =
     (if strip out = ''NO_TAILSCALE''
      then fine ''tailscale: box predates the tailnet module; run'' [yo_cmd b [''bootstrap'']]
      else
        (case (case json_loads out of None \<Rightarrow> None | Some v \<Rightarrow> json_get ''BackendState'' v) of
           None \<Rightarrow> alarm ''tailscale: WARNING status unreadable''
                     [if strip err \<noteq> [] then strip err else if strip out \<noteq> [] then strip out else ''no output'']
         | Some state \<Rightarrow>
             if state = JStr ''NeedsLogin''
             then fine ''tailscale: not logged in (optional); to join a tailnet'' [yo_cmd b [''ssh'', ''sudo'', ''tailscale'', ''up'']]
             else if state = JStr ''NeedsMachineAuth''
             then fine ''tailscale: awaiting approval in the tailnet admin console (optional)'' []
             else if state \<noteq> JStr ''Running''
             then alarm ''tailscale: WARNING''
                    [case state of JStr s \<Rightarrow> s | _ \<Rightarrow> [], yo_cmd b [''ssh'', ''sudo'', ''tailscale'', ''up'']]
             else fine ''tailscale: Running'' []))"

subsection \<open>The egress table\<close>

definition EGRESS_TABLE :: string where "EGRESS_TABLE = ''inet yolobox-egress''"
definition EGRESS_UNIT :: string where "EGRESS_UNIT = ''yolobox-egress''"
definition EGRESS_PROBE :: "string list" where
  "EGRESS_PROBE = [''systemctl'', ''show'', ''-p'', ''LoadState'', ''-p'', ''ActiveState'', EGRESS_UNIT]"
definition EGRESS_TABLE_PROBE :: "string list" where
  "EGRESS_TABLE_PROBE = [''sudo'', ''-n'', ''nft'', ''list'', ''table''] @ split_words EGRESS_TABLE"
definition NFT_MISSING_TABLE :: string where "NFT_MISSING_TABLE = ''No such file or directory''"
definition EGRESS_PRIVATE_V4 :: string where "EGRESS_PRIVATE_V4 = ''10.0.0.0/8''"
definition EGRESS_PRIVATE_V6 :: string where "EGRESS_PRIVATE_V6 = ''fc00::/7''"

definition dquoted :: "string \<Rightarrow> string" where "dquoted s = CHR 0x22 # s @ [CHR 0x22]"

definition local_accept :: "string \<Rightarrow> bool" where
  "local_accept line \<longleftrightarrow>
     startswith line ''oifname {'' \<and> endswith line ''} accept'' \<and> contains line (dquoted ''lo'')
     \<and> contains line (dquoted ''tailscale0'')"

definition rejects :: "string \<Rightarrow> string \<Rightarrow> string \<Rightarrow> bool" where
  "rejects family net line \<longleftrightarrow> contains line family \<and> contains line net \<and> contains line ''reject''"

definition egress_table_holds :: "string \<Rightarrow> bool" where
  "egress_table_holds listing =
     (let ls = map strip (splitlines listing) in
      list_ex (\<lambda>l. startswith l ''type filter hook output'') ls
      \<and> list_ex (\<lambda>l. startswith l ''chain output'') ls
      \<and> list_ex local_accept ls
      \<and> list_ex (rejects ''ip daddr'' EGRESS_PRIVATE_V4) ls
      \<and> list_ex (rejects ''ip6 daddr'' EGRESS_PRIVATE_V6) ls)"

definition egress_active_line :: "box \<Rightarrow> completed \<Rightarrow> status_line" where
  "egress_active_line b table =
     (let blocked = fine ''egress: host and LAN blocked'' [];
          wrong = alarm ''egress: WARNING unit active but table looks wrong: the box may reach the host''
                    [yo_cmd b [''ssh'', ''sudo'', ''systemctl'', ''restart'', EGRESS_UNIT], yo_cmd b [''bootstrap'']] in
      if returncode table \<noteq> 0
      then (if \<not> contains (stderr table) NFT_MISSING_TABLE then blocked else wrong)
      else if egress_table_holds (stdout table) then blocked else wrong)"

datatype egress_tier = Recovery | Last_Resort | No_Table | Unreadable_Table | Unknown_Table

definition EGRESS_TIER_CHAINS :: "(string \<times> egress_tier) list" where
  "EGRESS_TIER_CHAINS =
     [(''chain output_lastresort {'', Last_Resort), (''chain output_recovery {'', Recovery),
      (''chain output {'', Recovery)]"

definition egress_tier :: "completed \<Rightarrow> egress_tier" where
  "egress_tier table =
     (if returncode table \<noteq> 0
      then (if contains (stderr table) NFT_MISSING_TABLE then No_Table else Unreadable_Table)
      else
        (let chains = List.map_filter (map_of EGRESS_TIER_CHAINS) (map strip (splitlines (stdout table))) in
         if Last_Resort \<in> set chains then Last_Resort
         else if Recovery \<in> set chains then Recovery
         else Unknown_Table))"

definition egress_fallback_line :: "box \<Rightarrow> string \<Rightarrow> completed \<Rightarrow> status_line" where
  "egress_fallback_line b active table =
     (let restart = yo_cmd b [''ssh'', ''sudo'', ''systemctl'', ''restart'', EGRESS_UNIT];
          logs = yo_cmd b [''ssh'', ''journalctl'', ''-u'', EGRESS_UNIT];
          remedies = [EGRESS_UNIT, active, yo_cmd b [''ssh'', ''sudo'', ''nixos-rebuild'', ''switch'', ''--rollback''],
                      logs, yo_cmd b [''ssh'', ''sudo'', ''nft'', ''list'', ''table'', EGRESS_TABLE]] in
      if returncode table = 0 \<and> egress_table_holds (stdout table)
      then alarm ''egress: WARNING full rules loaded, but the unit that loads them is not active''
             [EGRESS_UNIT, active, restart, logs]
      else
        (case egress_tier table of
           Recovery \<Rightarrow> alarm ''egress: WARNING recovery table: the egress rules failed to load, the box has no network'' remedies
         | Last_Resort \<Rightarrow> alarm ''egress: WARNING last-resort table: neither the egress rules nor the recovery rules loaded'' remedies
         | No_Table \<Rightarrow> alarm ''egress: WARNING no table (fail-open): the box may reach the host and the LAN'' remedies
         | Unreadable_Table \<Rightarrow> alarm ''egress: WARNING the egress rules failed to load and the live table could not be read''
             (remedies @ [if strip (stderr table) \<noteq> [] then strip (stderr table) else ''no message''])
         | Unknown_Table \<Rightarrow> alarm ''egress: WARNING the egress rules failed to load and the live table is none of the three tiers'' remedies))"

definition egress_status_line :: "box \<Rightarrow> completed \<Rightarrow> completed io \<Rightarrow> status_line io" where
  "egress_status_line b probe_result read_table =
     (let load = guest_field (stdout probe_result) ''LoadState'';
          active = guest_field (stdout probe_result) ''ActiveState'' in
      if load = ''not-found''
      then ret (alarm ''egress: box predates the egress table; run'' [yo_cmd b [''bootstrap'']])
      else if load = ''masked''
      then ret (alarm ''egress: WARNING the egress table is masked: the box may reach the host; unmask with''
                  [yo_cmd b [''ssh'', ''sudo'', ''systemctl'', ''unmask'', EGRESS_UNIT]])
      else if load \<noteq> ''loaded'' \<or> active = []
      then ret (fine ''egress: not checked, the probe answered''
                  [strip (stdout probe_result), show_int (returncode probe_result), strip (stderr probe_result)])
      else bnd read_table (\<lambda>table.
           ret (if active = ''active'' then egress_active_line b table else egress_fallback_line b active table)))"

subsection \<open>The network check\<close>

datatype gateway = Gateway_Ok | Gateway_Dead | Gateway_Skipped

definition GATEWAY_WORDS :: "(string \<times> gateway) list" where
  "GATEWAY_WORDS = [(''ok'', Gateway_Ok), (''dead'', Gateway_Dead), (''skipped'', Gateway_Skipped)]"

datatype root_disk = Root_Ok | Root_Full | Not_Reported

definition ROOT_DISK_WORDS :: "(string \<times> root_disk) list" where
  "ROOT_DISK_WORDS = [(''ok'', Root_Ok), (''full'', Root_Full), ([], Not_Reported)]"

fun gateway_word :: "gateway \<Rightarrow> string" where
  "gateway_word Gateway_Ok = ''ok''"
| "gateway_word Gateway_Dead = ''dead''"
| "gateway_word Gateway_Skipped = ''skipped''"

record net_check =
  egress_ok :: bool
  nc_gateway :: gateway
  nc_root_disk :: root_disk

definition network_status_line :: "driver \<Rightarrow> box \<Rightarrow> net_check \<Rightarrow> status_line" where
  "network_status_line D b c =
     (if nc_root_disk c = Root_Full
      then alarm ''network: WARNING the guest's root disk is full, so name resolution can fail''
             [if egress_ok c then ''ok'' else ''dead'', gateway_word (nc_gateway c), yo_cmd b [''gc'', ''--yes'']]
      else if nc_gateway c = Gateway_Skipped
      then (if egress_ok c
            then fine ''network: ok (lima's gateway probe skipped: this box blocks it by design)'' []
            else alarm ''network: WARNING guest egress is dead (lima's gateway probe skipped: this box blocks it by design)'' [])
      else if egress_ok c \<and> nc_gateway c = Gateway_Ok then fine ''network: ok'' []
      else if nc_gateway c = Gateway_Ok
      then alarm ''network: WARNING guest egress is dead while lima's gateway answers DNS'' []
      else if egress_ok c
      then alarm ''network: WARNING lima's gateway does not answer DNS while egress works'' []
      else alarm ''network: WARNING the guest reaches neither the internet nor lima's gateway DNS''
             [yo_cmd b [''status''], drv_name D])"

definition parse_net_check :: "string \<Rightarrow> net_check option" where
  "parse_net_check txt =
     (let egress = guest_field txt ''egress'' in
      if egress \<notin> {''ok'', ''dead''} then None
      else
        (case map_of GATEWAY_WORDS (guest_field txt ''gateway'') of
           None \<Rightarrow> None
         | Some g \<Rightarrow>
             (case map_of ROOT_DISK_WORDS (guest_field txt ''rootdisk'') of
                None \<Rightarrow> None
              | Some disk \<Rightarrow> Some \<lparr>egress_ok = (egress = ''ok''), nc_gateway = g, nc_root_disk = disk\<rparr>)))"

text \<open>\<open>except Unreachable: raise\<close> before \<open>except YoError\<close>.\<close>

definition except_reached :: "'a io \<Rightarrow> (exn \<Rightarrow> 'a io) \<Rightarrow> 'a io" where
  "except_reached m f = except_yo m (\<lambda>e. if exn_class e = Unreachable_Box then raise e else f e)"

definition guest_network_line :: "env \<Rightarrow> driver \<Rightarrow> box \<Rightarrow> status_line io" where
  "guest_network_line E D b =
     bnd (except_reached
            (bnd (guest_helper E b OPERATOR ''net-check'' [] False plain) (\<lambda>c. ret (Inr c)))
            (\<lambda>e. ret (Inl e))) (\<lambda>answer.
     ret (case answer of
        Inl e \<Rightarrow> fine ''network: not checked'' (message_texts [message_of e])
      | Inr c \<Rightarrow>
          (case parse_net_check (stdout c) of
             None \<Rightarrow> fine ''network: not checked, net-check answered''
                       [strip (stdout c), show_int (returncode c), strip (stderr c)]
           | Some net \<Rightarrow> network_status_line D b net)))"

subsection \<open>The disk\<close>

definition DISK_WARN_PERCENT :: nat where "DISK_WARN_PERCENT = 90"

definition encryption_line :: "env \<Rightarrow> box \<Rightarrow> status_line io" where
  "encryption_line E b =
     bnd (except_yo (bnd (luks_device_fstype E b) (\<lambda>fstype. ret (Inr fstype))) (\<lambda>e. ret (Inl e))) (\<lambda>answer.
     ret (case answer of
        Inl e \<Rightarrow>
          if exn_class e = Unreachable_Box then alarm ''disk:'' (message_texts [message_of e])
          else fine ''disk: cannot read the type'' (LUKS_DEVICE # message_texts [message_of e])
      | Inr fstype \<Rightarrow>
          (case classify_disk fstype of
             Disk_Unreadable \<Rightarrow> fine ''disk: cannot read the type'' [LUKS_DEVICE]
           | Encrypted \<Rightarrow> fine ''disk:'' [LUKS_DEVICE, fstype]
           | _ \<Rightarrow> alarm ''disk: NOT encrypted; rebuild and reboot'' [LUKS_DEVICE, fstype, yo_cmd b [''bootstrap'']])))"

text \<open>The use column of the line df prints, and whether it is due a warning.\<close>

definition use_percent :: "string \<Rightarrow> string" where
  "use_percent df = (let fs = split_words df in if length fs > 4 then rstrip_char CHR ''%'' (fs ! 4) else [])"

definition usage_lines :: "box \<Rightarrow> string \<Rightarrow> status_line list" where
  "usage_lines b df =
     (if df = [] then []
      else fine ''disk: guest'' [df] #
           (if is_ascii_number (use_percent df) \<and> decimal (use_percent df) \<ge> DISK_WARN_PERCENT
            then [alarm ''disk: WARNING guest / is this full (percent); reclaim, or raise the ceiling''
                    [use_percent df, yo_cmd b [''gc'', ''--deep'', ''--yes''], yo_cmd b [''disk-grow'', ''<GiB>'']]]
            else []))"

definition guest_usage_lines :: "env \<Rightarrow> box \<Rightarrow> status_line list io" where
  "guest_usage_lines E b =
     except_yo (bnd (guest_root_usage E b) (\<lambda>u. ret (usage_lines b (human_line u))))
       (\<lambda>e. ret [fine ''disk: guest'' (message_texts [message_of e])])"

definition disk_lines :: "env \<Rightarrow> driver \<Rightarrow> box \<Rightarrow> bool \<Rightarrow> status_line list io" where
  "disk_lines E D b reachable =
     bnd (if reachable then guest_usage_lines E b else ret []) (\<lambda>usage.
     bnd (if reachable then bnd (encryption_line E b) (\<lambda>l. ret [l]) else ret []) (\<lambda>encryption.
     bnd (disk_image D) (\<lambda>img.
     ret (usage @ encryption
          @ (case img of None \<Rightarrow> []
             | Some (label, kib) \<Rightarrow> [fine ''disk: image allocates (GiB) on this host'' [label, show_nat (kib div MIB)]])))))"

subsection \<open>The AWS broker\<close>

definition aws_disabled :: status_line where
  "aws_disabled = fine ''aws: disabled (no 'aws' CLI or no SSO profiles in ~/.aws/config)'' []"

text \<open>What the report says of the broker's own health, given the pid it should watch.\<close>

definition broker_line :: "env \<Rightarrow> box \<Rightarrow> nat option \<Rightarrow> broker_health \<Rightarrow> status_line" where
  "broker_line E b pid health =
     (let watched = json_get ''watch_pid'' (bh_info health);
          shown_pid = (case watched of None \<Rightarrow> ''None'' | Some v \<Rightarrow> (case json_int v of None \<Rightarrow> [] | Some i \<Rightarrow> show_int i)) in
      case bh_state health of
        Broker_Unreachable \<Rightarrow> alarm ''aws: broker not reachable on this host's'' [aws_broker_ctl_sock E]
      | No_Control \<Rightarrow> alarm ''aws: broker has no control socket (started by an older yo); replaced by'' [yo_cmd b [''up'']]
      | Broker_Healthy \<Rightarrow>
          (case pid of
             Some p \<Rightarrow>
               if checked_pid watched = Some (int p)
               then fine ''aws: broker healthy, watching hostagent pid'' [show_nat p]
               else alarm ''aws: broker running but stale, watching pid and current hostagent pid'' [shown_pid, show_nat p]
           | None \<Rightarrow> alarm ''aws: broker running but stale, watching pid and current hostagent pid'' [shown_pid, ''None'']))"

definition aws_lines :: "env \<Rightarrow> driver \<Rightarrow> box \<Rightarrow> bool \<Rightarrow> status_line list io" where
  "aws_lines E D b reachable =
     bnd (which E ''aws'') (\<lambda>aws.
     if aws = None then ret [aws_disabled]
     else
       bnd (except_yo (bnd (aws_allowlist E) (\<lambda>ps. ret (Inr ps))) (\<lambda>e. ret (Inl e))) (\<lambda>allowed.
       case allowed of
         Inl e \<Rightarrow> ret [alarm ''aws: config unreadable'' (message_texts [message_of e])]
       | Inr ps \<Rightarrow>
           if ps = [] then ret [aws_disabled]
           else if \<not> reachable then ret [fine ''aws: guest forward not checked (VM unreachable)'' []]
           else
             bnd (forward_is_up E b (aws_broker_forward E)) (\<lambda>up.
             let forward_line = ((''aws: guest forward is'', [if up then ''up'' else ''down'']), \<not> up) in
             bnd (except_yo (bnd (running_keepalive_pid D) (\<lambda>p. ret (Inr p))) (\<lambda>e. ret (Inl e))) (\<lambda>pid.
             case pid of
               Inl e \<Rightarrow> ret [forward_line, alarm ''aws: cannot read the pid the broker watches'' (message_texts [message_of e])]
             | Inr p \<Rightarrow> bnd (aws_broker_health E) (\<lambda>health. ret [forward_line, broker_line E b p health])))))"

subsection \<open>The report\<close>

text \<open>
  What runs while a report is being filled: the history, and the warnings so far. An operation
  of the model keeps the report; \<open>warned\<close> and \<open>report_line\<close> are the methods \<open>warn\<close> and \<open>emit\<close>.
\<close>

type_synonym 'a reporting = "(history \<times> message list, exn, 'a) eff"

definition beside :: "'a io \<Rightarrow> 'a reporting" where
  "beside m = (\<lambda>(h, ws). case m h of (r, t) \<Rightarrow> (r, t, ws))"

definition report_warn :: "message \<Rightarrow> unit reporting" where
  "report_warn m = sq (modifies (\<lambda>(h, ws). (h, ws @ [m]))) (beside (say (fst m) (snd m)))"

definition report_line :: "status_line \<Rightarrow> unit reporting" where
  "report_line l = (if snd l then report_warn (fst l) else beside (say (fst (fst l)) (snd (fst l))))"

definition unit_line :: "string \<Rightarrow> string \<Rightarrow> status_line" where
  "unit_line u st = ((''proxy:'', [u, if st \<noteq> [] then st else ''unknown'']), st \<noteq> ''active'')"

definition proxy_unit :: "env \<Rightarrow> box \<Rightarrow> string \<Rightarrow> unit reporting" where
  "proxy_unit E b u =
     bnd (beside (ssh_run E b OPERATOR [''systemctl'', ''show'', ''-p'', ''ActiveState'', ''--value'', u] plain)) (\<lambda>c.
     report_line (unit_line u (strip (stdout c))))"

definition forward_units :: "env \<Rightarrow> driver \<Rightarrow> box \<Rightarrow> unit reporting" where
  "forward_units E D b =
     bnd (beside (vm_units_present E b)) (\<lambda>present.
     if present
     then bnd (beside (forward_is_up E b (one_password_forward D))) (\<lambda>up.
          sq (report_line ((''1password: guest forward is'', [if up then ''up'' else ''down'']), \<not> up))
             (for_each PROXY_SOCKET_UNITS (proxy_unit E b)))
     else report_warn (units_missing_note b))"

definition status_guest_services :: "env \<Rightarrow> driver \<Rightarrow> box \<Rightarrow> unit reporting" where
  "status_guest_services E D b =
     bnd (beside (built_by E b)) (\<lambda>guest_version.
     sq (beside (say ''yolobox: host yo, box built by''
           [env_version E, case guest_version of None \<Rightarrow> ''unknown (box built before /etc/yolobox/version existed)'' | Some v \<Rightarrow> v]))
     (sq (case version_drift b (env_version E) guest_version of None \<Rightarrow> ret () | Some m \<Rightarrow> report_warn m)
     (sq (forward_units E D b)
     (bnd (beside (ssh_run E b OPERATOR [''sh'', ''-c'', TAILSCALE_PROBE] plain)) (\<lambda>c.
     sq (report_line (tailscale_status_line b (stdout c) (stderr c)))
     (bnd (beside (ssh_run E b OPERATOR EGRESS_PROBE plain)) (\<lambda>egress.
     bnd (beside (egress_status_line b egress (ssh_run E b OPERATOR EGRESS_TABLE_PROBE plain))) (\<lambda>l.
     sq (report_line l)
     (bnd (beside (guest_network_line E D b)) report_line)))))))))"

subsection \<open>\<open>yo status\<close>\<close>

definition state_words :: "initrd_state \<Rightarrow> string" where
  "state_words st =
     (case st of
        Waiting_For_Passphrase \<Rightarrow> ''waiting for the passphrase''
      | Migrating \<Rightarrow> ''encrypting the disk in place''
      | Unlocking \<Rightarrow> ''unlocking the disk, or holding the leftover of an unlock''
      | Migration_Failed \<Rightarrow> ''stopped after a failed in-place encryption''
      | Unlocked_Idle \<Rightarrow> ''unlocked, with nothing asking and nothing running''
      | Unknown_State \<Rightarrow> ''in a state yo cannot prove idle'')"

definition initrd_disk_line :: "box \<Rightarrow> initrd_reading \<Rightarrow> message" where
  "initrd_disk_line b reading =
     (''disk: locked, in its initrd'',
      [box_name b, state_words (ir_state reading)]
      @ (if ir_state reading = Waiting_For_Passphrase then [''unlock it with: '', yo_cmd b [''up'']]
         else if ir_state reading = Migrating then [''do not stop it; finish the boot with: '', yo_cmd b [''up'']]
         else (if ir_cause reading \<noteq> [] then [ir_cause reading] else []) @ [yo_cmd b [''down''], ''explains how to stop it'']))"

text \<open>What the report says of a box that does not answer.\<close>

definition unreachable_lines :: "env \<Rightarrow> driver \<Rightarrow> box \<Rightarrow> message option \<Rightarrow> boot_stage \<Rightarrow> message \<Rightarrow> unit reporting" where
  "unreachable_lines E D b login stage detail =
     sq (when_do (detail \<noteq> ([], [])) (beside (warn (fst detail) (snd detail))))
     (sq (if stage = Unknown_Stage
          then bnd (beside (unknown_stage_message D b login (yo_cmd b [''down''] @ '' or '' @ yo_cmd b [''up'']))) (\<lambda>m.
               report_warn (''vm: '' @ fst m, snd m))
          else report_warn (''vm: unreachable, is it up? start it with'', [yo_cmd b [''up'']]))
         (when_do (stage = Initrd)
            (bnd (beside (initrd_state E D b)) (\<lambda>reading.
             let m = initrd_disk_line b reading in beside (say (fst m) (snd m))))))"

definition config_lines :: "driver \<Rightarrow> unit reporting" where
  "config_lines D =
     bnd (beside (except_yo
            (bnd (config_gaps D) (\<lambda>gaps. bnd (config_notes D) (\<lambda>notes. ret (Inr (gaps, notes)))))
            (\<lambda>e. ret (Inl e)))) (\<lambda>read_config.
     case read_config of
       Inl e \<Rightarrow> report_warn (drv_name D, message_texts [message_of e])
     | Inr (gaps, notes) \<Rightarrow>
         sq (if gaps \<noteq> []
             then bnd (beside (config_gap_message D gaps)) (\<lambda>m. report_warn (drv_name D, [m]))
             else beside (say (drv_name D @ '': reverse forwards ok'') []))
            (for_each notes (\<lambda>note. report_line (fine (drv_name D) [note]))))"

definition host_gap_line :: "driver \<Rightarrow> string \<Rightarrow> status_line" where
  "host_gap_line D gap = alarm (drv_name D @ '': WARNING'') [gap]"

definition account_of :: "env \<Rightarrow> box \<Rightarrow> boot_stage \<Rightarrow> (account_status \<times> message) io" where
  "account_of E b stage =
     (if stage \<in> {Initrd, Unknown_Stage} then ret (Unreachable_Account, ([], [])) else account_status E b)"

definition probe_services :: "env \<Rightarrow> driver \<Rightarrow> box \<Rightarrow> bool reporting" where
  "probe_services E D b =
     catch (sq (status_guest_services E D b) (ret True))
       (\<lambda>e. if exn_class e = Unreachable_Box
            then sq (report_warn (''vm: lost while probing'', message_texts [message_of e])) (ret False)
            else raise e)"

text \<open>The three parts of a status: the host's own state, what the box says, and the rest of the host.\<close>

definition status_tail :: "env \<Rightarrow> driver \<Rightarrow> box \<Rightarrow> bool \<Rightarrow> unit reporting" where
  "status_tail E D b answers =
     sq (config_lines D)
     (bnd (beside (host_gaps D)) (\<lambda>gaps.
     sq (for_each gaps (\<lambda>gap. report_line (host_gap_line D gap)))
     (bnd (beside (aws_lines E D b answers)) (\<lambda>aws. for_each aws report_line))))"

definition status_box :: "env \<Rightarrow> driver \<Rightarrow> box \<Rightarrow> message option \<Rightarrow> boot_stage \<Rightarrow> account_status \<times> message \<Rightarrow> unit reporting" where
  "status_box E D b login stage account =
     (case account of (status, detail) \<Rightarrow>
      let reachable = (status \<noteq> Unreachable_Account) in
      sq (when_do (\<not> reachable) (unreachable_lines E D b login stage detail))
      (sq (when_do (status = Agent_Failing) (report_warn (''agent: login fails'', fst detail # snd detail)))
      (bnd (beside (disk_lines E D b reachable)) (\<lambda>disk.
      sq (for_each disk report_line)
      (bnd (if reachable then probe_services E D b else ret False) (status_tail E D b))))))"

definition status_report :: "env \<Rightarrow> driver \<Rightarrow> box \<Rightarrow> unit reporting" where
  "status_report E D b =
     bnd (beside (show_status D)) (\<lambda>failure.
     sq (case failure of None \<Rightarrow> ret () | Some m \<Rightarrow> report_warn m)
     (bnd (beside (login_problem D)) (\<lambda>login.
     sq (case login of None \<Rightarrow> ret () | Some m \<Rightarrow> report_warn (''login: '' @ fst m, snd m))
     (bnd (beside (boot_stage E D b)) (\<lambda>stage.
      bnd (beside (account_of E b stage)) (status_box E D b login stage))))))"

definition cmd_status :: "env \<Rightarrow> driver \<Rightarrow> box \<Rightarrow> unit io" where
  "cmd_status E D b = (\<lambda>h.
     case status_report E D b (h, []) of
       (Inl e, t, ws) \<Rightarrow> (Inl e, t)
     | (Inr _, t, ws) \<Rightarrow> (if ws \<noteq> [] then raise (YoExit 1) t else ret () t))"

end
