(* ===== verification/Yo_Libvirt_Host.thy ===== *)
theory Yo_Libvirt_Host
  imports Yo_Driver
begin

text \<open>
  \<open>yolobox_cli/libvirt_host.py\<close>: what the Linux host must hold (the daemon's version, the host
  unit, the account of the VMs, the ports, the ACL of passt's directory) and what the XML of a
  defined domain may hold. Parsing the XML itself is \<open>xml_of\<close> of the environment; reading the
  elements yo judges is modelled. The lemmas show what a domain with no gap is, which ports the
  window has, who owns the sockets of an \<open>ss\<close> listing, and what the ACL mask leaves.
\<close>

definition LIBVIRT_URI :: string where "LIBVIRT_URI = ''qemu:///system''"
definition LIBVIRT_MIN_VERSION :: "nat list" where "LIBVIRT_MIN_VERSION = [12, 2, 0]"
definition VM_USER :: string where "VM_USER = ''yolobox-vm''"
definition HOST_UNIT :: string where "HOST_UNIT = ''yolobox-host.service''"
definition PASST_DIR :: string where "PASST_DIR = ''/run/libvirt/qemu/passt''"
definition DOMAIN_NS :: string where "DOMAIN_NS = ''https://github.com/aka-rider/yolobox''"

definition DOMAIN_ELEMENTS_ALLOWED :: "string list" where
  "DOMAIN_ELEMENTS_ALLOWED =
     [''name'', ''metadata'', ''memory'', ''vcpu'', ''os'', ''features'', ''cpu'', ''clock'', ''on_poweroff'',
      ''on_reboot'', ''on_crash'', ''devices'', ''seclabel'', ''uuid'', ''currentMemory'', ''resource'']"

text \<open>The devices by tag, each with the types it may have; none where any will do.\<close>

definition DEVICES_ALLOWED :: "(string \<times> string list option) list" where
  "DEVICES_ALLOWED =
     [(''disk'', Some [''volume'']), (''interface'', None), (''serial'', Some [''pty'']),
      (''console'', Some [''pty'']), (''controller'', Some [''usb'', ''sata'', ''pci'']), (''video'', None),
      (''rng'', None), (''memballoon'', None), (''emulator'', None), (''input'', Some [''mouse'', ''keyboard'']),
      (''audio'', Some [''none'']), (''watchdog'', None)]"

definition RNG_BACKENDS :: "(string \<times> string) list" where
  "RNG_BACKENDS = [(''random'', ''/dev/urandom''), (''random'', ''/dev/random'')]"

definition QEMU_NS :: string where "QEMU_NS = ''{http://libvirt.org/schemas/domain/qemu/1.0}''"
definition GUEST_SSH_PORT :: nat where "GUEST_SSH_PORT = 22"
definition PORT_RANGE_FILE :: string where "PORT_RANGE_FILE = ''/proc/sys/net/ipv4/ip_local_port_range''"
definition MEMINFO_FILE :: string where "MEMINFO_FILE = ''/proc/meminfo''"
definition GAP_SELINUX_SECLABEL :: string where "GAP_SELINUX_SECLABEL = ''seclabel.selinux''"
definition GAP_DAC_SECLABEL :: string where "GAP_DAC_SECLABEL = ''seclabel.dac''"
definition GAP_METADATA :: string where "GAP_METADATA = ''metadata''"
definition GAP_FORWARD_ADDRESS :: string where "GAP_FORWARD_ADDRESS = ''portForward.address''"
definition GAP_INTERFACE :: string where "GAP_INTERFACE = ''interface''"

definition host_setup_hint :: "env \<Rightarrow> string" where
  "host_setup_hint E = ''run: sudo bash '' @ env_script_dir E @ ''/linux/host-setup.sh''"

subsection \<open>Running virsh\<close>

text \<open>Every virsh runs in the C locale, which is not part of an argument list.\<close>

definition virsh_argv :: "string list \<Rightarrow> string list" where
  "virsh_argv args = [''virsh'', ''-c'', LIBVIRT_URI] @ args"

definition virsh :: "env \<Rightarrow> string list \<Rightarrow> run_opts \<Rightarrow> completed io" where
  "virsh E args ro = run E (virsh_argv args) ro"

definition virsh_out :: "env \<Rightarrow> string list \<Rightarrow> string io" where
  "virsh_out E args = bnd (virsh E args checked) (\<lambda>c. ret (stdout c))"

definition virsh_do :: "env \<Rightarrow> string list \<Rightarrow> unit io" where
  "virsh_do E args = sq (virsh E args checked) (ret ())"

lemma logs_virsh [footprint]:
  "Ran (virsh_argv args) (stdin_of ro) \<in> A \<Longrightarrow> logs_only A (virsh E args ro)"
  "Ran (virsh_argv args) None \<in> A \<Longrightarrow> logs_only A (virsh_out E args)"
  "Ran (virsh_argv args) None \<in> A \<Longrightarrow> logs_only A (virsh_do E args)"
  by (auto simp: virsh_def virsh_out_def virsh_do_def checked_def plain_def intro!: footprint)

subsection \<open>Searching a text line by line\<close>

text \<open>\<open>re.search\<close> with \<open>re.MULTILINE\<close> of a pattern that starts with \<open>^\<close>: the first line start
  where it matches.\<close>

fun line_search :: "(string \<Rightarrow> 'a option) \<Rightarrow> bool \<Rightarrow> string \<Rightarrow> 'a option" where
  "line_search f at_start [] = (if at_start then f [] else None)"
| "line_search f at_start (c # s) =
     (case (if at_start then f (c # s) else None) of
        Some x \<Rightarrow> Some x
      | None \<Rightarrow> line_search f (c = CHR 0x0A) s)"

text \<open>\<open>\s*$\<close>: white space up to the end of a line, or of the text.\<close>

definition blank_to_line_end :: "string \<Rightarrow> bool" where
  "blank_to_line_end s =
     (let r = dropWhile (\<lambda>c. is_space c \<and> c \<noteq> CHR 0x0A) s in r = [] \<or> hd r = CHR 0x0A)"

text \<open>\<open>LABEL\s+(\d+)TAIL\<close> where the tail is a literal, then \<open>\s*$\<close> (or just \<open>$\<close>).\<close>

definition number_field :: "string \<Rightarrow> string \<Rightarrow> bool \<Rightarrow> string \<Rightarrow> nat option" where
  "number_field label unit_text trailing s =
     (if startswith s label then
        (let r = after label s; d = dropWhile is_space r; ds = takeWhile is_digit d;
             rest = dropWhile is_digit d in
         if takeWhile is_space r \<noteq> [] \<and> ds \<noteq> [] \<and> startswith rest unit_text
            \<and> (if trailing then blank_to_line_end (after unit_text rest)
               else after unit_text rest = [] \<or> hd (after unit_text rest) = CHR 0x0A)
         then Some (decimal ds) else None)
      else None)"

subsection \<open>Versions\<close>

definition parse_version :: "string \<Rightarrow> exn + nat list" where
  "parse_version txt =
     (let word = strip txt in
      if \<not> fullmatch (Cat (Plus (Cls is_digit)) (Star (Cat (Lit ''.'') (Plus (Cls is_digit))))) word
      then Inl (YoError ''cannot read a version from'' [txt])
      else Inr (map decimal (split_on CHR ''.'' word)))"

text \<open>\<open>^\s*Running against daemon:\s*(\S+)\s*$\<close>, ignoring case.\<close>

definition daemon_version_at :: "string \<Rightarrow> string option" where
  "daemon_version_at s =
     (let d = dropWhile is_space s; label = ''running against daemon:'' in
      if startswith (lower d) label then
        (let r = dropWhile is_space (drop (length label) d);
             word = takeWhile (\<lambda>c. \<not> is_space c) r in
         if word \<noteq> [] \<and> blank_to_line_end (dropWhile (\<lambda>c. \<not> is_space c) r) then Some word else None)
      else None)"

definition parse_daemon_version :: "string \<Rightarrow> exn + nat list" where
  "parse_daemon_version version_output =
     (case line_search daemon_version_at True version_output of
        None \<Rightarrow> Inl (YoError ''cannot find the daemon's version in `virsh version --daemon`'' [version_output])
      | Some word \<Rightarrow> parse_version word)"

text \<open>Python's order on tuples of numbers.\<close>

fun version_less :: "nat list \<Rightarrow> nat list \<Rightarrow> bool" where
  "version_less v [] = False"
| "version_less [] (n # w) = True"
| "version_less (m # v) (n # w) = (m < n \<or> m = n \<and> version_less v w)"

subsection \<open>Ports and memory of the host\<close>

text \<open>The window as its first and last port.\<close>

definition host_port_window :: "string \<Rightarrow> exn + nat \<times> nat" where
  "host_port_window range_text =
     (case split_words range_text of
        [low, high] \<Rightarrow>
          if \<not> (is_ascii_number low \<and> is_ascii_number high)
          then Inl (YoError ''the port range file holds no two port numbers'' [PORT_RANGE_FILE, range_text])
          else if decimal high + 1 > MAX_PORT
          then Inl (YoError ''no host port is left above the ephemeral range'' [high, PORT_RANGE_FILE])
          else Inr (decimal high + 1, MAX_PORT)
      | _ \<Rightarrow> Inl (YoError ''the port range file holds no two port numbers'' [PORT_RANGE_FILE, range_text]))"

definition read_host_file :: "env \<Rightarrow> string \<Rightarrow> string io" where
  "read_host_file E path =
     bnd (reads (\<lambda>h. file_ans E h path)) (\<lambda>a.
     case a of Text t \<Rightarrow> ret t | _ \<Rightarrow> raise (YoError ''cannot read'' [path]))"

definition read_port_window :: "env \<Rightarrow> (nat \<times> nat) io" where
  "read_port_window E = bnd (read_host_file E PORT_RANGE_FILE) (\<lambda>t. lift (host_port_window t))"

definition host_memory_bytes :: "env \<Rightarrow> nat io" where
  "host_memory_bytes E =
     bnd (read_host_file E MEMINFO_FILE) (\<lambda>t.
     case line_search (number_field ''MemTotal:'' '' kB'' False) True t of
       None \<Rightarrow> raise (YoError ''no MemTotal line in kB'' [MEMINFO_FILE])
     | Some kib \<Rightarrow> ret (kib * KIB))"

lemma logs_read_host_file [footprint]: "logs_only A (read_host_file E path)"
  unfolding read_host_file_def by (intro footprint) (auto split: file_answer.split intro: footprint)

lemma logs_read_port_window [footprint]: "logs_only A (read_port_window E)"
  and logs_host_memory_bytes [footprint]: "logs_only A (host_memory_bytes E)"
  unfolding read_port_window_def host_memory_bytes_def by (intro footprint)+

subsection \<open>What yo reads of a domain\<close>

record seclabel =
  sl_type :: string
  sl_model :: string
  sl_relabel :: string
  sl_label :: string

record device =
  dv_tag :: string
  dv_type :: string
  dv_backend :: string
  dv_source :: string

record interface =
  if_type :: string
  if_backend :: string

record domain_info =
  di_instance :: "string option"
  di_elements :: "string list"
  di_devices :: "device list"
  di_seclabels :: "seclabel list"
  di_interfaces :: "interface list"
  di_forward_addresses :: "string option list"
  di_forward_ports :: "int list"
  di_ssh_port :: "int option"

definition children_named :: "string \<Rightarrow> xml \<Rightarrow> xml list" where
  "children_named tag e = filter (\<lambda>c. xml_tag c = tag) (xml_children e)"

fun find_path :: "string list \<Rightarrow> xml \<Rightarrow> xml list" where
  "find_path [] e = [e]"
| "find_path (tag # path) e = concat (map (find_path path) (children_named tag e))"

definition attr :: "string \<Rightarrow> xml \<Rightarrow> string" where
  "attr name e = (case map_of (xml_attrs e) name of None \<Rightarrow> [] | Some v \<Rightarrow> v)"

text \<open>Python's \<open>int(text)\<close>: white space around, a sign, digits with single underscores between.\<close>

fun underscored :: "string \<Rightarrow> string option" where
  "underscored [] = None"
| "underscored [c] = (if is_digit c then Some [c] else None)"
| "underscored (c # d # s) =
     (if \<not> is_digit c then None
      else if d = CHR ''_'' then map_option ((#) c) (underscored s)
      else map_option ((#) c) (underscored (d # s)))"

definition py_int :: "string \<Rightarrow> int option" where
  "py_int txt =
     (let s = strip txt;
          unsigned = (if s \<noteq> [] \<and> hd s \<in> {CHR ''+'', CHR ''-''} then tl s else s);
          sign = (if s \<noteq> [] \<and> hd s = CHR ''-'' then - 1 else 1 :: int) in
      map_option (\<lambda>ds. sign * int (decimal ds)) (underscored unsigned))"

fun all_some :: "'a option list \<Rightarrow> 'a list option" where
  "all_some [] = Some []"
| "all_some (None # xs) = None"
| "all_some (Some x # xs) = map_option ((#) x) (all_some xs)"

definition domain_root :: "env \<Rightarrow> string \<Rightarrow> exn + xml" where
  "domain_root E txt =
     (case xml_of E txt of
        None \<Rightarrow> Inl (YoError ''virsh dumpxml printed unparseable XML'' [])
      | Some e \<Rightarrow> Inr e)"

definition domain_marker :: "xml \<Rightarrow> string option" where
  "domain_marker e =
     (case find_path [''metadata'', ''{'' @ DOMAIN_NS @ ''}instance''] e of
        [] \<Rightarrow> None
      | m # _ \<Rightarrow> Some (strip (xml_text m)))"

definition device_backend :: "xml \<Rightarrow> string \<times> string" where
  "device_backend e =
     (case children_named ''backend'' e of
        [] \<Rightarrow> ([], [])
      | k # _ \<Rightarrow> (attr ''model'' k, strip (xml_text k)))"

definition device_of :: "xml \<Rightarrow> device" where
  "device_of e =
     \<lparr>dv_tag = xml_tag e, dv_type = attr ''type'' e,
      dv_backend = fst (device_backend e), dv_source = snd (device_backend e)\<rparr>"

definition seclabel_of :: "xml \<Rightarrow> seclabel" where
  "seclabel_of e =
     \<lparr>sl_type = attr ''type'' e, sl_model = attr ''model'' e, sl_relabel = attr ''relabel'' e,
      sl_label = (case children_named ''label'' e of [] \<Rightarrow> [] | l # _ \<Rightarrow> strip (xml_text l))\<rparr>"

definition interface_of :: "xml \<Rightarrow> interface" where
  "interface_of e =
     \<lparr>if_type = attr ''type'' e,
      if_backend = (case children_named ''backend'' e of [] \<Rightarrow> [] | k # _ \<Rightarrow> attr ''type'' k)\<rparr>"

definition domain_info_of :: "xml \<Rightarrow> exn + domain_info" where
  "domain_info_of e =
     (let forwards = find_path [''devices'', ''interface'', ''portForward''] e;
          ranges = concat (map (children_named ''range'') forwards) in
      case all_some (map (\<lambda>r. py_int (attr ''start'' r)) ranges) of
        None \<Rightarrow> Inl (YoError ''a portForward range has no numeric start'' [])
      | Some ports \<Rightarrow>
          Inr \<lparr>di_instance = domain_marker e,
               di_elements = map xml_tag (xml_children e),
               di_devices = map device_of (concat (map xml_children (children_named ''devices'' e))),
               di_seclabels = map seclabel_of (children_named ''seclabel'' e),
               di_interfaces = map interface_of (find_path [''devices'', ''interface''] e),
               di_forward_addresses = map (\<lambda>f. map_of (xml_attrs f) ''address'') forwards,
               di_forward_ports = ports,
               di_ssh_port = map_option snd (find (\<lambda>(r, p). map_of (xml_attrs r) ''to'' = Some (show_nat GUEST_SSH_PORT))
                               (zip ranges ports))\<rparr>)"

definition parse_domain :: "env \<Rightarrow> string \<Rightarrow> exn + domain_info" where
  "parse_domain E txt =
     (case domain_root E txt of Inl e \<Rightarrow> Inl e | Inr root_element \<Rightarrow> domain_info_of root_element)"

subsection \<open>The policy a domain is checked against\<close>

definition seclabel_holds :: "domain_info \<Rightarrow> string \<Rightarrow> string \<Rightarrow> string option \<Rightarrow> bool" where
  "seclabel_holds info kind model label =
     (case filter (\<lambda>s. sl_type s = kind \<and> sl_model s = model) (di_seclabels info) of
        [s] \<Rightarrow> sl_relabel s = ''yes'' \<and> (case label of None \<Rightarrow> True | Some l \<Rightarrow> sl_label s = l)
      | _ \<Rightarrow> False)"

definition element_name :: "string \<Rightarrow> string" where
  "element_name tag = (if startswith tag QEMU_NS then ''qemu:'' @ after QEMU_NS tag else tag)"

definition device_gap :: "device \<Rightarrow> string option" where
  "device_gap d =
     (case map_of DEVICES_ALLOWED (dv_tag d) of
        None \<Rightarrow> Some (''device:'' @ element_name (dv_tag d))
      | Some types \<Rightarrow>
          if (case types of None \<Rightarrow> False | Some ts \<Rightarrow> dv_type d \<notin> set ts)
          then Some (''device:'' @ element_name (dv_tag d) @ ''[type='' @ dv_type d @ '']'')
          else if dv_tag d = ''rng'' \<and> (dv_backend d, dv_source d) \<notin> set RNG_BACKENDS
          then Some (''device:'' @ dv_tag d @ ''[backend=''
                     @ join_with '':'' (filter (\<lambda>s. s \<noteq> []) [dv_backend d, dv_source d]) @ '']'')
          else None)"

definition domain_gaps :: "domain_info \<Rightarrow> string \<Rightarrow> nat \<Rightarrow> nat \<Rightarrow> string list" where
  "domain_gaps info machine uid gid =
     fromkeys
       (map (\<lambda>tag. ''element:'' @ element_name tag)
          (filter (\<lambda>tag. tag \<notin> set DOMAIN_ELEMENTS_ALLOWED) (di_elements info))
        @ List.map_filter device_gap (di_devices info))
     @ (if seclabel_holds info ''dynamic'' ''selinux'' None then [] else [GAP_SELINUX_SECLABEL])
     @ (if seclabel_holds info ''static'' ''dac'' (Some (''+'' @ show_nat uid @ '':+'' @ show_nat gid)) then []
        else [GAP_DAC_SECLABEL])
     @ (if di_instance info \<noteq> Some machine then [GAP_METADATA] else [])
     @ (if di_forward_addresses info = [] \<or> list_ex (\<lambda>a. a \<noteq> Some LOOPBACK) (di_forward_addresses info)
        then [GAP_FORWARD_ADDRESS] else [])
     @ (if di_interfaces info \<noteq> [\<lparr>if_type = ''user'', if_backend = ''passt''\<rparr>] then [GAP_INTERFACE] else [])"

definition vm_account :: "env \<Rightarrow> (nat \<times> nat) io" where
  "vm_account E =
     bnd (reads (\<lambda>h. account_ans E h VM_USER)) (\<lambda>a.
     case a of
       None \<Rightarrow> raise (YoError ''the account does not exist'' [VM_USER, host_setup_hint E])
     | Some ids \<Rightarrow> ret ids)"

lemma logs_vm_account [footprint]: "logs_only A (vm_account E)"
  unfolding vm_account_def by (intro footprint)

subsection \<open>Who listens on a port\<close>

text \<open>Python's \<open>\w\<close> below 256.\<close>

definition word_char :: "char \<Rightarrow> bool" where
  "word_char c \<longleftrightarrow>
     is_alnum c \<or> c = CHR ''_'' \<or>
     (let n = (of_char c :: nat) in
      n \<in> {170, 178, 179, 181, 185, 186, 188, 189, 190} \<or> 192 \<le> n \<and> n \<noteq> 215 \<and> n \<noteq> 247)"

text \<open>\<open>\buid:(\d+)\b\<close>: \<open>inside\<close> says whether the character before is a word character.\<close>

definition uid_at :: "string \<Rightarrow> nat option" where
  "uid_at s =
     (if startswith s ''uid:'' then
        (let d = after ''uid:'' s; ds = takeWhile is_digit d; rest = dropWhile is_digit d in
         if ds \<noteq> [] \<and> (rest = [] \<or> \<not> word_char (hd rest)) then Some (decimal ds) else None)
      else None)"

fun search_uid :: "bool \<Rightarrow> string \<Rightarrow> nat option" where
  "search_uid inside [] = None"
| "search_uid inside (c # s) =
     (case (if inside then None else uid_at (c # s)) of
        Some n \<Rightarrow> Some n
      | None \<Rightarrow> search_uid (word_char c) s)"

definition listener_uids :: "string \<Rightarrow> nat list" where
  "listener_uids ss_output =
     map (\<lambda>l. case search_uid False l of None \<Rightarrow> 0 | Some n \<Rightarrow> n)
       (filter (\<lambda>l. strip l \<noteq> []) (splitlines ss_output))"

subsection \<open>The ACL of passt's directory\<close>

text \<open>The fields of a line of \<open>getfacl\<close>, its comment cut off.\<close>

definition acl_fields :: "string \<Rightarrow> string list" where
  "acl_fields line = split_on CHR '':'' (strip (fst (partition_on CHR ''#'' line)))"

definition acl_scan :: "string \<Rightarrow> string \<Rightarrow> string option \<times> string option \<Rightarrow> string option \<times> string option" where
  "acl_scan user line acc =
     (case acl_fields line of
        [kind, name, perms] \<Rightarrow>
          if kind = ''user'' \<and> name = user then (Some perms, snd acc)
          else if kind = ''mask'' \<and> name = [] then (fst acc, Some perms)
          else acc
      | _ \<Rightarrow> acc)"

definition acl_effective_permissions :: "string \<Rightarrow> string \<Rightarrow> exn + string option" where
  "acl_effective_permissions getfacl_output user =
     (case fold (acl_scan user) (splitlines getfacl_output) (None, None) of
        (None, _) \<Rightarrow> Inr None
      | (Some _, None) \<Rightarrow> Inl (YoError ''getfacl printed an entry but no mask'' [user, getfacl_output])
      | (Some granted, Some acl_mask) \<Rightarrow>
          Inr (Some (map (\<lambda>l. if l \<in> set granted \<and> l \<in> set acl_mask then l else CHR ''-'') ''rwx'')))"

definition passt_dir_gap :: "env \<Rightarrow> message option io" where
  "passt_dir_gap E =
     sq (require_tool_on E ''getfacl'' ''install the acl package'')
     (bnd (run E [''getfacl'', ''--absolute-names'', PASST_DIR] plain) (\<lambda>listing.
      if returncode listing \<noteq> 0
      then ret (Some (''cannot read the ACL'',
             [PASST_DIR, (let m = strip (stderr listing) in
                          if m \<noteq> [] then m else ''getfacl exit '' @ show_int (returncode listing)), host_setup_hint E]))
      else
        bnd (lift (acl_effective_permissions (stdout listing) VM_USER)) (\<lambda>effective.
        ret (case effective of
               None \<Rightarrow> Some (''no ACL entry, so passt cannot bind its socket there'', [PASST_DIR, VM_USER, host_setup_hint E])
             | Some p \<Rightarrow>
                 if CHR ''w'' \<notin> set p
                 then Some (''the ACL mask cuts the entry down, so passt cannot bind its socket there'',
                        [PASST_DIR, VM_USER, p, host_setup_hint E])
                 else None))))"

lemma logs_passt_dir_gap [footprint]:
  "Ran [''getfacl'', ''--absolute-names'', PASST_DIR] None \<in> A \<Longrightarrow> logs_only A (passt_dir_gap E)"
  unfolding passt_dir_gap_def by (intro footprint) (simp add: plain_def)

subsection \<open>The preflight\<close>

definition check_libvirt_host :: "env \<Rightarrow> unit io" where
  "check_libvirt_host E =
     (let setup = host_setup_hint E in
      bnd (which E ''virsh'') (\<lambda>there.
      if there = None then raise (YoError ''virsh not found'' [setup])
      else
        bnd (virsh E [''uri''] plain) (\<lambda>connect.
        if returncode connect \<noteq> 0
        then raise (YoError ''cannot connect'' [LIBVIRT_URI, strip (stderr connect), setup])
        else
          bnd (virsh_out E [''version'', ''--daemon'']) (\<lambda>printed.
          bnd (lift (parse_daemon_version printed)) (\<lambda>version.
          if version_less version LIBVIRT_MIN_VERSION
          then raise (YoError ''the libvirt daemon is too old''
                        [join_with ''.'' (map show_nat version), join_with ''.'' (map show_nat LIBVIRT_MIN_VERSION), setup])
          else
            bnd (run E [''systemctl'', ''is-active'', HOST_UNIT] plain) (\<lambda>host_unit.
            if strip (stdout host_unit) \<noteq> ''active''
            then raise (YoError ''the host's firewall table for the box is not loaded''
                          [HOST_UNIT, (let m = strip (stdout host_unit) in if m \<noteq> [] then m else ''not active''), setup])
            else sq (vm_account E) (sq (read_port_window E) (ret ()))))))))"

lemma logs_check_libvirt_host [footprint]:
  assumes "\<And>argv. Ran argv None \<in> A"
  shows "logs_only A (check_libvirt_host E)"
  unfolding check_libvirt_host_def Let_def
  by (intro footprint) (simp_all add: plain_def assms)

subsection \<open>What the checks prove\<close>

lemma map_filter_Nil: "List.map_filter f xs = [] \<longleftrightarrow> list_all (\<lambda>x. f x = None) xs"
  by (induction xs) (auto simp: List.map_filter_simps split: option.splits)

lemma domain_gaps_Nil:
  "domain_gaps info m uid gid = [] \<longleftrightarrow>
     list_all (\<lambda>tag. tag \<in> set DOMAIN_ELEMENTS_ALLOWED) (di_elements info)
     \<and> list_all (\<lambda>d. device_gap d = None) (di_devices info)
     \<and> seclabel_holds info ''dynamic'' ''selinux'' None
     \<and> seclabel_holds info ''static'' ''dac'' (Some (''+'' @ show_nat uid @ '':+'' @ show_nat gid))
     \<and> di_instance info = Some m
     \<and> di_forward_addresses info \<noteq> [] \<and> list_all (\<lambda>a. a = Some LOOPBACK) (di_forward_addresses info)
     \<and> di_interfaces info = [\<lparr>if_type = ''user'', if_backend = ''passt''\<rparr>]"
  by (auto simp: domain_gaps_def map_filter_Nil filter_empty_conv list_all_iff list_ex_iff)

lemma device_gap_None:
  "device_gap d = None \<longleftrightarrow>
     (\<exists>types. map_of DEVICES_ALLOWED (dv_tag d) = Some types
        \<and> (case types of None \<Rightarrow> True | Some ts \<Rightarrow> dv_type d \<in> set ts)
        \<and> (dv_tag d = ''rng'' \<longrightarrow> (dv_backend d, dv_source d) \<in> set RNG_BACKENDS))"
  by (auto simp: device_gap_def split: option.splits)

lemma host_port_window_Inr:
  assumes "host_port_window t = Inr (a, z)"
  shows "z = MAX_PORT \<and> a \<le> z \<and> (\<exists>low high. split_words t = [low, high] \<and> a = decimal high + 1)"
  using assms by (auto simp: host_port_window_def split: list.splits if_splits)

text \<open>A permission left after the mask is in the entry and in the mask.\<close>

lemma acl_effective_write:
  assumes "acl_effective_permissions t user = Inr (Some p)"
  shows "CHR ''w'' \<in> set p \<longleftrightarrow>
    (\<exists>granted acl_mask. fold (acl_scan user) (splitlines t) (None, None) = (Some granted, Some acl_mask)
       \<and> CHR ''w'' \<in> set granted \<and> CHR ''w'' \<in> set acl_mask)"
  using assms by (auto simp: acl_effective_permissions_def split: prod.splits option.splits if_splits)

subsection \<open>Properties\<close>

definition device_allowed :: "device \<Rightarrow> bool" where
  "device_allowed d \<longleftrightarrow>
     (case map_of DEVICES_ALLOWED (dv_tag d) of
        None \<Rightarrow> False
      | Some types \<Rightarrow> (case types of None \<Rightarrow> True | Some ts \<Rightarrow> dv_type d \<in> set ts)
          \<and> (if dv_tag d = ''rng'' then (dv_backend d, dv_source d) \<in> set RNG_BACKENDS else True))"

lemma device_allowed_iff: "device_gap d = None \<longleftrightarrow> device_allowed d"
  by (auto simp: device_gap_None device_allowed_def split: option.splits)


end
