(* ===== verification/Yo_Libvirt.thy ===== *)
theory Yo_Libvirt
  imports Yo_Libvirt_Host Yo_Unlock Yo_Aws
begin

text \<open>
  \<open>yolobox_cli/libvirt.py\<close>: the driver of Linux hosts. One KVM domain per machine on the system
  connection: its readings through virsh, its volumes and cidata, the port and the ssh master it
  keeps, the start, the stop and the removals. The operations are gathered in the driver record
  \<open>libvirt_driver\<close>. An interrupt from the keyboard is not modelled, every other way out of a
  \<open>try\<close> is.
\<close>

definition LIBVIRT_POOL :: string where "LIBVIRT_POOL = ''default''"
definition OPERATOR_KEY_ITEM :: string where "OPERATOR_KEY_ITEM = ''yolobox-operator''"
definition LIBVIRT_MEMORY_GIB :: nat where "LIBVIRT_MEMORY_GIB = 16"
definition LIBVIRT_DISK_GIB :: nat where "LIBVIRT_DISK_GIB = 100"
definition HOST_MEMORY_RESERVE_GIB :: nat where "HOST_MEMORY_RESERVE_GIB = 4"
definition LIBVIRT_STOP_TIMEOUT :: nat where "LIBVIRT_STOP_TIMEOUT = 300"
definition EVENT_TIMEOUT_LINE :: string where "EVENT_TIMEOUT_LINE = ''event loop timed out''"
definition STATE_OFF :: string where "STATE_OFF = ''shut off''"
definition STATE_SHUTTING_DOWN :: string where "STATE_SHUTTING_DOWN = ''in shutdown''"
definition STATES_STOPPING :: "string list" where
  "STATES_STOPPING = [''running'', ''blocked'', STATE_SHUTTING_DOWN]"
definition STATE_REMEDIES :: "(string \<times> string \<times> string) list" where
  "STATE_REMEDIES = [(''paused'', ''resume'', ''resume''), (''pmsuspended'', ''wake'', ''dompmwakeup'')]"
definition PORT_LOCK_NAME :: string where "PORT_LOCK_NAME = ''.port.lock''"
definition MASTER_LOCK_NAME :: string where "MASTER_LOCK_NAME = ''master.lock''"
definition SEED_NAME :: string where "SEED_NAME = ''nixos-lima-v0.2.2-x86_64.qcow2''"
definition SEED_URL :: string where
  "SEED_URL = ''https://github.com/nixos-lima/nixos-lima/releases/download/v0.2.2/'' @ SEED_NAME"
definition SEED_SHA512 :: string where
  "SEED_SHA512 =
     ''cdf15475c6f799d3a355da50147fa81316e43e159b1b2e76eb21046f9fe8499770840ef876daaf85a2f5eb''
     @ ''3a73445c4fa87d0337533fdf6f116d80c40806fbc9''"
definition CIDATA_FILES :: "string list" where
  "CIDATA_FILES = [''user-data'', ''meta-data'', ''lima.env'', ''etc_environment'']"

definition disk_volume :: "box \<Rightarrow> string" where "disk_volume b = vm_name b @ ''.qcow2''"
definition cidata_volume :: "box \<Rightarrow> string" where "cidata_volume b = vm_name b @ ''-cidata.iso''"

subsection \<open>\<open>try: m finally: f\<close> with a finaliser that can raise\<close>

definition and_finally :: "'a io \<Rightarrow> unit io \<Rightarrow> 'a io" where
  "and_finally m f =
     (\<lambda>h. case m h of (r, t) \<Rightarrow> (case f t of (Inl e, u) \<Rightarrow> (Inl e, u) | (Inr _, u) \<Rightarrow> (r, u)))"

lemma logs_and_finally [footprint]:
  assumes "logs_only A m" and "logs_only A f"
  shows "logs_only A (and_finally m f)"
proof (rule logs_onlyI)
  fix h r t
  assume run: "and_finally m f h = (r, t)"
  obtain q u where mu: "m h = (q, u)" by fastforce
  obtain p v where fv: "f u = (p, v)" by fastforce
  from assms(1) mu obtain es where 1: "u = h @ es" "set es \<subseteq> A" by (rule logs_onlyE)
  from assms(2) fv obtain fs where 2: "v = u @ fs" "set fs \<subseteq> A" by (rule logs_onlyE)
  from run mu fv have "t = v" by (auto simp: and_finally_def split: sum.splits)
  with 1 2 show "\<exists>es. t = h @ es \<and> set es \<subseteq> A" by (intro exI [of _ "es @ fs"]) auto
qed

subsection \<open>Ports\<close>

definition loopback_port_bound :: "env \<Rightarrow> nat \<Rightarrow> bool io" where
  "loopback_port_bound E port =
     bnd (reads (\<lambda>h. bind_ans E h port)) (\<lambda>a.
     case a of
       Inl reason \<Rightarrow> raise (YoError ''cannot probe'' [LOOPBACK, show_nat port, reason])
     | Inr bound \<Rightarrow> ret bound)"

fun first_free :: "nat list \<Rightarrow> int list \<Rightarrow> (nat \<Rightarrow> bool io) \<Rightarrow> nat option io" where
  "first_free [] taken is_bound = ret None"
| "first_free (port # ports) taken is_bound =
     (if int port \<in> set taken then first_free ports taken is_bound
      else bnd (is_bound port) (\<lambda>bound. if bound then first_free ports taken is_bound else ret (Some port)))"

definition lowest_free_port :: "nat \<times> nat \<Rightarrow> int list \<Rightarrow> (nat \<Rightarrow> bool io) \<Rightarrow> nat io" where
  "lowest_free_port window taken is_bound =
     bnd (first_free [fst window..<Suc (snd window)] taken is_bound) (\<lambda>found.
     case found of
       Some port \<Rightarrow> ret port
     | None \<Rightarrow> raise (YoError ''no free host port'' [show_nat (fst window), show_nat (snd window)]))"

subsection \<open>What a new box is made of\<close>

definition domain_size :: "size \<Rightarrow> exn + box_size" where
  "domain_size sz =
     (case asked_cpus sz of
        None \<Rightarrow> Inl (YoError ''a box is created with the CPU count vm_up decides; got none'' [])
      | Some n \<Rightarrow> Inr (fill sz \<lparr>memory_gib = LIBVIRT_MEMORY_GIB, disk_gib = LIBVIRT_DISK_GIB, cpus = n\<rparr>))"

text \<open>
  \<open>string.Template(text).substitute(...)\<close>: \<open>$$\<close>, \<open>$name\<close> and \<open>${name}\<close>; none for the errors it
  raises (an invalid placeholder, an unknown name).
\<close>

definition name_start :: "char \<Rightarrow> bool" where
  "name_start c \<longleftrightarrow> is_lower c \<or> is_upper c \<or> c = CHR ''_''"

definition name_char :: "char \<Rightarrow> bool" where
  "name_char c \<longleftrightarrow> name_start c \<or> is_digit c"

function substitute :: "(string \<times> string) list \<Rightarrow> string \<Rightarrow> string option" where
  "substitute vals [] = Some []"
| "substitute vals (c # s) =
     (if c \<noteq> CHR ''$'' then map_option ((#) c) (substitute vals s)
      else (case s of
          [] \<Rightarrow> None
        | d # r \<Rightarrow>
            if d = CHR ''$'' then map_option ((#) d) (substitute vals r)
            else if name_start d then
              (case map_of vals (takeWhile name_char s) of
                 None \<Rightarrow> None
               | Some v \<Rightarrow> map_option ((@) v) (substitute vals (dropWhile name_char s)))
            else if d = CHR ''{'' \<and> r \<noteq> [] \<and> name_start (hd r) \<and> startswith (dropWhile name_char r) ''}'' then
              (case map_of vals (takeWhile name_char r) of
                 None \<Rightarrow> None
               | Some v \<Rightarrow> map_option ((@) v) (substitute vals (tl (dropWhile name_char r))))
            else None))"
  by pat_completeness auto
termination
proof (relation "measure (\<lambda>(v, s). length s)", goal_cases)
  case (5 vals c s d r)
  have "length (dropWhile name_char r) \<le> length r" by (rule length_dropWhile_le)
  then show ?case using 5 by simp
qed (auto intro!: le_imp_less_Suc le_SucI length_dropWhile_le)

definition domain_xml :: "env \<Rightarrow> string \<Rightarrow> nat \<Rightarrow> nat \<Rightarrow> nat \<Rightarrow> nat \<Rightarrow> nat \<Rightarrow> string io" where
  "domain_xml E machine port uid gid memory cpu_count =
     (let path = env_script_dir E @ ''/libvirt/domain.xml'' in
      bnd (reads (\<lambda>h. file_ans E h path)) (\<lambda>a.
      case a of
        Text template \<Rightarrow>
          (case substitute [(''name'', machine), (''ssh_port'', show_nat port), (''uid'', show_nat uid),
                  (''gid'', show_nat gid), (''memory_gib'', show_nat memory), (''cpus'', show_nat cpu_count)] template of
             None \<Rightarrow> raise (Exn Value_Error (Some (''domain.xml cannot be filled in'', [])) 1)
           | Some x \<Rightarrow> ret x)
      | _ \<Rightarrow> raise (OsError path)))"

definition OPERATOR_ACCOUNT_RE :: rx where
  "OPERATOR_ACCOUNT_RE =
     Cat (Cls (\<lambda>c. is_lower c \<or> c = CHR ''_''))
       (Star (Cls (\<lambda>c. is_lower c \<or> is_digit c \<or> c = CHR ''_'' \<or> c = CHR ''-'')))"

definition operator_account :: "string \<Rightarrow> exn + string" where
  "operator_account username =
     (if \<not> fullmatch OPERATOR_ACCOUNT_RE username
      then Inl (YoError ''the host account name cannot name the operator's account in the box'' [username])
      else if username = AGENT_USER
      then Inl (YoError ''the host account is named as the box's agent account'' [AGENT_USER])
      else Inr username)"

text \<open>\<open>base64.b64encode\<close>\<close>

definition base64_char :: "nat \<Rightarrow> char" where
  "base64_char n =
     (if n < 26 then char_of (n + 65) else if n < 52 then char_of (n + 71)
      else if n < 62 then char_of (n - 4) else if n = 62 then CHR ''+'' else CHR ''/'')"

fun base64 :: "string \<Rightarrow> string" where
  "base64 [] = []"
| "base64 [x] =
     (let n = of_char x * 65536 in [base64_char (n div 262144 mod 64), base64_char (n div 4096 mod 64), CHR ''='', CHR ''=''])"
| "base64 [x, y] =
     (let n = of_char x * 65536 + of_char y * 256 in
      [base64_char (n div 262144 mod 64), base64_char (n div 4096 mod 64), base64_char (n div 64 mod 64), CHR ''=''])"
| "base64 (x # y # z # s) =
     (let n = of_char x * 65536 + of_char y * 256 + of_char z in
      base64_char (n div 262144 mod 64) # base64_char (n div 4096 mod 64) # base64_char (n div 64 mod 64)
      # base64_char (n mod 64) # base64 s)"

definition public_key_line :: "string \<Rightarrow> exn + string" where
  "public_key_line blob =
     (case key_type blob of
        Inl e \<Rightarrow> Inl e
      | Inr kind \<Rightarrow> Inr (kind @ '' '' @ base64 blob @ '' '' @ OPERATOR_KEY_ITEM))"

definition QUOTE :: string where "QUOTE = [CHR 0x22]"

definition cidata_files :: "string \<Rightarrow> string \<Rightarrow> string \<Rightarrow> exn + (string \<times> string) list" where
  "cidata_files username public_key machine =
     (case operator_account username of
        Inl e \<Rightarrow> Inl e
      | Inr account \<Rightarrow>
          Inr [(''user-data'',
                  ''#cloud-config'' @ NL @ ''users:'' @ NL @ ''  - name: '' @ account @ NL @
                  ''    ssh-authorized-keys:'' @ NL @ ''      - '' @ QUOTE @ public_key @ QUOTE @ NL),
               (''meta-data'',
                  ''instance-id: yolobox-'' @ machine @ NL @ ''local-hostname: lima-'' @ machine @ NL),
               (''lima.env'',
                  ''LIMA_CIDATA_USER='' @ account @ NL @ ''LIMA_CIDATA_UID='' @ show_int OPERATOR_GUEST_UID @ NL @
                  ''LIMA_CIDATA_HOME=/home/'' @ account @ ''.guest'' @ NL @
                  ''LIMA_CIDATA_IID=yolobox-'' @ machine @ NL),
               (''etc_environment'', [])])"

definition libvirt_config_lines :: "string \<Rightarrow> nat \<Rightarrow> string \<Rightarrow> string \<Rightarrow> string \<Rightarrow> string list" where
  "libvirt_config_lines host port user identity_agent dir =
     [''Host '' @ host, ''  Hostname '' @ LOOPBACK, ''  Port '' @ show_nat port, ''  User '' @ user,
        ''  IdentityAgent '' @ QUOTE @ identity_agent @ QUOTE,
        ''  IdentityFile '' @ QUOTE @ path_join dir ''operator.pub'' @ QUOTE,
        ''  IdentitiesOnly yes'', ''  BatchMode yes'', ''  PreferredAuthentications publickey'',
        ''  PasswordAuthentication no'', ''  KbdInteractiveAuthentication no'', ''  GSSAPIAuthentication no'',
        ''  AddKeysToAgent no'', ''  ForwardAgent no'', ''  Compression no'', ''  ControlMaster auto'',
        ''  ControlPath '' @ QUOTE @ path_join dir ''ssh.sock'' @ QUOTE, ''  ControlPersist yes'',
        ''  StrictHostKeyChecking no'', ''  UserKnownHostsFile /dev/null'',
        ''  NoHostAuthenticationForLocalhost yes'']"

text \<open>Every line ends with a newline: the last of the joined parts is empty.\<close>

definition libvirt_ssh_config :: "string \<Rightarrow> nat \<Rightarrow> string \<Rightarrow> string \<Rightarrow> string \<Rightarrow> string" where
  "libvirt_ssh_config host port user identity_agent dir =
     join_on CHR 0x0A (libvirt_config_lines host port user identity_agent dir @ [[]])"

subsection \<open>The seed image\<close>

definition file_sha512 :: "env \<Rightarrow> string \<Rightarrow> string io" where
  "file_sha512 E path = reads (\<lambda>h. sha512_ans E h path)"

text \<open>The download into a file of its own, checked before it is moved.\<close>

definition fetch_seed :: "env \<Rightarrow> string \<Rightarrow> string \<Rightarrow> unit io" where
  "fetch_seed E part path =
     bnd (reads (\<lambda>h. fetch_ans E h SEED_URL)) (\<lambda>failure.
     case failure of
       Some reason \<Rightarrow> raise (OsError reason)
     | None \<Rightarrow>
         sq (emit (Did ''fetch'' [SEED_URL, part]))
         (bnd (file_sha512 E part) (\<lambda>digest.
          if digest \<noteq> SEED_SHA512
          then raise (YoError ''the download has another sha512 than the pinned one'' [SEED_URL, digest, SEED_SHA512])
          else host_op E ''replace'' [part, path])))"

definition unlink_if_there :: "env \<Rightarrow> string \<Rightarrow> unit io" where
  "unlink_if_there E path = bnd (path_exists E path) (\<lambda>there. when_do there (host_op E ''unlink'' [path]))"

definition download_seed :: "env \<Rightarrow> string \<Rightarrow> unit io" where
  "download_seed E path =
     (let part = path @ ''.part'' in
      and_finally
        (except_os (fetch_seed E part path)
           (\<lambda>failure. raise (YoError ''cannot download'' [SEED_URL, os_reason failure])))
        (unlink_if_there E part))"

definition ensure_seed :: "env \<Rightarrow> string io" where
  "ensure_seed E =
     (let cache = path_join (path_join (env_home E) ''.cache'') ''yolobox''; path = path_join cache SEED_NAME;
          fetch = sq (warn ''downloading the seed image'' [SEED_URL]) (sq (download_seed E path) (ret path)) in
      sq (host_op E ''makedirs'' [cache])
      (bnd (path_exists E path) (\<lambda>there.
       if \<not> there then fetch
       else
         bnd (file_sha512 E path) (\<lambda>digest.
         if digest = SEED_SHA512 then ret path
         else sq (warn ''fails its sha512 check; downloading it again'' [path])
              (sq (host_op E ''unlink'' [path]) fetch)))))"

subsection \<open>Readings of the system connection\<close>

definition names_listed :: "string \<Rightarrow> string list" where
  "names_listed listing = filter (\<lambda>n. n \<noteq> []) (map strip (splitlines listing))"

definition domain_names :: "env \<Rightarrow> string list io" where
  "domain_names E = bnd (virsh_out E [''list'', ''--all'', ''--name'']) (\<lambda>out. ret (names_listed out))"

definition active_domain_names :: "env \<Rightarrow> string list io" where
  "active_domain_names E = bnd (virsh_out E [''list'', ''--name'']) (\<lambda>out. ret (names_listed out))"

definition raise_unless_undefined :: "env \<Rightarrow> string \<Rightarrow> string \<Rightarrow> completed \<Rightarrow> unit io" where
  "raise_unless_undefined E subcommand name failed =
     bnd (domain_names E) (\<lambda>names.
     if name \<in> set names
     then raise (message_error (failed_message (''virsh '' @ subcommand @ '' '' @ name) (returncode failed)
                    (Some (failure_detail failed)) []))
     else ret ())"

definition MAX_MEMORY_LINE :: "string \<Rightarrow> nat option" where
  "MAX_MEMORY_LINE info = line_search (number_field ''Max memory:'' '' KiB'' True) True info"

definition CPUS_LINE :: "string \<Rightarrow> nat option" where
  "CPUS_LINE info = line_search (number_field ''CPU(s):'' [] True) True info"

fun domains_memory :: "env \<Rightarrow> string list \<Rightarrow> (string \<times> nat) list \<Rightarrow> (string \<times> nat) list io" where
  "domains_memory E [] memory = ret memory"
| "domains_memory E (name # names) memory =
     bnd (virsh E [''dominfo'', name] plain) (\<lambda>info.
     if returncode info \<noteq> 0
     then sq (raise_unless_undefined E ''dominfo'' name info) (domains_memory E names memory)
     else
       (case MAX_MEMORY_LINE (stdout info) of
          None \<Rightarrow> raise (YoError ''virsh dominfo printed no Max memory in KiB'' [name, strip (stdout info)])
        | Some kib \<Rightarrow> domains_memory E names (AList.update name (kib * KIB) memory)))"

definition active_domains_memory :: "env \<Rightarrow> (string \<times> nat) list io" where
  "active_domains_memory E = bnd (active_domain_names E) (\<lambda>names. domains_memory E names [])"

text \<open>What is left for a new domain, in bytes; negative on a host that is full.\<close>

definition memory_room :: "nat \<Rightarrow> (string \<times> nat) list \<Rightarrow> int" where
  "memory_room host others =
     int host - int (HOST_MEMORY_RESERVE_GIB * GIB) - int (sum_list (map snd others))"

definition memory_ways :: "int \<Rightarrow> (string \<times> nat) list \<Rightarrow> string list" where
  "memory_ways room others =
     (let ways = (if room \<ge> int (MIN_MEMORY_GIB * GIB)
                  then [''ask for at most --memory '' @ show_int (room div int GIB)] else [])
                 @ (if others \<noteq> [] then [''stop another domain''] else []) in
      if ways = [] then [''that is under the GiB a box needs: '' @ show_nat MIN_MEMORY_GIB] else ways)"

definition memory_refusal :: "nat \<Rightarrow> nat \<Rightarrow> (string \<times> nat) list \<Rightarrow> message option" where
  "memory_refusal asked_gib host others =
     (let room = memory_room host others in
      if int (asked_gib * GIB) \<le> room then None
      else Some (''--memory does not fit on this host'',
             [show_nat asked_gib, MEMINFO_FILE, show_nat host, show_nat HOST_MEMORY_RESERVE_GIB,
              show_nat (sum_list (map snd others))]
             @ concat (map (\<lambda>name. [name, show_nat (or_else (map_of others name) 0)]) (sorted_names (map fst others)))
             @ [show_int (max room 0), join_with '' or '' (memory_ways room others)]))"

definition state_hint :: "box \<Rightarrow> string \<Rightarrow> string option" where
  "state_hint b domain_state =
     (case map_of STATE_REMEDIES domain_state of
        None \<Rightarrow> None
      | Some (verb, command) \<Rightarrow>
          Some (verb @ '' it with `virsh -c '' @ LIBVIRT_URI @ '' '' @ command @ '' '' @ vm_name b @ ''`''))"

definition redefine_command :: "box \<Rightarrow> string" where
  "redefine_command b =
     yo_cmd b [''down''] @ '' && virsh -c '' @ LIBVIRT_URI @ '' undefine --nvram '' @ vm_name b"

definition virsh_removal :: "env \<Rightarrow> message \<Rightarrow> string list \<Rightarrow> removal" where
  "virsh_removal E what args = \<lparr>step_name = what, step_do = virsh_do E args\<rparr>"

fun domain_roots :: "env \<Rightarrow> string list \<Rightarrow> xml list io" where
  "domain_roots E [] = ret []"
| "domain_roots E (name # names) =
     bnd (virsh E [''dumpxml'', name] plain) (\<lambda>dump.
     if returncode dump \<noteq> 0
     then sq (raise_unless_undefined E ''dumpxml'' name dump) (domain_roots E names)
     else
       bnd (lift (domain_root E (stdout dump))) (\<lambda>e.
       bnd (domain_roots E names) (\<lambda>es. ret (e # es))))"

fun domain_infos :: "xml list \<Rightarrow> exn + domain_info list" where
  "domain_infos [] = Inr []"
| "domain_infos (e # es) =
     (case domain_info_of e of
        Inl x \<Rightarrow> Inl x
      | Inr i \<Rightarrow> (case domain_infos es of Inl x \<Rightarrow> Inl x | Inr is \<Rightarrow> Inr (i # is)))"

definition yolobox_domains :: "env \<Rightarrow> domain_info list io" where
  "yolobox_domains E =
     bnd (domain_names E) (\<lambda>names.
     bnd (domain_roots E names) (\<lambda>es. lift (domain_infos (filter (\<lambda>e. domain_marker e \<noteq> None) es))))"

definition volume_names :: "env \<Rightarrow> string list io" where
  "volume_names E =
     bnd (virsh_out E [''vol-list'', ''--pool'', LIBVIRT_POOL]) (\<lambda>out.
     let rows = splitlines out in
     case dropWhile (\<lambda>row. \<not> startswith row ''---'') rows of
       [] \<Rightarrow> raise (YoError ''virsh vol-list printed no table'' rows)
     | _ # table \<Rightarrow> ret (map (\<lambda>row. hd (split_words row)) (filter (\<lambda>row. strip row \<noteq> []) table)))"

subsection \<open>The domain\<close>

definition domain_exists :: "env \<Rightarrow> box \<Rightarrow> bool io" where
  "domain_exists E b = bnd (domain_names E) (\<lambda>names. ret (vm_name b \<in> set names))"

definition require_domain :: "env \<Rightarrow> box \<Rightarrow> unit io" where
  "require_domain E b =
     bnd (domain_exists E b) (\<lambda>there.
     if \<not> there then raise (YoError ''the domain does not exist'' [vm_name b, yo_cmd b [''up'']]) else ret ())"

definition domain_state :: "env \<Rightarrow> box \<Rightarrow> string io" where
  "domain_state E b = bnd (virsh_out E [''domstate'', vm_name b]) (\<lambda>out. ret (strip out))"

definition libvirt_vm_status :: "env \<Rightarrow> box \<Rightarrow> string option io" where
  "libvirt_vm_status E b =
     bnd (domain_exists E b) (\<lambda>there.
     if \<not> there then ret None
     else bnd (domain_state E b) (\<lambda>st. ret (Some (if st = ''running'' then RUNNING else st))))"

definition parsed_domain :: "env \<Rightarrow> box \<Rightarrow> domain_info io" where
  "parsed_domain E b = bnd (virsh_out E [''dumpxml'', vm_name b]) (\<lambda>out. lift (parse_domain E out))"

definition libvirt_ssh_port :: "env \<Rightarrow> box \<Rightarrow> nat io" where
  "libvirt_ssh_port E b =
     sq (require_domain E b)
     (bnd (parsed_domain E b) (\<lambda>info.
      case di_ssh_port info of
        None \<Rightarrow> raise (YoError ''the domain forwards no host port to the guest port'' [vm_name b, show_nat GUEST_SSH_PORT])
      | Some p \<Rightarrow> ret (nat p)))"

definition libvirt_config_gaps :: "env \<Rightarrow> box \<Rightarrow> string list io" where
  "libvirt_config_gaps E b =
     bnd (domain_exists E b) (\<lambda>there.
     if \<not> there then ret []
     else
       bnd (vm_account E) (\<lambda>(uid, gid).
       bnd (parsed_domain E b) (\<lambda>info. ret (domain_gaps info (box_name b) uid gid))))"

definition libvirt_config_gap_message :: "box \<Rightarrow> string list \<Rightarrow> string io" where
  "libvirt_config_gap_message b gaps =
     ret (''domain '' @ vm_name b @ '' breaks the box's guarantees ('' @ join_with '', '' gaps
          @ ''); remove its definition, keeping the disk volume: '' @ redefine_command b
          @ '', then run '' @ yo_cmd b [''up''])"

definition libvirt_host_gaps :: "env \<Rightarrow> string list io" where
  "libvirt_host_gaps E =
     bnd (passt_dir_gap E) (\<lambda>gap.
     ret (case gap of None \<Rightarrow> [] | Some m \<Rightarrow> [fst m @ concat (map (\<lambda>a. '' '' @ a) (snd m))]))"

definition libvirt_verify_initrd_listener :: "env \<Rightarrow> box \<Rightarrow> nat \<Rightarrow> unit io" where
  "libvirt_verify_initrd_listener E b port =
     bnd (run E [''ss'', ''-ltnHe'', ''sport = :'' @ show_nat port] checked) (\<lambda>listing.
     bnd (vm_account E) (\<lambda>(uid, gid).
     let strangers = filter (\<lambda>u. u \<noteq> uid) (listener_uids (stdout listing)) in
     if strangers \<noteq> []
     then raise (YoError ''the port is held by another account than the one that runs the box's passt''
                   ([LOOPBACK, show_nat port] @ map show_nat strangers @ [VM_USER, show_nat uid, yo_cmd b [''up'']]))
     else ret ()))"

subsection \<open>The login key\<close>

definition libvirt_op_sock :: "env \<Rightarrow> string" where
  "libvirt_op_sock E = path_join (env_home E) ''.1password/agent.sock''"

definition operator_key :: "env \<Rightarrow> string io" where
  "operator_key E =
     (let sock = libvirt_op_sock E; dead = [sock, OPERATOR_KEY_ITEM];
          gone = ''1Password's SSH agent is not running (or locked)'' in
      bnd (path_exists E sock) (\<lambda>there.
      if \<not> there then raise (YoError gone dead)
      else
        bnd (except_yo (ssh_agent_identities E sock)
               (\<lambda>failure. raise (YoError gone (dead @ fst (message_of failure) # snd (message_of failure))))) (\<lambda>identities.
        if identities = [] then raise (YoError gone dead)
        else lift (unique_key_titled identities OPERATOR_KEY_ITEM))))"

subsection \<open>Sizes\<close>

fun line_find_all :: "(string \<Rightarrow> 'a option) \<Rightarrow> bool \<Rightarrow> string \<Rightarrow> 'a list" where
  "line_find_all f at_start [] = []"
| "line_find_all f at_start (c # s) =
     (case (if at_start then f (c # s) else None) of None \<Rightarrow> [] | Some x \<Rightarrow> [x])
     @ line_find_all f (c = CHR 0x0A) s"

definition size_line :: "string \<Rightarrow> (string \<times> nat) option" where
  "size_line s =
     (case number_field ''Capacity:'' '' bytes'' True s of
        Some n \<Rightarrow> Some (''Capacity'', n)
      | None \<Rightarrow> map_option (Pair ''Allocation'') (number_field ''Allocation:'' '' bytes'' True s))"

record volume_size =
  capacity :: nat
  allocation :: nat

definition volume_sizes :: "env \<Rightarrow> box \<Rightarrow> volume_size io" where
  "volume_sizes E b =
     bnd (virsh_out E [''vol-info'', ''--bytes'', ''--pool'', LIBVIRT_POOL, disk_volume b]) (\<lambda>out.
     let sizes = map_of (rev (line_find_all size_line True out)) in
     case (sizes ''Capacity'', sizes ''Allocation'') of
       (Some c, Some a) \<Rightarrow> ret \<lparr>capacity = c, allocation = a\<rparr>
     | _ \<Rightarrow> raise (YoError ''virsh vol-info printed no sizes'' [strip out]))"

definition volume_exists :: "env \<Rightarrow> string \<Rightarrow> bool io" where
  "volume_exists E volume = bnd (volume_names E) (\<lambda>names. ret (volume \<in> set names))"

definition disk_volume_finished :: "nat \<Rightarrow> bool" where
  "disk_volume_finished n \<longleftrightarrow> n \<ge> MIN_DISK_GIB * GIB"

definition memory_fit_refusal :: "env \<Rightarrow> nat \<Rightarrow> message option io" where
  "memory_fit_refusal E gib =
     bnd (host_memory_bytes E) (\<lambda>host.
     bnd (active_domains_memory E) (\<lambda>others. ret (memory_refusal gib host others)))"

text \<open>The two checks of \<open>creation_refusal\<close>: the memory asked, and a finished disk of another size.\<close>

definition disk_refusal :: "env \<Rightarrow> box \<Rightarrow> size \<Rightarrow> message option io" where
  "disk_refusal E b sz =
     (case asked_disk sz of
        None \<Rightarrow> ret None
      | Some gib \<Rightarrow>
          bnd (volume_exists E (disk_volume b)) (\<lambda>there.
          if \<not> there then ret None
          else
            bnd (volume_sizes E b) (\<lambda>sizes.
            if \<not> disk_volume_finished (capacity sizes) \<or> capacity sizes = gib * GIB then ret None
            else ret (Some (''the volume already holds a finished disk, which yo would use as it is'',
                   [disk_volume b, show_nat (capacity sizes), show_nat gib,
                    (if gib * GIB > capacity sizes then yo_cmd b [''disk-grow'', show_nat gib]
                     else ''virsh -c '' @ LIBVIRT_URI @ '' vol-delete --pool '' @ LIBVIRT_POOL @ '' '' @ disk_volume b)])))))"

definition libvirt_creation_refusal :: "env \<Rightarrow> box \<Rightarrow> size \<Rightarrow> message option io" where
  "libvirt_creation_refusal E b sz =
     bnd (case asked_memory sz of None \<Rightarrow> ret None | Some gib \<Rightarrow> memory_fit_refusal E gib) (\<lambda>refusal.
     if refusal \<noteq> None then ret refusal else disk_refusal E b sz)"

definition libvirt_current_size :: "env \<Rightarrow> box \<Rightarrow> box_size io" where
  "libvirt_current_size E b =
     bnd (virsh_out E [''dominfo'', vm_name b]) (\<lambda>info.
     case (MAX_MEMORY_LINE info, CPUS_LINE info) of
       (Some memory, Some n) \<Rightarrow>
         bnd (lift (exact_gib (memory * KIB) ''memory'')) (\<lambda>m.
         bnd (volume_sizes E b) (\<lambda>sizes.
         bnd (lift (exact_gib (capacity sizes) ''disk'')) (\<lambda>d.
         ret \<lparr>memory_gib = m, disk_gib = d, cpus = n\<rparr>)))
     | _ \<Rightarrow> raise (YoError ''virsh dominfo printed no Max memory in KiB and CPU(s)'' [vm_name b, strip info]))"

definition libvirt_resize_refusal :: "env \<Rightarrow> box_size \<Rightarrow> box_size \<Rightarrow> message option io" where
  "libvirt_resize_refusal E cur wanted =
     (if memory_gib wanted = memory_gib cur then ret None else memory_fit_refusal E (memory_gib wanted))"

definition libvirt_resize :: "env \<Rightarrow> box \<Rightarrow> nat \<Rightarrow> nat \<Rightarrow> unit io" where
  "libvirt_resize E b gib n =
     sq (virsh_do E [''setmaxmem'', vm_name b, show_nat gib @ ''G'', ''--config''])
     (sq (virsh_do E [''setmem'', vm_name b, show_nat gib @ ''G'', ''--config''])
     (sq (virsh_do E [''setvcpus'', vm_name b, show_nat n, ''--config'', ''--maximum''])
         (virsh_do E [''setvcpus'', vm_name b, show_nat n, ''--config''])))"

definition libvirt_disk_image :: "env \<Rightarrow> box \<Rightarrow> (string \<times> nat) option io" where
  "libvirt_disk_image E b =
     bnd (volume_exists E (disk_volume b)) (\<lambda>there.
     if \<not> there then ret None
     else bnd (volume_sizes E b) (\<lambda>sizes.
          ret (Some (''pool '' @ LIBVIRT_POOL @ '' volume '' @ disk_volume b, allocation sizes div KIB))))"

definition libvirt_grow_disk :: "env \<Rightarrow> box \<Rightarrow> nat \<Rightarrow> nat \<Rightarrow> unit io" where
  "libvirt_grow_disk E b current_gib wanted_gib =
     bnd (domain_state E b) (\<lambda>st.
     if st \<noteq> STATE_OFF then raise (YoError ''a disk is grown only while the domain is shut off'' [box_name b, st])
     else
       sq (say ''libvirt: raising the disk'' [box_name b, show_nat current_gib, show_nat wanted_gib])
          (virsh_do E [''vol-resize'', ''--pool'', LIBVIRT_POOL, disk_volume b, show_nat wanted_gib @ ''G'']))"

subsection \<open>Locks, forwards and the operator's ssh master\<close>

text \<open>\<open>proc.spawn\<close> and the loops over a child's lines are those of the event watcher below.\<close>

definition libvirt_dir :: string where "libvirt_dir = ''.local/state/yolobox/instances''"

definition allocate_host_port :: "env \<Rightarrow> nat io" where
  "allocate_host_port E =
     bnd (yolobox_domains E) (\<lambda>infos.
     bnd (read_port_window E) (\<lambda>window.
     lowest_free_port window (concat (map di_forward_ports infos)) (loopback_port_bound E)))"

definition port_lock :: "env \<Rightarrow> 'a io \<Rightarrow> 'a io" where
  "port_lock E body =
     (let directory = path_join (env_home E) libvirt_dir in
      sq (host_op E ''makedirs'' [directory])
         (with_lock E (path_join directory PORT_LOCK_NAME) True body))"

definition master_lock :: "env \<Rightarrow> box \<Rightarrow> 'a io \<Rightarrow> 'a io" where
  "master_lock E b body =
     sq (private_dir (instance_dir E b))
        (with_lock E (path_join (instance_dir E b) MASTER_LOCK_NAME) True body)"

definition ensure_master :: "env \<Rightarrow> box \<Rightarrow> unit io" where
  "ensure_master E b =
     master_lock E b
       (let login = sq (operator_key E)
              (sq (ssh_run_inheriting E b OPERATOR [''true''] checked True False) (ret ())) in
        bnd (master_alive E b OPERATOR) (\<lambda>alive.
        if \<not> alive then login
        else
          bnd (ssh_run_inheriting E b OPERATOR [''true''] plain True False) (\<lambda>session.
          if returncode session = 0 then ret ()
          else
            sq (stop_master E b OPERATOR
                  (''the ssh master answers but carries no session, and `ssh -O exit` did not stop it'', [box_name b]))
               login)))"

definition close_master :: "env \<Rightarrow> box \<Rightarrow> unit io" where
  "close_master E b =
     master_lock E b
       (stop_master E b OPERATOR (''the ssh master is still running after `ssh -O exit`'', [box_name b]))"

definition libvirt_forward_port :: "env \<Rightarrow> box \<Rightarrow> nat \<Rightarrow> nat io" where
  "libvirt_forward_port E b guest_port =
     sq (ensure_master E b)
     (port_lock E
       (bnd (allocate_host_port E) (\<lambda>host_port.
        bnd (ssh_argv E b OPERATOR
               [''-O'', ''forward'', ''-L'',
                LOOPBACK @ '':'' @ show_nat host_port @ '':'' @ LOOPBACK @ '':'' @ show_nat guest_port,
                vm_host b] True) (\<lambda>argv.
        sq (run E argv checked) (ret host_port)))))"

fun search_master_pid :: "string \<Rightarrow> nat option" where
  "search_master_pid [] = None"
| "search_master_pid (c # s) =
     (let r = after ''Master running (pid='' (c # s); ds = takeWhile is_digit r in
      if startswith (c # s) ''Master running (pid='' \<and> ds \<noteq> [] \<and> startswith (dropWhile is_digit r) '')''
      then Some (decimal ds) else search_master_pid s)"

text \<open>\<open>aws.checked_pid\<close> of an int: above 1, or none.\<close>

definition libvirt_running_keepalive_pid :: "env \<Rightarrow> box \<Rightarrow> nat option io" where
  "libvirt_running_keepalive_pid E b =
     bnd (ssh_argv E b OPERATOR [''-O'', ''check'', vm_host b] True) (\<lambda>argv.
     bnd (run E argv plain) (\<lambda>c.
     ret (case search_master_pid (stderr c @ stdout c) of
            None \<Rightarrow> None
          | Some pid \<Rightarrow> if pid > 1 then Some pid else None)))"

definition libvirt_keepalive_pid :: "env \<Rightarrow> box \<Rightarrow> nat option io" where
  "libvirt_keepalive_pid E b = sq (ensure_master E b) (libvirt_running_keepalive_pid E b)"

subsection \<open>Volumes\<close>

text \<open>\<open>os.stat(path).st_size\<close>\<close>

definition stat_size :: "env \<Rightarrow> string \<Rightarrow> nat io" where
  "stat_size E path =
     bnd (reads (\<lambda>h. (os_error E h ''stat'' [path], file_size E h path))) (\<lambda>(failure, n).
     case failure of Some reason \<Rightarrow> raise (OsError reason) | None \<Rightarrow> ret n)"

text \<open>Whatever ends the upload, the partial volume goes, and what ended it is raised.\<close>

definition partial_volume_left :: "env \<Rightarrow> string \<Rightarrow> string list io" where
  "partial_volume_left E volume =
     bnd (virsh E [''vol-delete'', ''--pool'', LIBVIRT_POOL, volume] plain) (\<lambda>cleanup.
     ret (if returncode cleanup = 0 then []
          else [''removing the partial volume failed too: '' @ strip (stderr cleanup)]))"

definition upload_failed :: "env \<Rightarrow> string \<Rightarrow> exn \<Rightarrow> unit io" where
  "upload_failed E volume failure =
     bnd (partial_volume_left E volume) (\<lambda>removal.
     if \<not> is_yo_error failure
     then sq (when_do (removal \<noteq> []) (warn (concat removal) [])) (raise failure)
     else raise (Exn Yo (Some (fst (message_of failure), snd (message_of failure) @ removal)) (exn_code failure)))"

definition create_volume :: "env \<Rightarrow> string \<Rightarrow> nat \<Rightarrow> string \<Rightarrow> string \<Rightarrow> unit io" where
  "create_volume E volume nbytes fmt source =
     sq (virsh_do E [''vol-create-as'', LIBVIRT_POOL, volume, show_nat nbytes, ''--format'', fmt])
     (catch (virsh_do E [''vol-upload'', ''--pool'', LIBVIRT_POOL, volume, source]) (upload_failed E volume))"

definition build_disk_volume :: "env \<Rightarrow> box \<Rightarrow> nat \<Rightarrow> unit io" where
  "build_disk_volume E b gib =
     bnd (ensure_seed E) (\<lambda>seed.
     bnd (stat_size E seed) (\<lambda>n.
     sq (create_volume E (disk_volume b) n ''qcow2'' seed)
        (virsh_do E [''vol-resize'', ''--pool'', LIBVIRT_POOL, disk_volume b, show_nat gib @ ''G''])))"

definition ensure_disk_volume :: "env \<Rightarrow> box \<Rightarrow> nat \<Rightarrow> unit io" where
  "ensure_disk_volume E b gib =
     bnd (volume_exists E (disk_volume b)) (\<lambda>there.
     if \<not> there then build_disk_volume E b gib
     else
       bnd (volume_sizes E b) (\<lambda>sizes.
       if disk_volume_finished (capacity sizes) then ret ()
       else
         sq (warn ''the volume was never finished; deleting it to build it again'' [disk_volume b])
         (sq (virsh_do E [''vol-delete'', ''--pool'', LIBVIRT_POOL, disk_volume b])
             (build_disk_volume E b gib))))"

text \<open>
  The staged copy is read in the order of \<open>CIDATA_FILES\<close>, the order \<open>cidata_files\<close> builds its
  files in, so the equality of the dicts is the equality of the lists.
\<close>

fun staged_files :: "env \<Rightarrow> string \<Rightarrow> string list \<Rightarrow> (string \<times> string) list io" where
  "staged_files E staging [] = ret []"
| "staged_files E staging (name # names) =
     bnd (read_text_file E (path_join staging name)) (\<lambda>a.
     case a of
       None \<Rightarrow> ret []
     | Some content \<Rightarrow> bnd (staged_files E staging names) (\<lambda>rest. ret ((name, content) # rest)))"

definition rmtree_if_there :: "env \<Rightarrow> string \<Rightarrow> unit io" where
  "rmtree_if_there E path = bnd (path_exists E path) (\<lambda>there. when_do there (host_op E ''rmtree'' [path]))"

definition rebuild_cidata :: "env \<Rightarrow> box \<Rightarrow> (string \<times> string) list \<Rightarrow> string \<Rightarrow> string \<Rightarrow> string \<Rightarrow> unit io" where
  "rebuild_cidata E b fs staging building iso_path =
     sq (private_dir building)
     (sq (for_each fs (\<lambda>(name, content). atomic_write E (path_join building name) content FILE_MODE_READABLE))
     (sq (run E [''xorriso'', ''-as'', ''mkisofs'', ''-V'', ''cidata'', ''-J'', ''-R'', ''-o'', iso_path, building] checked)
     (bnd (volume_exists E (cidata_volume b)) (\<lambda>there.
      sq (when_do there (virsh_do E [''vol-delete'', ''--pool'', LIBVIRT_POOL, cidata_volume b]))
      (bnd (stat_size E iso_path) (\<lambda>n.
       sq (create_volume E (cidata_volume b) n ''raw'' iso_path)
       (sq (rmtree_if_there E staging)
           (host_op E ''rename'' [building, staging]))))))))"

definition sync_cidata :: "env \<Rightarrow> box \<Rightarrow> (string \<times> string) list \<Rightarrow> unit io" where
  "sync_cidata E b fs =
     (let staging = path_join (instance_dir E b) ''cidata''; building = staging @ ''.new'';
          iso_path = path_join (instance_dir E b) ''cidata.iso'' in
      bnd (staged_files E staging CIDATA_FILES) (\<lambda>staged.
      bnd (if staged = fs then volume_exists E (cidata_volume b) else ret False) (\<lambda>current.
      if current then ret ()
      else
        sq (rmtree_if_there E building)
           (and_finally (rebuild_cidata E b fs staging building iso_path)
              (sq (unlink_if_there E iso_path) (rmtree_if_there E building))))))"

subsection \<open>Defining and starting the domain\<close>

definition write_ssh_config :: "env \<Rightarrow> box \<Rightarrow> nat \<Rightarrow> unit io" where
  "write_ssh_config E b port =
     (let wanted = libvirt_ssh_config (vm_host b) port (host_user E) (libvirt_op_sock E) (instance_dir E b) in
      bnd (read_text_file E (ssh_cfg E b)) (\<lambda>current.
      when_do (lima_part_of (or_else current []) \<noteq> wanted)
        (atomic_write E (ssh_cfg E b) wanted FILE_MODE_PRIVATE)))"

definition create_domain :: "env \<Rightarrow> box \<Rightarrow> nat \<Rightarrow> nat \<Rightarrow> nat io" where
  "create_domain E b memory cpu_count =
     bnd (vm_account E) (\<lambda>(uid, gid).
     port_lock E
       (bnd (allocate_host_port E) (\<lambda>port.
        bnd (domain_xml E (box_name b) port uid gid memory cpu_count) (\<lambda>definition_xml.
        let path = path_join (instance_dir E b) ''domain.xml'' in
        sq (atomic_write E path definition_xml FILE_MODE_READABLE)
        (sq (virsh_do E [''define'', path]) (ret port))))))"

subsection \<open>What the operations achieve\<close>

definition taken_or_bound :: "env \<Rightarrow> history \<Rightarrow> int list \<Rightarrow> nat \<Rightarrow> bool" where
  "taken_or_bound E h taken q \<longleftrightarrow> int q \<in> set taken \<or> bind_ans E h q = Inr True"

lemma loopback_probe_Inr: "loopback_port_bound E p h = (Inr x, t) \<longleftrightarrow> bind_ans E h p = Inr x \<and> t = h"
  by (auto simp: loopback_port_bound_def bnd_def reads_def ret_def raise_def split: sum.splits)

lemma first_free_Inr:
  assumes "first_free ports taken (loopback_port_bound E) h = (Inr r, t)"
  shows "t = h \<and> (case r of
     None \<Rightarrow> list_all (taken_or_bound E h taken) ports
   | Some p \<Rightarrow> \<exists>pre post. ports = pre @ p # post \<and> list_all (taken_or_bound E h taken) pre
       \<and> int p \<notin> set taken \<and> bind_ans E h p = Inr False)"
  using assms
proof (induction ports)
  case Nil
  then show ?case by (simp add: ret_def)
next
  case (Cons q ports)
  have skip: ?case if "taken_or_bound E h taken q" "first_free ports taken (loopback_port_bound E) h = (Inr r, t)"
  proof (cases r)
    case None
    with Cons.IH [OF that(2)] that(1) show ?thesis by simp
  next
    case (Some p)
    with Cons.IH [OF that(2)] obtain pre post where
      "t = h" "ports = pre @ p # post" "list_all (taken_or_bound E h taken) pre" "int p \<notin> set taken" "bind_ans E h p = Inr False"
      by auto
    with that(1) show ?thesis
      unfolding Some option.case by (intro conjI exI [of _ "q # pre"] exI [of _ post]) simp_all
  qed
  show ?case
  proof (cases "int q \<in> set taken")
    case True
    with Cons.prems show ?thesis by (intro skip) (simp_all add: taken_or_bound_def)
  next
    case False
    with Cons.prems obtain x where x: "bind_ans E h q = Inr x"
      and rest: "(if x then first_free ports taken (loopback_port_bound E) else ret (Some q)) h = (Inr r, t)"
      by (auto elim!: bnd_InrE simp: loopback_probe_Inr)
    show ?thesis
    proof (cases x)
      case True
      with x rest show ?thesis by (intro skip) (simp_all add: taken_or_bound_def)
    next
      case False
      with x rest \<open>int q \<notin> set taken\<close> show ?thesis by (fastforce simp: ret_def)
    qed
  qed
qed

lemma upt_split:
  assumes "[a..<b] = pre @ p # post"
  shows "pre = [a..<p] \<and> a \<le> p \<and> p < b"
proof -
  let ?n = "length pre"
  have n: "?n < b - a" using arg_cong [OF assms, of length] by simp
  have p: "p = a + ?n" using arg_cong [OF assms, of "\<lambda>xs. xs ! ?n"] n by (simp add: nth_append)
  have "pre = take ?n [a..<b]" using assms by simp
  also have "\<dots> = [a..<p]" using n p by simp
  finally show ?thesis using n p by simp
qed

subsection \<open>Properties\<close>

text \<open>
  The port picked for a box is the lowest one of the window that no other box forwards and
  nothing holds: every port below it is taken or bound, and picking it changes nothing.
\<close>

lemma lowest_free_port_is_lowest:
  assumes "lowest_free_port window taken (loopback_port_bound E) h = (Inr p, t)"
  shows "t = h \<and> fst window \<le> p \<and> p \<le> snd window \<and> int p \<notin> set taken \<and> bind_ans E h p = Inr False
    \<and> list_all (taken_or_bound E h taken) [fst window..<p]"
proof -
  from assms have "first_free [fst window..<Suc (snd window)] taken (loopback_port_bound E) h = (Inr (Some p), t)"
    by (auto simp: lowest_free_port_def ret_def raise_def simp del: upt_Suc elim!: bnd_InrE split: option.splits)
  from first_free_Inr [OF this] obtain pre post where
    t: "t = h" and split: "[fst window..<Suc (snd window)] = pre @ p # post"
    and facts: "list_all (taken_or_bound E h taken) pre" "int p \<notin> set taken" "bind_ans E h p = Inr False"
    by (simp only: option.case) blast
  from upt_split [OF split] t facts show ?thesis by auto
qed

theorem lowest_free_port_is_lowest_witness:
  "lowest_free_port (49152, 49160) [49152] (loopback_port_bound sample_env) [] = (Inr 49153, [])
   \<and> list_all (taken_or_bound sample_env [] [49152]) [49152..<49153]"
proof -
  have run: "lowest_free_port (49152, 49160) [49152] (loopback_port_bound sample_env) [] = (Inr 49153, [])"
    by (simp add: lowest_free_port_def upt_rec [of 49152] upt_rec [of 49153] loopback_port_bound_def sample_env_def
        bnd_def reads_def ret_def)
  from lowest_free_port_is_lowest [OF run] run show ?thesis by simp
qed


text \<open>virsh itself is on the path, so a run of it always gives an exit status.\<close>

definition virsh_on_path :: "env \<Rightarrow> bool" where
  "virsh_on_path E \<longleftrightarrow> (\<forall>h args input. proc_ans E h (virsh_argv args) input \<noteq> Not_On_Path)"

lemma virsh_plain:
  assumes "virsh_on_path E"
  obtains c where "virsh E args plain h = (Inr c, h @ [Ran (virsh_argv args) None])"
proof (cases "proc_ans E h (virsh_argv args) None")
  case (Finished code out err)
  then show ?thesis
    by (intro that)
       (simp add: virsh_def run_def plain_def unsupported_filtered_def bnd_def reads_def emit_def modifies_def ret_def Let_def)
next
  case Not_On_Path
  with assms show ?thesis by (simp add: virsh_on_path_def)
qed


definition full_pool_env :: env where
  "full_pool_env = sample_env\<lparr>proc_ans := (\<lambda>h argv input. if ''vol-upload'' \<in> set argv then Finished 1 [] ''no space'' else Finished 0 [] [])\<rparr>"


end
