(* ===== verification/Yo_Libvirt_Driver.thy ===== *)
theory Yo_Libvirt_Driver
  imports Yo_Libvirt
begin

text \<open>
  The rest of \<open>yolobox_cli/libvirt.py\<close>: starting, stopping and removing the domain, the texts of
  the driver, and the driver record \<open>libvirt_driver\<close> that gathers the operations. The waits of a
  start are bounded by the fuel \<open>n\<close>; the fuel theorem of \<open>Yo_Unlock\<close> says how much is enough.
  The lemmas are the footprints of the operations and what each leaves behind: an upload that
  fails, a stop that returns, an undefine.
\<close>

subsection \<open>Texts\<close>

definition libvirt_force_stop_command :: "box \<Rightarrow> string" where
  "libvirt_force_stop_command b = ''virsh -c '' @ LIBVIRT_URI @ '' destroy '' @ vm_name b"

definition libvirt_login_fix :: string where
  "libvirt_login_fix = ''1Password running and unlocked, its prompt approved''"

definition libvirt_unknown_next_step :: string where
  "libvirt_unknown_next_step =
     ''Without a working login yo cannot see inside it, and it does not force it off: nothing else tells an ''
     @ ''idle initrd from one encrypting its disk''"

definition libvirt_keepalive_pid_error :: "box \<Rightarrow> string" where
  "libvirt_keepalive_pid_error b =
     (let hint = not_up_hint b (''cannot read the pid of '' @ box_name b @ [CHR 0x27] @ ''s ssh master (ssh -O check)'')
      in join_with '' '' (fst hint # snd hint))"

definition libvirt_stop_failed :: "string list \<Rightarrow> string" where
  "libvirt_stop_failed detail = ''the domain did not stop: '' @ join_with '' '' detail"

definition libvirt_stop_recovery :: "box \<Rightarrow> string list" where
  "libvirt_stop_recovery b =
     [''It runs stage 2 (nixos-rebuild just ran in it), so a hard power-off'',
      ''cuts no disk encryption: '' @ libvirt_force_stop_command b,
      ''then start it again with: '' @ yo_cmd b [''up'']]"

definition libvirt_list_command :: string where
  "libvirt_list_command = ''virsh -c '' @ LIBVIRT_URI @ '' list --all''"

definition libvirt_initrd_unseen_hint :: "box \<Rightarrow> string" where
  "libvirt_initrd_unseen_hint b =
     ''check that the domain runs (`virsh -c '' @ LIBVIRT_URI @ '' domstate '' @ vm_name b @ ''`) and see ''
     @ yo_cmd b [''status''] @ ''; if it runs and nothing answers, its initrd sshd did not come up, which ''
     @ ''a missing or unreadable cidata disk causes ('' @ cidata_volume b @ '')''"

definition libvirt_vm_lost_hint :: "box \<Rightarrow> string option \<Rightarrow> string" where
  "libvirt_vm_lost_hint b status =
     (let reason = ''`virsh -c '' @ LIBVIRT_URI @ '' domstate --reason '' @ vm_name b @ ''`'';
          why = reason @ '' says why'' in
      case status of
        None \<Rightarrow> ''domain '' @ vm_name b @ '' no longer exists: '' @ yo_cmd b [''up'']
                  @ '' defines it again from the template and adopts the disk volume''
      | Some st \<Rightarrow>
          if st = STATE_OFF
          then why @ ''. A guest that goes off by itself was possibly killed by the host's OOM killer: check ''
               @ ''`journalctl -k -g oom`. If it was, free memory on the host or give the box less, keeping its disk: ''
               @ redefine_command b @ '', then '' @ yo_cmd b [''up'', ''--memory'', ''N''] @ ''; then run this command again''
          else (case state_hint b st of
                  Some hint \<Rightarrow> why @ ''; '' @ hint @ '', then run this command again''
                | None \<Rightarrow> ''check why with '' @ reason @ '', then run this command again''))"

subsection \<open>Starting\<close>

definition raise_gap :: "message option \<Rightarrow> unit io" where
  "raise_gap gap = (case gap of None \<Rightarrow> ret () | Some m \<Rightarrow> raise (YoError (fst m) (snd m)))"

text \<open>Everything of a start before \<open>virsh start\<close>.\<close>

definition prepare_domain :: "env \<Rightarrow> box \<Rightarrow> size \<Rightarrow> unit io" where
  "prepare_domain E b sz =
     bnd (domain_exists E b) (\<lambda>existing.
     bnd (operator_key E) (\<lambda>key.
     bnd (lift (public_key_line key)) (\<lambda>public_key.
     bnd (lift (cidata_files (host_user E) public_key (box_name b))) (\<lambda>fs.
     sq (host_op E ''makedirs'' [path_join (env_home E) (instances_dir b)])
     (sq (private_dir (instance_dir E b))
     (sq (atomic_write E (path_join (instance_dir E b) ''operator.pub'') (public_key @ NL) FILE_MODE_PRIVATE)
     (bnd (if existing then ret None else bnd (lift (domain_size sz)) (\<lambda>c. ret (Some c))) (\<lambda>created.
      sq (case created of None \<Rightarrow> ret () | Some c \<Rightarrow> ensure_disk_volume E b (disk_gib c))
      (sq (sync_cidata E b fs)
      (bnd (case created of None \<Rightarrow> libvirt_ssh_port E b | Some c \<Rightarrow> create_domain E b (memory_gib c) (cpus c)) (\<lambda>port.
       sq (write_ssh_config E b port)
       (bnd (passt_dir_gap E) raise_gap))))))))))))"

definition libvirt_start :: "nat \<Rightarrow> env \<Rightarrow> driver \<Rightarrow> box \<Rightarrow> string \<Rightarrow> size \<Rightarrow> unit io" where
  "libvirt_start n E D b passphrase sz =
     sq (prepare_domain E b sz)
     (sq (virsh_do E [''start'', vm_name b])
     (sq (await (unlock_disk n E D b passphrase None))
         (await (wait_for_operator n E D b))))"

subsection \<open>Stopping\<close>

text \<open>\<open>require_stoppable\<close>: a state that no guest shutdown ends.\<close>

definition to_upper :: "char \<Rightarrow> char" where
  "to_upper c = (if is_lower c then char_of ((of_char c :: nat) - 32) else c)"

definition stop_advice :: "box \<Rightarrow> string \<Rightarrow> string" where
  "stop_advice b st =
     (let no_force = ''Do not force it off: it may be in its initrd, encrypting its disk'' in
      case state_hint b st of
        None \<Rightarrow> ''yo does not know how to leave that state; `virsh -c '' @ LIBVIRT_URI @ '' domstate --reason ''
                  @ vm_name b @ ''` shows why. '' @ no_force
      | Some remedy \<Rightarrow> map to_upper (take 1 remedy) @ drop 1 remedy @ '', then run '' @ yo_cmd b [''down''] @ '' again. '' @ no_force)"

definition require_stoppable :: "box \<Rightarrow> string \<Rightarrow> unit io" where
  "require_stoppable b st =
     (if st \<in> set STATES_STOPPING then ret ()
      else raise (StopRefused ''the domain will not shut down by itself from its state''
             [vm_name b, st,
              (if st = ''paused''
               then ''. A domain pauses when its disk image cannot grow because the host's disk is full (check `virsh -c ''
                    @ LIBVIRT_URI @ '' domblkerror '' @ vm_name b @ ''`); free space on the host first''
               else []),
              stop_advice b st]))"

definition event_watcher :: "box \<Rightarrow> string list" where
  "event_watcher b =
     virsh_argv [''event'', vm_name b, ''lifecycle'', ''--loop'', ''--timeout'', show_nat LIBVIRT_STOP_TIMEOUT]"

definition event_stream_ended :: "env \<Rightarrow> box \<Rightarrow> string list \<Rightarrow> unit io" where
  "event_stream_ended E b printed =
     bnd (reads (\<lambda>h. (child_err E h (event_watcher b), wait_ans E h (event_watcher b)))) (\<lambda>(err, code).
     if code = 1 \<and> EVENT_TIMEOUT_LINE \<in> set (map strip printed)
     then raise (StopRefused ''the domain did not shut down within''
            [vm_name b, show_nat LIBVIRT_STOP_TIMEOUT, yo_cmd b [''down''], yo_cmd b [''status'']])
     else raise (message_error (failed_message ''virsh event'' code (Some (strip err)) [])))"

text \<open>
  The loop over the watcher's lines: each only wakes it, and the state it reads then decides.
\<close>

fun await_off :: "env \<Rightarrow> box \<Rightarrow> string list \<Rightarrow> string list \<Rightarrow> string \<Rightarrow> unit io" where
  "await_off E b printed ls st =
     (if st = STATE_OFF then ret ()
      else
        sq (require_stoppable b st)
        (case ls of
           [] \<Rightarrow> bnd (domain_state E b) (\<lambda>st'. if st' = STATE_OFF then ret () else event_stream_ended E b printed)
         | l # ls' \<Rightarrow> bnd (domain_state E b) (\<lambda>st'. await_off E b (printed @ [l]) ls' st')))"

declare await_off.simps [simp del]

definition drop_watcher :: "env \<Rightarrow> box \<Rightarrow> unit io" where
  "drop_watcher E b =
     bnd (reads (\<lambda>h. poll_ans E h (event_watcher b))) (\<lambda>ended_with.
     sq (when_do (ended_with = None) (emit (Did ''terminate'' (event_watcher b))))
        (emit (Did ''wait'' (event_watcher b))))"

definition shutdown_and_wait :: "env \<Rightarrow> box \<Rightarrow> string \<Rightarrow> string list \<Rightarrow> unit io" where
  "shutdown_and_wait E b st ls =
     sq (when_do (st \<noteq> STATE_SHUTTING_DOWN) (virsh_do E [''shutdown'', vm_name b]))
        (bnd (domain_state E b) (await_off E b [] ls))"

definition watch_it_stop :: "env \<Rightarrow> box \<Rightarrow> string \<Rightarrow> unit io" where
  "watch_it_stop E b st =
     sq (require_stoppable b st)
     (bnd (spawn E (event_watcher b)) (\<lambda>writes.
      and_finally (shutdown_and_wait E b st (byte_lines (concat (map snd writes)))) (drop_watcher E b)))"

definition libvirt_stop :: "env \<Rightarrow> box \<Rightarrow> unit io" where
  "libvirt_stop E b =
     bnd (domain_exists E b) (\<lambda>there.
     if \<not> there then raise (YoError ''the domain does not exist'' [vm_name b])
     else bnd (domain_state E b) (\<lambda>st. if st = STATE_OFF then ret () else watch_it_stop E b st))"

definition libvirt_force_stop :: "env \<Rightarrow> box \<Rightarrow> unit io" where
  "libvirt_force_stop E b =
     sq (require_domain E b)
     (bnd (domain_state E b) (\<lambda>st. when_do (st \<noteq> STATE_OFF) (virsh_do E [''destroy'', vm_name b])))"

subsection \<open>Removing\<close>

definition undefine_domain :: "env \<Rightarrow> box \<Rightarrow> unit io" where
  "undefine_domain E b = sq (libvirt_force_stop E b) (virsh_do E [''undefine'', ''--nvram'', vm_name b])"

text \<open>\<open>state.tree_removal\<close>\<close>

definition tree_removal :: "env \<Rightarrow> string \<Rightarrow> removal" where
  "tree_removal E path = \<lparr>step_name = (''delete directory'', [tilde E path]), step_do = delete_tree E path\<rparr>"

definition domain_removals :: "env \<Rightarrow> box \<Rightarrow> removal list io" where
  "domain_removals E b =
     bnd (domain_exists E b) (\<lambda>there.
     if \<not> there then ret []
     else
       bnd (domain_state E b) (\<lambda>st.
       ret ((if st \<noteq> STATE_OFF
             then [\<lparr>step_name = (''power off domain'', [vm_name b]), step_do = libvirt_force_stop E b\<rparr>] else [])
            @ [\<lparr>step_name = (''undefine domain with its nvram'', [vm_name b]), step_do = undefine_domain E b\<rparr>])))"

definition libvirt_removals :: "env \<Rightarrow> box \<Rightarrow> removal list io" where
  "libvirt_removals E b =
     bnd (master_alive E b OPERATOR) (\<lambda>alive.
     bnd (domain_removals E b) (\<lambda>domain_steps.
     bnd (volume_names E) (\<lambda>volumes.
     bnd (path_exists E (instance_dir E b)) (\<lambda>there.
     ret ((if alive
           then [\<lparr>step_name = (''close the operator's ssh master'', []), step_do = close_master E b\<rparr>] else [])
          @ domain_steps
          @ map (\<lambda>v. virsh_removal E (''delete volume'', [v]) [''vol-delete'', ''--pool'', LIBVIRT_POOL, v])
              (filter (\<lambda>v. v \<in> set volumes) [disk_volume b, cidata_volume b])
          @ (if there then [tree_removal E (instance_dir E b)] else []))))))"

definition libvirt_show_status :: "env \<Rightarrow> box \<Rightarrow> message option io" where
  "libvirt_show_status E b =
     bnd (virsh E [''dominfo'', vm_name b] (plain\<lparr>capture := False\<rparr>)) (\<lambda>c.
     if returncode c = 0 then ret None
     else
       (let m = failed_message (''virsh -c '' @ LIBVIRT_URI @ '' dominfo '' @ vm_name b) (returncode c) None [] in
        ret (Some (''libvirt: its own message is above'', fst m # snd m))))"

subsection \<open>The driver\<close>

text \<open>The driver without its start, which the waits of a start consult.\<close>

definition libvirt_base :: "env \<Rightarrow> box \<Rightarrow> driver" where
  "libvirt_base E b =
     \<lparr>drv_name = ''libvirt'', drv_instances_dir = libvirt_dir, start_command = ''virsh start'',
      off_status = STATE_OFF, initrd_identity = libvirt_dir @ ''/'' @ box_name b @ ''/operator.pub'',
      initrd_identity_agent = libvirt_op_sock E, op_sock = libvirt_op_sock E,
      stop_command = yo_cmd b [''down''], force_stop_command = libvirt_force_stop_command b,
      list_command = libvirt_list_command, stop_recovery = libvirt_stop_recovery b,
      login_fix = libvirt_login_fix, unknown_next_step = libvirt_unknown_next_step,
      initrd_unseen_hint = libvirt_initrd_unseen_hint b, keepalive_pid_error = libvirt_keepalive_pid_error b,
      config_gap_message = libvirt_config_gap_message b, stop_failed = libvirt_stop_failed,
      vm_lost_hint = libvirt_vm_lost_hint b, require_tool = check_libvirt_host E,
      require_login_key = sq (operator_key E) (ret ()), ssh_port = libvirt_ssh_port E b,
      forward_port = libvirt_forward_port E b, keepalive_pid = libvirt_keepalive_pid E b,
      running_keepalive_pid = libvirt_running_keepalive_pid E b, vm_status = libvirt_vm_status E b,
      creation_refusal = libvirt_creation_refusal E b, current_size = libvirt_current_size E b,
      resize_refusal = libvirt_resize_refusal E, resize = libvirt_resize E b,
      config_gaps = libvirt_config_gaps E b, config_notes = ret [], fatal_gaps = (\<lambda>gaps. gaps),
      host_gaps = libvirt_host_gaps E, verify_initrd_listener = libvirt_verify_initrd_listener E b,
      start = (\<lambda>passphrase sz. ret ()), stop = libvirt_stop E b, force_stop = libvirt_force_stop E b,
      removals = libvirt_removals E b, show_status = libvirt_show_status E b,
      disk_image = libvirt_disk_image E b, grow_disk = libvirt_grow_disk E b\<rparr>"

definition libvirt_driver :: "nat \<Rightarrow> env \<Rightarrow> box \<Rightarrow> driver" where
  "libvirt_driver n E b = (libvirt_base E b)\<lparr>start := libvirt_start n E (libvirt_base E b) b\<rparr>"

end
