(* ===== verification/Yo_Lima.thy ===== *)
theory Yo_Lima
  imports Yo_Lima_Config
begin

text \<open>
  The second half of \<open>yolobox_cli/lima.py\<close>: the driver of macOS hosts. Its readings of limactl,
  the messages on a configuration that breaks the box's guarantees, the start that runs beside
  the unlock, the stops with their time limit, the sizes; and the driver record \<open>lima_driver\<close>.
\<close>

definition shown_instance_file :: "box \<Rightarrow> string \<Rightarrow> string" where
  "shown_instance_file b name = tilde_dir b @ ''/'' @ name"

definition lima_instances_dir :: string where "lima_instances_dir = ''.lima''"
definition lima_initrd_identity :: string where "lima_initrd_identity = ''.lima/_config/user''"
definition lima_off_status :: string where "lima_off_status = ''Stopped''"
definition lima_list_command :: string where "lima_list_command = ''limactl list''"
definition MIGRATE_UNIT_DESCRIPTION :: string where
  "MIGRATE_UNIT_DESCRIPTION = ''Encrypt or finish encrypting '' @ LUKS_DEVICE @ '' in place''"

definition lima_yaml :: "env \<Rightarrow> string" where "lima_yaml E = env_script_dir E @ ''/lima/yolobox.yaml''"

definition boot_log :: "box \<Rightarrow> string" where "boot_log b = shown_instance_file b ''serialv.log''"

subsection \<open>Commands and texts\<close>

definition lima_edit_command :: "box \<Rightarrow> string \<Rightarrow> string" where
  "lima_edit_command b expression =
     ''limactl stop '' @ box_name b @ '' && limactl edit '' @ box_name b @ '' --set '' @ [CHR 0x27] @ expression
     @ [CHR 0x27] @ '' && '' @ yo_cmd b [''up'']"

definition free_port_setting :: string where
  "free_port_setting =
     ''.ssh.localPort=<a free port in '' @ show_nat MIN_SSH_LOCAL_PORT @ ''-'' @ show_nat MAX_PORT @ ''>''"

definition create_command :: "env \<Rightarrow> box \<Rightarrow> size \<Rightarrow> string" where
  "create_command E b sz =
     shlex_join ([''limactl'', ''create'', ''--name'', box_name b]
       @ (if box_name b = DEFAULT_INSTANCE then [] else [''--set'', free_port_setting])
       @ flags sz @ [lima_yaml E])"

definition lima_unknown_next_step :: "box \<Rightarrow> string" where
  "lima_unknown_next_step b =
     ''If the login is right already, its boot log tells which: '' @ boot_log b @ ''. While ''
     @ [CHR 0x27] @ MIGRATE_UNIT_DESCRIPTION @ [CHR 0x27]
     @ '' has started and not finished there, the initrd is encrypting the disk; leave it running. A login prompt ''
     @ ''there means a stage 2 built before the banner mark: rebuild it with '' @ yo_cmd b [''bootstrap'']
     @ '' once '' @ yo_cmd b [''ssh'', ''true''] @ '' succeeds''"

definition lima_login_fix :: string where
  "lima_login_fix = ''lima's key, ~/'' @ lima_initrd_identity @ '', unchanged since the box was created''"

definition lima_keepalive_pid_error :: "box \<Rightarrow> string" where
  "lima_keepalive_pid_error b =
     (let hint = not_up_hint b (''cannot read '' @ box_name b @ [CHR 0x27] @ ''s host agent pid ('' @ lima_list_command
                   @ '' '' @ box_name b @ '' --json)'')
      in join_with '' '' (fst hint # snd hint))"

definition lima_stop_command :: "box \<Rightarrow> string" where "lima_stop_command b = ''limactl stop '' @ box_name b"

definition lima_force_stop_command :: "box \<Rightarrow> string" where
  "lima_force_stop_command b = ''limactl stop --force '' @ box_name b"

definition lima_stop_failed :: "string list \<Rightarrow> string" where
  "lima_stop_failed detail = ''limactl stop failed: '' @ join_with '' '' detail"

definition lima_stop_recovery :: "box \<Rightarrow> string list" where
  "lima_stop_recovery b =
     [''Recover with: '' @ lima_stop_command b,
      ''If the stop hangs too: '' @ yo_cmd b [''ssh'', ''sudo'', ''systemctl'', ''reboot''] @ '', and kill -9 any leftover'',
      ''`limactl hostagent` process for '' @ box_name b @ ''.'']"

definition lima_initrd_unseen_hint :: "box \<Rightarrow> string" where
  "lima_initrd_unseen_hint b = ''its boot log shows how far it got: '' @ boot_log b"

definition lima_vm_lost_hint :: "env \<Rightarrow> box \<Rightarrow> string option \<Rightarrow> string" where
  "lima_vm_lost_hint E b status =
     (case status of
        None \<Rightarrow> ''instance '' @ box_name b @ '' no longer exists: ''
          @ (if box_name b = DEFAULT_INSTANCE then yo_cmd b [''up''] @ '' creates it again''
             else ''create it with: '' @ create_command E b NO_SIZE)
      | Some _ \<Rightarrow> lima_list_command @ '' shows its state, lima's hostagent log says why: ''
          @ shown_instance_file b ''ha.stderr.log'' @ '', and the guest's console shows how far it got: '' @ boot_log b
          @ ''; then run this command again'')"

subsection \<open>The port\<close>

definition refuse_mirrored_ssh_port :: "box \<Rightarrow> int \<Rightarrow> unit io" where
  "refuse_mirrored_ssh_port b port =
     (if port \<ge> int MIN_SSH_LOCAL_PORT then ret ()
      else raise (YoError ''has an ssh.localPort that another box's listener can claim''
             [box_name b, show_int port, show_nat (snd MIRRORED_TCP_PORTS), show_nat MIN_SSH_LOCAL_PORT, show_nat MAX_PORT,
              lima_edit_command b free_port_setting]))"

text \<open>\<open>isinstance(port, bool)\<close> is tested before \<open>isinstance(port, int)\<close>.\<close>

definition fixed_port :: "json option \<Rightarrow> nat option" where
  "fixed_port port =
     (case port of
        Some (JNum s) \<Rightarrow>
          (case json_int (JNum s) of
             Some p \<Rightarrow> if 0 < p \<and> p \<le> int MAX_PORT then Some (nat p) else None
           | None \<Rightarrow> None)
      | _ \<Rightarrow> None)"

definition lima_ssh_port :: "env \<Rightarrow> box \<Rightarrow> nat io" where
  "lima_ssh_port E b =
     (if box_name b = DEFAULT_INSTANCE then ret SSH_LOCAL_PORT
      else
        bnd (lima_instance_info E b) (\<lambda>info.
        case info of
          None \<Rightarrow> raise (YoError ''the instance does not exist, so yo cannot learn its ssh port''
                     [box_name b, create_command E b NO_SIZE])
        | Some i \<Rightarrow>
            (case fixed_port (li_ssh_local_port i) of
               None \<Rightarrow> raise (YoError ''has an ssh.localPort that is not a fixed port''
                          [box_name b, create_command E b NO_SIZE])
             | Some p \<Rightarrow> sq (refuse_mirrored_ssh_port b (int p)) (ret p))))"

definition lima_verify_initrd_listener :: "box \<Rightarrow> nat \<Rightarrow> unit io" where
  "lima_verify_initrd_listener b port = refuse_mirrored_ssh_port b (int port)"

definition lima_forward_port :: "nat \<Rightarrow> nat io" where
  "lima_forward_port guest_port =
     raise (Exn Yo (Some (''lima already mirrors the guest's TCP ports; yo port is for Linux hosts'',
              [show_nat (fst MIRRORED_TCP_PORTS), show_nat (snd MIRRORED_TCP_PORTS)])) USAGE_EXIT)"

subsection \<open>Readings\<close>

definition lima_keepalive_pid :: "env \<Rightarrow> box \<Rightarrow> nat option io" where
  "lima_keepalive_pid E b =
     bnd (lima_instance_info E b) (\<lambda>info. ret (Option.bind info li_host_agent_pid))"

definition lima_vm_status :: "env \<Rightarrow> box \<Rightarrow> string option io" where
  "lima_vm_status E b = bnd (lima_instance_info E b) (\<lambda>info. ret (map_option li_status info))"

definition lima_creation_refusal :: "env \<Rightarrow> box \<Rightarrow> size \<Rightarrow> message option io" where
  "lima_creation_refusal E b sz =
     (if box_name b = DEFAULT_INSTANCE then ret None
      else
        bnd (lift (for_creation (env_cpus E) sz)) (\<lambda>full.
        ret (Some (''the instance does not exist; create it with'',
               [box_name b, create_command E b full]
               @ (if asked sz then [''then run this command again without '' @ join_with '' '' (flags sz)] else [])))))"

definition lima_current_size :: "env \<Rightarrow> box \<Rightarrow> box_size io" where
  "lima_current_size E b =
     (let argv = [''limactl'', ''list'', box_name b, ''--format'', ''{{.Memory}} {{.Disk}} {{.CPUs}}''] in
      bnd (run E argv plain) (\<lambda>c.
      if returncode c \<noteq> 0 then raise (lima_failed argv c)
      else
        (case split_words (stdout c) of
           [m, d, n] \<Rightarrow>
             if list_all is_ascii_number [m, d, n] then
               bnd (lift (exact_gib (decimal m) ''memory'')) (\<lambda>memory.
               bnd (lift (exact_gib (decimal d) ''disk'')) (\<lambda>disk.
               ret \<lparr>memory_gib = memory, disk_gib = disk, cpus = decimal n\<rparr>))
             else raise (YoError ''limactl reports no memory, disk and CPUs'' [box_name b, yo_cmd b [''status'']])
         | _ \<Rightarrow> raise (YoError ''limactl reports no memory, disk and CPUs'' [box_name b, yo_cmd b [''status'']]))))"

definition uncaptured :: run_opts where "uncaptured = plain\<lparr>capture := False\<rparr>"

definition lima_resize :: "env \<Rightarrow> box \<Rightarrow> nat \<Rightarrow> nat \<Rightarrow> unit io" where
  "lima_resize E b gib n =
     bnd (run E [''limactl'', ''edit'', ''--tty=false'', box_name b, ''--memory'', show_nat gib, ''--cpus'', show_nat n]
            uncaptured) (\<lambda>c.
     if returncode c \<noteq> 0
     then raise (YoError ''limactl edit refused the resize, so the box is left stopped at its old size''
            [show_int (returncode c), box_name b])
     else ret ())"

definition lima_config_notes :: "env \<Rightarrow> box \<Rightarrow> string list io" where
  "lima_config_notes E b =
     bnd (lima_instance_info E b) (\<lambda>info.
     ret (case info of
            None \<Rightarrow> []
          | Some i \<Rightarrow>
              if operator_uid_readable i then []
              else [box_name b @ '' reports no user.uid in `limactl list --json`, so yo cannot tell whether the operator's uid is ''
                    @ show_int OPERATOR_GUEST_UID @ ''. Check by hand: limactl list --json '' @ box_name b
                    @ '' (config.user.uid), or '' @ yo_cmd b [''ssh'', ''id'', ''-u'']]))"

subsection \<open>What a gap is told as\<close>

text \<open>
  The restate of the whole array of rules is printed once: a gap it fixes names it afterwards.
\<close>

fun gap_lines :: "env \<Rightarrow> box \<Rightarrow> bool \<Rightarrow> string list \<Rightarrow> string list io" where
  "gap_lines E b restated [] = ret []"
| "gap_lines E b restated (gap # gaps) =
     (case map_of LIMA_MANUAL_GAPS gap of
        Some problem \<Rightarrow>
          bnd (destroy_then_bootstrap_command E b) (\<lambda>remedy.
          bnd (gap_lines E b restated gaps) (\<lambda>ls.
          ret ((box_name b @ '' '' @ problem @ '':'' @ NL @ ''    '' @ remedy) # ls)))
      | None \<Rightarrow>
          (case map_of LIMA_SETTING_GAPS gap of
             None \<Rightarrow> gap_lines E b restated gaps
           | Some (problem, expression) \<Rightarrow>
               if expression = RESTATE_PORT_FORWARDS \<and> restated then
                 bnd (gap_lines E b restated gaps) (\<lambda>ls.
                 ret ((box_name b @ '' '' @ problem @ '' (the restate above fixes it too)'') # ls))
               else
                 bnd (gap_lines E b (restated \<or> expression = RESTATE_PORT_FORWARDS) gaps) (\<lambda>ls.
                 ret ((box_name b @ '' '' @ problem @ '':'' @ NL @ ''    '' @ lima_edit_command b expression) # ls))))"

definition missing_forwards :: "string list \<Rightarrow> string list" where
  "missing_forwards gaps =
     filter (\<lambda>gap. gap \<notin> set (map fst LIMA_SETTING_GAPS) \<and> gap \<notin> set (map fst LIMA_MANUAL_GAPS)) gaps"

definition lima_config_gap_message :: "env \<Rightarrow> box \<Rightarrow> string list \<Rightarrow> string io" where
  "lima_config_gap_message E b gaps =
     (let missing = missing_forwards gaps in
      bnd (gap_lines E b (missing \<noteq> []) gaps) (\<lambda>ls.
      ret (join_with NL
        ((if missing \<noteq> []
          then [box_name b @ '' has no reverse forward for '' @ join_with '' and '' missing
                @ ''; restate the full array:'' @ NL @ ''    '' @ lima_edit_command b RESTATE_PORT_FORWARDS]
          else []) @ ls))))"

definition lima_fatal_gaps :: "string list \<Rightarrow> string list" where
  "lima_fatal_gaps gaps = filter (\<lambda>gap. gap \<in> set LIMA_FATAL_GAPS) gaps"

subsection \<open>Stopping\<close>

definition limactl_stop :: "env \<Rightarrow> string list \<Rightarrow> string \<Rightarrow> unit io" where
  "limactl_stop E args hang_recovery =
     catch (sq (run E ([''limactl'', ''stop''] @ args)
                  (uncaptured\<lparr>check := True, timeout := Some (of_nat LIMA_STOP_TIMEOUT)\<rparr>)) (ret ()))
       (\<lambda>e. if exn_class e = Run_Timeout
            then raise (StopRefused (fst (message_of e)) (snd (message_of e) @ [hang_recovery]))
            else raise e)"

definition stop_hangs :: string where
  "stop_hangs = ''limactl stop hangs on the vz driver sometimes (TODO.md)''"

definition lima_stop :: "env \<Rightarrow> box \<Rightarrow> unit io" where
  "lima_stop E b =
     bnd (lima_vm_status E b) (\<lambda>status.
     if status = Some lima_off_status then ret ()
     else limactl_stop E [box_name b]
       (stop_hangs @ ''. If '' @ yo_cmd b [''ssh'', ''true'']
        @ '' succeeds (exits 0 and prints nothing), the box is past its initrd: recover with ''
        @ yo_cmd b [''ssh'', ''sudo'', ''systemctl'', ''reboot''] @ '', then kill -9 any leftover 'limactl hostagent' for ''
        @ box_name b @ '', then '' @ yo_cmd b [''up''] @ ''. If it fails in any way, the box may be in its initrd, ''
        @ ''encrypting its disk: run '' @ yo_cmd b [''status''] @ '', and do not kill the hostagent''))"

definition lima_force_stop :: "env \<Rightarrow> box \<Rightarrow> unit io" where
  "lima_force_stop E b =
     limactl_stop E [''--force'', box_name b]
       (stop_hangs @ ''; recover with: kill -9 any 'limactl hostagent' for '' @ box_name b
        @ '' (that also ends the VM) and any child it left spinning, then '' @ yo_cmd b [''up''])"

subsection \<open>Starting\<close>

definition start_argv :: "env \<Rightarrow> box \<Rightarrow> size \<Rightarrow> bool \<Rightarrow> string list" where
  "start_argv E b sz there =
     (if there then [''limactl'', ''start'', ''--tty=false'', box_name b]
      else [''limactl'', ''start'', ''--name'', box_name b, ''--tty=false''] @ flags sz @ [lima_yaml E])"

definition wait_for :: "env \<Rightarrow> string list \<Rightarrow> int io" where
  "wait_for E argv = sq (emit (Did ''wait'' argv)) (reads (\<lambda>h. wait_ans E h argv))"

definition starter_of :: "env \<Rightarrow> string list \<Rightarrow> starter" where
  "starter_of E argv = Some (\<lambda>h. poll_ans E h argv)"

text \<open>One start beside the unlock: whether the disk was encrypted, and the code of limactl.\<close>

definition unlock_beside :: "nat \<Rightarrow> env \<Rightarrow> driver \<Rightarrow> box \<Rightarrow> string \<Rightarrow> string list \<Rightarrow> (bool \<times> int) io" where
  "unlock_beside n E D b passphrase argv =
     bnd (await (unlock_disk n E D b passphrase (starter_of E argv))) (\<lambda>migrated.
     bnd (wait_for E argv) (\<lambda>code. ret (migrated, code)))"

text \<open>
  Everything after the first spawn. The exception handler of the source is around it; the
  fuel's \<open>StillRunning\<close> is not an exception and passes.
\<close>

definition start_beside :: "nat \<Rightarrow> env \<Rightarrow> driver \<Rightarrow> box \<Rightarrow> string \<Rightarrow> string list \<Rightarrow> unit io" where
  "start_beside n E D b passphrase argv =
     bnd (unlock_beside n E D b passphrase argv) (\<lambda>(migrated, code).
     bnd (if code \<noteq> 0 \<and> migrated
          then sq (warn ''lima gave up waiting while the disk was being encrypted; restarting the instance cleanly'' [])
               (sq (lima_stop E b)
               (sq (spawn E argv)
               (bnd (unlock_beside n E D b passphrase argv) (\<lambda>(_, code'). ret code'))))
          else ret code) (\<lambda>code.
     if code \<noteq> 0 then raise (YoError ''limactl start failed; the VM may still be running'' [show_int code, lima_list_command])
     else await (wait_for_operator n E D b)))"

definition lima_start :: "nat \<Rightarrow> env \<Rightarrow> driver \<Rightarrow> box \<Rightarrow> string \<Rightarrow> size \<Rightarrow> unit io" where
  "lima_start n E D b passphrase sz =
     bnd (lima_instance_exists E b) (\<lambda>there.
     let argv = start_argv E b sz there in
     sq (spawn E argv)
        (catch (start_beside n E D b passphrase argv)
          (\<lambda>e. if exn_class e = Still_Running then raise e
               else sq (emit (Did ''terminate'' argv)) (sq (emit (Did ''wait'' argv)) (raise e)))))"

subsection \<open>Removing, showing, growing\<close>

definition delete_instance :: "env \<Rightarrow> box \<Rightarrow> unit io" where
  "delete_instance E b =
     sq (run E [''limactl'', ''delete'', ''--force'', box_name b] (uncaptured\<lparr>check := True\<rparr>)) (ret ())"

definition lima_removals :: "env \<Rightarrow> box \<Rightarrow> removal list io" where
  "lima_removals E b =
     bnd (lima_instance_exists E b) (\<lambda>there.
     ret (if there
          then [\<lparr>step_name = (''delete the Lima instance and its directory, powering it off first if it runs'',
                              [box_name b, tilde_dir b]),
                 step_do = delete_instance E b\<rparr>]
          else []))"

definition lima_show_status :: "env \<Rightarrow> box \<Rightarrow> message option io" where
  "lima_show_status E b =
     (let argv = [''limactl'', ''list'', box_name b] in
      bnd (run E argv uncaptured) (\<lambda>c.
      if returncode c = 0 then ret None
      else
        (let m = failed_message (shlex_join argv) (returncode c) None [] in
         ret (Some (''lima: its own message is above'', fst m # snd m)))))"

definition du_kib :: "env \<Rightarrow> string \<Rightarrow> nat option io" where
  "du_kib E path =
     bnd (reads (\<lambda>h. blocks_ans E h path)) (\<lambda>a.
     case a of
       Inl reason \<Rightarrow> raise (YoError ''cannot stat'' [path, reason])
     | Inr blocks \<Rightarrow> ret (map_option (\<lambda>n. n * STAT_BLOCK_BYTES div KIB) blocks))"

definition lima_disk :: "env \<Rightarrow> box \<Rightarrow> string" where "lima_disk E b = path_join (instance_dir E b) ''disk''"

definition lima_disk_image :: "env \<Rightarrow> box \<Rightarrow> (string \<times> nat) option io" where
  "lima_disk_image E b =
     bnd (du_kib E (lima_disk E b)) (\<lambda>kib. ret (map_option (Pair (shown_instance_file b ''disk'')) kib))"

definition lima_grow_disk :: "env \<Rightarrow> box \<Rightarrow> nat \<Rightarrow> nat \<Rightarrow> unit io" where
  "lima_grow_disk E b current_gib wanted_gib =
     bnd (reads (\<lambda>h. free_bytes E h (path_join (env_home E) lima_instances_dir))) (\<lambda>free.
     bnd (du_kib E (lima_disk E b)) (\<lambda>image.
     sq (say ''host: free space, and what the disk image allocates today''
           [lima_instances_dir, show_nat (free div KIB div MIB), show_nat (or_else image 0 div MIB)])
     (sq (say ''lima: raising the disk'' [box_name b, show_nat current_gib, show_nat wanted_gib])
     (bnd (run E [''limactl'', ''edit'', ''--tty=false'', box_name b, ''--disk'', show_nat wanted_gib] uncaptured) (\<lambda>c.
      if returncode c \<noteq> 0 then raise (YoError ''limactl edit refused the disk resize'' [show_int (returncode c)])
      else ret ())))))"

subsection \<open>The driver\<close>

definition lima_base :: "env \<Rightarrow> box \<Rightarrow> driver" where
  "lima_base E b =
     \<lparr>drv_name = ''lima'', drv_instances_dir = lima_instances_dir, start_command = ''limactl start'',
      off_status = lima_off_status, initrd_identity = lima_initrd_identity, initrd_identity_agent = ''none'',
      op_sock = lima_op_sock E, stop_command = lima_stop_command b, force_stop_command = lima_force_stop_command b,
      list_command = lima_list_command, stop_recovery = lima_stop_recovery b, login_fix = lima_login_fix,
      unknown_next_step = lima_unknown_next_step b, initrd_unseen_hint = lima_initrd_unseen_hint b,
      keepalive_pid_error = lima_keepalive_pid_error b, config_gap_message = lima_config_gap_message E b,
      stop_failed = lima_stop_failed, vm_lost_hint = lima_vm_lost_hint E b,
      require_tool = sq (require_tool_on E ''limactl'' ''brew install lima'') (ret ()), require_login_key = ret (),
      ssh_port = lima_ssh_port E b, forward_port = lima_forward_port, keepalive_pid = lima_keepalive_pid E b,
      running_keepalive_pid = lima_keepalive_pid E b, vm_status = lima_vm_status E b,
      creation_refusal = lima_creation_refusal E b, current_size = lima_current_size E b,
      resize_refusal = (\<lambda>cur wanted. ret None), resize = lima_resize E b, config_gaps = lima_config_gaps E b,
      config_notes = lima_config_notes E b, fatal_gaps = lima_fatal_gaps, host_gaps = ret [],
      verify_initrd_listener = lima_verify_initrd_listener b, start = (\<lambda>passphrase sz. ret ()),
      stop = lima_stop E b, force_stop = lima_force_stop E b, removals = lima_removals E b,
      show_status = lima_show_status E b, disk_image = lima_disk_image E b, grow_disk = lima_grow_disk E b\<rparr>"

definition lima_driver :: "nat \<Rightarrow> env \<Rightarrow> box \<Rightarrow> driver" where
  "lima_driver n E b = (lima_base E b)\<lparr>start := lima_start n E (lima_base E b) b\<rparr>"

end
