(* ===== verification/Yo_Footprints.thy ===== *)
theory Yo_Footprints
  imports Yo_Libvirt_Driver Yo_Lima
begin

text \<open>
  The footprints of the two host drivers: every reading and every change of theirs leaves only
  ordinary events, and the few that take a lock of their own take that one. An operation that
  leaves only ordinary events neither starts a process with an input (the passphrase) nor
  touches the lock that orders the unlocks.
\<close>

subsection \<open>Shared parts\<close>

lemma ordinary_quiet [simp]: "ordinary quiet_events"
  by (simp add: ordinary_def)

lemma logs_ssh_argv [footprint]: "ssh_events E b \<subseteq> A \<Longrightarrow> logs_only A (ssh_argv E b role tail mux)"
  unfolding ssh_argv_def ssh_options_def by (intro footprint logs_only_mono [OF logs_ensure_config])

lemma logs_case_file [footprint]:
  "logs_only A m \<Longrightarrow> logs_only A n \<Longrightarrow> (\<And>s. logs_only A (f s)) \<Longrightarrow>
   logs_only A (case x of No_File \<Rightarrow> m | Unreadable \<Rightarrow> n | Text s \<Rightarrow> f s)"
  by (cases x) simp_all

lemma logs_case_json [footprint]:
  "logs_only A a \<Longrightarrow> (\<And>x. logs_only A (f x)) \<Longrightarrow> (\<And>x. logs_only A (g x)) \<Longrightarrow> (\<And>x. logs_only A (k x)) \<Longrightarrow>
   (\<And>x. logs_only A (p x)) \<Longrightarrow> (\<And>x. logs_only A (q x)) \<Longrightarrow>
   logs_only A (case v of JNull \<Rightarrow> a | JBool x \<Rightarrow> f x | JNum x \<Rightarrow> g x | JStr x \<Rightarrow> k x | JArr x \<Rightarrow> p x | JObj x \<Rightarrow> q x)"
  by (cases v) simp_all

lemma logs_await [footprint]: "logs_only A m \<Longrightarrow> logs_only A (await m)"
  unfolding await_def by (intro footprint)

lemma logs_agent_identities [footprint]:
  "(\<And>q. Called_Agent sock q \<in> A) \<Longrightarrow> logs_only A (ssh_agent_identities E sock)"
  unfolding ssh_agent_identities_def by (intro footprint)

lemma fed_uncaptured [simp]: "fed a (stdin_of uncaptured)"
  by (simp add: uncaptured_def)

lemmas ordinary_intros = ordinary_events ordinary_ssh fed_uncaptured

subsection \<open>libvirt\<close>

lemma logs_virsh_ordinary:
  assumes "ordinary A"
  shows "fed (virsh_argv args) (stdin_of ro) \<Longrightarrow> logs_only A (virsh E args ro)" "logs_only A (virsh_out E args)"
    "logs_only A (virsh_do E args)"
  by (intro footprint ordinary_intros assms; assumption?)+

lemma logs_raise_unless_undefined [footprint]: "ordinary A \<Longrightarrow> logs_only A (raise_unless_undefined E sub name c)"
  unfolding raise_unless_undefined_def domain_names_def by (intro footprint ordinary_intros)

lemma logs_domains_memory: "ordinary A \<Longrightarrow> logs_only A (domains_memory E names memory)"
proof (induction names arbitrary: memory)
  case (Cons name names)
  then show ?case
    by simp (intro footprint ordinary_intros Cons)
qed (simp add: logs_ret)

lemma logs_domain_roots: "ordinary A \<Longrightarrow> logs_only A (domain_roots E names)"
proof (induction names)
  case (Cons name names)
  then show ?case
    by simp (intro footprint ordinary_intros Cons)
qed (simp add: logs_ret)

lemma logs_libvirt_readings [footprint]:
  assumes "ordinary A"
  shows "logs_only A (domain_exists E b)" "logs_only A (require_domain E b)" "logs_only A (domain_state E b)"
    "logs_only A (libvirt_vm_status E b)" "logs_only A (parsed_domain E b)" "logs_only A (libvirt_ssh_port E b)"
    "logs_only A (libvirt_config_gaps E b)" "logs_only A (libvirt_host_gaps E)"
    "logs_only A (libvirt_verify_initrd_listener E b port)" "logs_only A (volume_names E)"
    "logs_only A (volume_exists E v)" "logs_only A (volume_sizes E b)" "logs_only A (active_domains_memory E)"
    "logs_only A (memory_fit_refusal E gib)" "logs_only A (yolobox_domains E)" "logs_only A (operator_key E)"
  unfolding domain_exists_def require_domain_def domain_state_def libvirt_vm_status_def parsed_domain_def
    libvirt_ssh_port_def libvirt_config_gaps_def libvirt_host_gaps_def libvirt_verify_initrd_listener_def
    volume_names_def volume_exists_def volume_sizes_def active_domains_memory_def memory_fit_refusal_def
    yolobox_domains_def operator_key_def domain_names_def active_domain_names_def Let_def
  by (intro footprint ordinary_intros logs_domains_memory logs_domain_roots assms)+

lemma logs_libvirt_sizes [footprint]:
  assumes "ordinary A"
  shows "logs_only A (libvirt_creation_refusal E b sz)" "logs_only A (libvirt_current_size E b)"
    "logs_only A (libvirt_resize_refusal E cur wanted)" "logs_only A (libvirt_resize E b gib n)"
    "logs_only A (libvirt_disk_image E b)" "logs_only A (libvirt_grow_disk E b c w)"
    "logs_only A (libvirt_show_status E b)" "logs_only A (libvirt_force_stop E b)" "logs_only A (undefine_domain E b)"
    "logs_only A (libvirt_running_keepalive_pid E b)"
  unfolding libvirt_creation_refusal_def disk_refusal_def libvirt_current_size_def libvirt_resize_refusal_def
    libvirt_resize_def libvirt_disk_image_def libvirt_grow_disk_def libvirt_show_status_def libvirt_force_stop_def
    undefine_domain_def libvirt_running_keepalive_pid_def Let_def
  by (intro footprint ordinary_intros assms)+

text \<open>The operations that take a lock of their own, and those that build and remove.\<close>

lemma logs_port_lock [footprint]:
  assumes "ordinary A"
    and "\<And>d. Took_Lock (path_join d PORT_LOCK_NAME) \<in> A \<and> Dropped_Lock (path_join d PORT_LOCK_NAME) \<in> A"
    and "logs_only A m"
  shows "logs_only A (port_lock E m)"
  unfolding port_lock_def Let_def using assms by (intro footprint ordinary_intros) simp_all

lemma logs_master_lock [footprint]:
  assumes "ordinary A"
    and "\<And>d. Took_Lock (path_join d MASTER_LOCK_NAME) \<in> A \<and> Dropped_Lock (path_join d MASTER_LOCK_NAME) \<in> A"
    and "logs_only A m"
  shows "logs_only A (master_lock E b m)"
  unfolding master_lock_def using assms by (intro footprint ordinary_intros) simp_all

definition own_locks :: "event set \<Rightarrow> bool" where
  "own_locks A \<longleftrightarrow>
     (\<forall>d. Took_Lock (path_join d PORT_LOCK_NAME) \<in> A \<and> Dropped_Lock (path_join d PORT_LOCK_NAME) \<in> A)
     \<and> (\<forall>d. Took_Lock (path_join d MASTER_LOCK_NAME) \<in> A \<and> Dropped_Lock (path_join d MASTER_LOCK_NAME) \<in> A)"

lemma own_locks_parts:
  assumes "own_locks A"
  shows "Took_Lock (path_join d PORT_LOCK_NAME) \<in> A \<and> Dropped_Lock (path_join d PORT_LOCK_NAME) \<in> A"
    and "Took_Lock (path_join d MASTER_LOCK_NAME) \<in> A \<and> Dropped_Lock (path_join d MASTER_LOCK_NAME) \<in> A"
  using assms unfolding own_locks_def by blast+

lemma own_locks_UNIV [simp]: "own_locks UNIV"
  by (simp add: own_locks_def)

lemma logs_first_free [footprint]: "(\<And>p. logs_only A (f p)) \<Longrightarrow> logs_only A (first_free ports taken f)"
  by (induction ports) (auto intro!: footprint)

lemma logs_libvirt_volumes [footprint]:
  assumes "ordinary A"
  shows "logs_only A (ensure_seed E)" "logs_only A (create_volume E v n fmt src)"
    "logs_only A (build_disk_volume E b gib)" "logs_only A (ensure_disk_volume E b gib)"
    "logs_only A (staged_files E d names)" "logs_only A (sync_cidata E b fs)" "logs_only A (write_ssh_config E b p)"
proof -
  show 1: "logs_only A (ensure_seed E)"
    unfolding ensure_seed_def download_seed_def fetch_seed_def unlink_if_there_def file_sha512_def Let_def
    by (intro footprint ordinary_intros assms)
  show 2: "logs_only A (create_volume E v n fmt src)" for v n fmt src
    unfolding create_volume_def upload_failed_def partial_volume_left_def Let_def
    by (intro footprint ordinary_intros assms)
  show 3: "logs_only A (build_disk_volume E b gib)"
    unfolding build_disk_volume_def stat_size_def by (intro footprint ordinary_intros assms 1 2)
  show "logs_only A (ensure_disk_volume E b gib)"
    unfolding ensure_disk_volume_def by (intro footprint ordinary_intros assms 3)
  show 4: "logs_only A (staged_files E d names)" for d names
    by (induction names) (auto intro!: footprint)
  show "logs_only A (sync_cidata E b fs)"
    unfolding sync_cidata_def rebuild_cidata_def rmtree_if_there_def unlink_if_there_def stat_size_def Let_def
    by (intro footprint ordinary_intros assms 2 4)
  show "logs_only A (write_ssh_config E b p)"
    unfolding write_ssh_config_def Let_def by (intro footprint ordinary_intros assms)
qed

lemma logs_libvirt_master [footprint]:
  assumes "ordinary A" and "own_locks A"
  shows "logs_only A (allocate_host_port E)" "logs_only A (ensure_master E b)" "logs_only A (close_master E b)"
    "logs_only A (libvirt_forward_port E b gp)" "logs_only A (libvirt_keepalive_pid E b)"
    "logs_only A (create_domain E b m c)" "logs_only A (prepare_domain E b sz)"
proof -
  note locks = own_locks_parts [OF assms(2)]
  show 1: "logs_only A (allocate_host_port E)"
    unfolding allocate_host_port_def lowest_free_port_def loopback_port_bound_def
    by (intro footprint ordinary_intros assms)
  show 2: "logs_only A (ensure_master E b)"
    unfolding ensure_master_def Let_def by (intro footprint ordinary_intros assms locks)
  show "logs_only A (close_master E b)"
    unfolding close_master_def by (intro footprint ordinary_intros assms locks)
  show "logs_only A (libvirt_forward_port E b gp)"
    unfolding libvirt_forward_port_def by (intro footprint ordinary_intros assms locks 1 2)
  show "logs_only A (libvirt_keepalive_pid E b)"
    unfolding libvirt_keepalive_pid_def by (intro footprint ordinary_intros assms 2)
  show 3: "logs_only A (create_domain E b m c)" for m c
    unfolding create_domain_def domain_xml_def Let_def by (intro footprint ordinary_intros assms locks 1)
  show "logs_only A (prepare_domain E b sz)"
    unfolding prepare_domain_def raise_gap_def by (intro footprint ordinary_intros assms 3)
qed

lemma logs_await_off: "ordinary A \<Longrightarrow> logs_only A (await_off E b printed ls st)"
proof (induction ls arbitrary: printed st)
  case Nil
  then show ?case
    unfolding await_off.simps [of _ _ _ "[]"] list.case require_stoppable_def event_stream_ended_def
    by (intro footprint ordinary_intros)
next
  case (Cons l ls)
  then show ?case
    unfolding await_off.simps [of _ _ _ "l # ls"] list.case require_stoppable_def event_stream_ended_def
    by (intro footprint ordinary_intros Cons)
qed

lemma logs_libvirt_stop [footprint]:
  assumes "ordinary A"
  shows "logs_only A (libvirt_stop E b)" "logs_only A (check_libvirt_host E)"
  unfolding libvirt_stop_def watch_it_stop_def shutdown_and_wait_def drop_watcher_def require_stoppable_def
  by (intro footprint ordinary_intros logs_await_off assms)+

lemma logs_libvirt_removals [footprint]: "ordinary A \<Longrightarrow> logs_only A (libvirt_removals E b)"
  unfolding libvirt_removals_def domain_removals_def by (intro footprint ordinary_intros)

lemma logs_libvirt_removal_steps:
  assumes "ordinary A" and "own_locks A" and "libvirt_removals E b h = (Inr rs, t)" and "x \<in> set rs"
  shows "logs_only A (step_do x)"
proof -
  let ?vols = "\<lambda>volumes. map (\<lambda>v. virsh_removal E (''delete volume'', [v]) [''vol-delete'', ''--pool'', LIBVIRT_POOL, v])
    (filter (\<lambda>v. v \<in> set volumes) [disk_volume b, cidata_volume b])"
  from assms(3) obtain alive u ds v volumes w there where
    d: "domain_removals E b u = (Inr ds, v)"
    and "rs = (if alive then [\<lparr>step_name = (''close the operator's ssh master'', []), step_do = close_master E b\<rparr>] else [])
      @ ds @ ?vols volumes @ (if there then [tree_removal E (instance_dir E b)] else [])"
    unfolding libvirt_removals_def
    by (elim bnd_InrE) (simp only: ret_def prod.inject sum.inject, blast)
  with assms(4) consider "step_do x = close_master E b" | "x \<in> set ds"
    | v where "step_do x = virsh_do E [''vol-delete'', ''--pool'', LIBVIRT_POOL, v]" | p where "step_do x = delete_tree E p"
    by (auto simp: virsh_removal_def tree_removal_def split: if_splits)
  then show ?thesis
  proof cases
    case 2
    with d have "step_do x = libvirt_force_stop E b \<or> step_do x = undefine_domain E b"
      by (auto simp: domain_removals_def ret_def elim!: bnd_InrE split: if_splits)
    then show ?thesis using assms(1) by (auto simp: footprint)
  qed (simp_all add: footprint ordinary_events assms(1,2) logs_virsh_ordinary)
qed

subsection \<open>lima\<close>

lemma logs_lima_readings [footprint]:
  assumes "ordinary A"
  shows "logs_only A (lima_instance_exists E b)" "logs_only A (lima_instance_info E b)"
    "logs_only A (lima_vm_status E b)" "logs_only A (lima_ssh_port E b)" "logs_only A (lima_keepalive_pid E b)"
    "logs_only A (lima_verify_initrd_listener b p)" "logs_only A (lima_forward_port p)"
    "logs_only A (lima_creation_refusal E b sz)" "logs_only A (lima_current_size E b)" "logs_only A (lima_resize E b g c)"
    "logs_only A (lima_config_notes E b)" "logs_only A (lima_config_gaps E b)" "logs_only A (lima_show_status E b)"
    "logs_only A (lima_disk_image E b)" "logs_only A (lima_grow_disk E b c w)" "logs_only A (lima_removals E b)"
    "logs_only A (lima_stop E b)" "logs_only A (lima_force_stop E b)" "logs_only A (delete_instance E b)"
  unfolding lima_instance_exists_def lima_instance_info_def lima_vm_status_def lima_ssh_port_def
    lima_keepalive_pid_def lima_verify_initrd_listener_def lima_forward_port_def refuse_mirrored_ssh_port_def
    lima_creation_refusal_def lima_current_size_def lima_resize_def lima_config_notes_def lima_config_gaps_def
    lima_show_status_def lima_disk_image_def du_kib_def lima_grow_disk_def lima_removals_def lima_stop_def
    lima_force_stop_def limactl_stop_def delete_instance_def Let_def
  by (intro footprint ordinary_intros assms)+

lemma logs_lima_removal_steps:
  assumes "ordinary A" and "lima_removals E b h = (Inr rs, t)" and "x \<in> set rs"
  shows "logs_only A (step_do x)"
proof -
  from assms(2,3) have "step_do x = delete_instance E b"
    by (auto simp: lima_removals_def ret_def elim!: bnd_InrE split: if_splits)
  then show ?thesis using assms(1) by (simp add: footprint)
qed

end
