(* ===== verification/Yo_Hosts.thy ===== *)
theory Yo_Hosts
  imports Yo_Footprints Yo_Vm
begin

text \<open>
  The contract between the commands and a host driver. The locale \<open>host_driver\<close> states what the
  commands rely on: no operation of the driver but the start sends an input to a process or
  touches the unlock lock of the box, and a start does so as an unlock does. The lemmas proved
  from it hold for every such driver; the two interpretations give them for libvirt and lima.
\<close>

subsection \<open>Histories in which the passphrase never left its lock\<close>

text \<open>
  \<open>passphrase_sealed E b h\<close>: every process that got an input in \<open>h\<close> was started while this yo held
  the unlock lock of the box, and it does not hold it at the end.
\<close>

definition passphrase_sealed :: "env \<Rightarrow> box \<Rightarrow> history \<Rightarrow> bool" where
  "passphrase_sealed E b h \<longleftrightarrow> sends_locked (unlock_lock_path E b) h \<and> \<not> holds (unlock_lock_path E b) h"

text \<open>What may happen without the lock, and what may happen under it.\<close>

definition polite_events :: "env \<Rightarrow> box \<Rightarrow> event set" where
  "polite_events E b =
     {e. \<not> is_send e \<and> e \<noteq> Took_Lock (unlock_lock_path E b) \<and> e \<noteq> Dropped_Lock (unlock_lock_path E b)}"

definition locked_events :: "env \<Rightarrow> box \<Rightarrow> event set" where
  "locked_events E b = {e. e \<noteq> Took_Lock (unlock_lock_path E b) \<and> e \<noteq> Dropped_Lock (unlock_lock_path E b)}"

lemma ordinary_polite [simp]: "ordinary (polite_events E b)"
  by (simp add: ordinary_def polite_events_def is_send_def)

lemma polite_locked: "polite_events E b \<subseteq> locked_events E b"
  by (auto simp: polite_events_def locked_events_def)

lemma quiet_polite: "quiet_events \<subseteq> polite_events E b"
  by (auto simp: quiet_events_def polite_events_def)

lemma path_join_end: "\<exists>p. path_join a (x @ s) = p @ s"
proof (cases "startswith (x @ s) ''/''")
  case True
  then show ?thesis by (auto simp: path_join_def)
next
  case False
  then show ?thesis by (auto simp: path_join_def intro: exI [of _ "a @ x"] exI [of _ "a @ ''/'' @ x"])
qed

lemma last_differs: "last s \<noteq> last t \<Longrightarrow> s \<noteq> [] \<Longrightarrow> t \<noteq> [] \<Longrightarrow> p @ s \<noteq> q @ t"
  by (metis last_appendR)

lemma other_lock:
  assumes "s = x @ [c, CHR ''.'', CHR ''l'', CHR ''o'', CHR ''c'', CHR ''k'']" and "c \<noteq> CHR ''k''"
  shows "path_join d s \<noteq> unlock_lock_path E b"
proof -
  obtain p where "unlock_lock_path E b = p @ ''k.lock''"
    using path_join_end [of "state_dir E" "box_name b @ ''.unloc''" "''k.lock''"] by (auto simp: unlock_lock_path_def)
  moreover obtain q where "path_join d s = q @ (c # ''.lock'')"
    using path_join_end [of d x "c # ''.lock''"] assms(1) by auto
  moreover have "q @ (c # ''.lock'') \<noteq> p @ ''k.lock''"
  proof
    assume "q @ (c # ''.lock'') = p @ ''k.lock''"
    then have "(q @ [c]) @ ''.lock'' = (p @ ''k'') @ ''.lock''" by simp
    then have "q @ [c] = p @ ''k''" by (simp only: append_same_eq)
    with assms(2) show False by simp
  qed
  ultimately show ?thesis by simp
qed

lemma own_locks_polite [simp]: "own_locks (polite_events E b)"
proof -
  have "path_join d PORT_LOCK_NAME \<noteq> unlock_lock_path E b" "path_join d MASTER_LOCK_NAME \<noteq> unlock_lock_path E b" for d
    by (rule other_lock [of _ "''.por''" "CHR ''t''"] other_lock [of _ "''maste''" "CHR ''r''"];
        simp add: PORT_LOCK_NAME_def MASTER_LOCK_NAME_def)+
  then show ?thesis by (simp add: own_locks_def polite_events_def is_send_def)
qed

lemma foldl_locked: "set es \<subseteq> locked_events E b \<Longrightarrow> foldl (lock_step (unlock_lock_path E b)) x es = x"
  by (induction es arbitrary: x) (auto simp: lock_step_def locked_events_def split: event.splits)

lemma polite_keeps:
  assumes "logs_only (polite_events E b) m"
  shows "keeps (passphrase_sealed E b) m"
proof (rule keepsI)
  fix h r t
  assume I: "passphrase_sealed E b h" and "m h = (r, t)"
  with assms obtain es where es: "t = h @ es" "set es \<subseteq> polite_events E b" by (blast elim: logs_onlyE)
  then have "\<forall>k < length es. \<not> is_send (es ! k)" using nth_mem by (fastforce simp: polite_events_def)
  with es I foldl_locked [of es E b] polite_locked [of E b] show "passphrase_sealed E b t"
    by (simp add: passphrase_sealed_def sends_locked_append holds_append)
qed

text \<open>A region under the lock, taken at once or not at all.\<close>

lemma locked_region:
  assumes "set es \<subseteq> locked_events E b" and "passphrase_sealed E b h"
  shows "passphrase_sealed E b (h @ [Made_Dir (state_dir E), Took_Lock (unlock_lock_path E b)] @ es
    @ [Dropped_Lock (unlock_lock_path E b)])"
proof -
  let ?l = "unlock_lock_path E b"
  let ?h = "h @ [Made_Dir (state_dir E), Took_Lock ?l]"
  have head: "sends_locked ?l ?h" "holds ?l ?h"
    using assms(2)
    by (auto simp: passphrase_sealed_def sends_locked_append holds_append lock_step_def is_send_def less_Suc_eq nth_Cons')
  have held: "holds ?l (?h @ take k es)" for k
    using head(2) foldl_locked [of "take k es" E b] assms(1) set_take_subset [of k es]
    unfolding holds_append [of _ _ "take k es"] by blast
  then have "sends_locked ?l (?h @ (es @ [Dropped_Lock ?l]))"
    using head(1) unfolding sends_locked_append [of _ ?h]
    by (auto simp: nth_append is_send_def less_Suc_eq)
  moreover have "\<not> holds ?l ((?h @ es) @ [Dropped_Lock ?l])"
    unfolding holds_append [of _ _ "[Dropped_Lock ?l]"] by (simp add: lock_step_def)
  ultimately show ?thesis by (simp add: passphrase_sealed_def)
qed

lemma try_lock_keeps:
  assumes "logs_only (polite_events E b) m"
  shows "keeps (passphrase_sealed E b) (unlock_lock E b False m)"
proof (rule keepsI)
  fix h r t
  let ?w = "h @ [Made_Dir (state_dir E), Took_Lock (unlock_lock_path E b)]"
  assume I: "passphrase_sealed E b h" and run: "unlock_lock E b False m h = (r, t)"
  show "passphrase_sealed E b t"
  proof (cases "lock_busy E (h @ [Made_Dir (state_dir E)]) (unlock_lock_path E b)")
    case True
    have "logs_only (polite_events E b) (private_dir (state_dir E))" by (simp add: footprint ordinary_events)
    from keepsD [OF polite_keeps [OF this] I] True run show ?thesis
      by (simp add: unlock_lock_cases private_dir_def emit_def modifies_def)
  next
    case False
    obtain q u where q: "m ?w = (q, u)" by fastforce
    with assms obtain es where "u = ?w @ es" "set es \<subseteq> polite_events E b" by (rule logs_onlyE)
    with q False run locked_region [OF _ I, of es] polite_locked [of E b] show ?thesis
      by (auto simp: unlock_lock_cases)
  qed
qed

subsection \<open>The services of a box that is up\<close>

definition broker_lock :: "env \<Rightarrow> event set \<Rightarrow> bool" where
  "broker_lock E A \<longleftrightarrow> Took_Lock (path_join (state_dir E) YO_BROKER_LOCK_NAME) \<in> A
     \<and> Dropped_Lock (path_join (state_dir E) YO_BROKER_LOCK_NAME) \<in> A"

lemma broker_lock_polite [simp]: "broker_lock E (polite_events E' b)"
  using other_lock [of YO_BROKER_LOCK_NAME "''aws-broker.y''" "CHR ''o''" "state_dir E" E' b]
  by (simp add: broker_lock_def polite_events_def is_send_def YO_BROKER_LOCK_NAME_def)

lemma logs_broker [footprint]:
  assumes "ordinary A" and "broker_lock E A"
  shows "logs_only A (disable_aws_broker E b)" "logs_only A (host_state_lock E YO_BROKER_LOCK_NAME True (keep_broker E pid names))"
proof -
  have locks: "Took_Lock (path_join (state_dir E) YO_BROKER_LOCK_NAME) \<in> A"
    "Dropped_Lock (path_join (state_dir E) YO_BROKER_LOCK_NAME) \<in> A"
    using assms(2) by (simp_all add: broker_lock_def)
  have kill: "logs_only A (kill_broker_in E health)" for health
    unfolding kill_broker_in_def kill_stale_broker_def wait_for_pid_exit_def pid_exits_within_def kill_event_def
    by (auto intro!: footprint ordinary_events assms(1) split: option.split kill_answer.split watch_answer.split)
  have start: "logs_only A (start_aws_broker E pid names)"
    unfolding start_aws_broker_def Let_def
    by (auto intro!: footprint ordinary_events assms(1) split: option.split prod.split handshake_verdict.split)
  show "logs_only A (disable_aws_broker E b)"
    unfolding disable_aws_broker_def host_state_lock_def
    by (intro footprint ordinary_events ordinary_ssh kill assms(1) locks)
  show "logs_only A (host_state_lock E YO_BROKER_LOCK_NAME True (keep_broker E pid names))"
    unfolding host_state_lock_def keep_broker_def
    by (intro footprint ordinary_events kill start assms(1) locks)
qed

lemma logs_forwards [footprint]:
  assumes "ordinary A"
  shows "logs_only A (ensure_forwards E D b on)" "logs_only A (ensure_agent_ssh_config E b)"
    "logs_only A (ensure_guest_known_hosts E b)"
proof -
  have heal: "logs_only A (heal_forward_collecting_errors E b fwd errors)" for fwd errors
    unfolding heal_forward_collecting_errors_def heal_reverse_forward_def forward_is_up_def forward_control_cmd_def Let_def
    by (intro footprint ordinary_ssh ordinary_events assms)
  show "logs_only A (ensure_forwards E D b on)"
    unfolding ensure_forwards_def by (intro footprint ordinary_events heal assms)
  show "logs_only A (ensure_agent_ssh_config E b)"
    by (rule logs_only_mono [OF logs_ensure_config ordinary_ssh [OF assms]])
  show "logs_only A (ensure_guest_known_hosts E b)"
    unfolding ensure_guest_known_hosts_def Let_def by (intro footprint ordinary_events ordinary_ssh assms)
qed

lemma logs_profile_sections: "ordinary A \<Longrightarrow> logs_only A (profile_sections ss defined_by)"
  by (induction ss defined_by rule: profile_sections.induct)
     (auto intro!: footprint ordinary_events split: option.split)

lemma logs_sso_profiles: "ordinary A \<Longrightarrow> logs_only A (sso_profiles ps)"
  by (induction ps rule: sso_profiles.induct) (auto intro!: footprint ordinary_events simp: Let_def)

lemma logs_aws_allowlist [footprint]:
  assumes "ordinary A"
  shows "logs_only A (aws_allowlist E)"
proof -
  have sections: "logs_only A (bnd (profile_sections ss []) (\<lambda>defined_by. sso_profiles defined_by))" for ss
    by (rule logs_bnd [OF logs_profile_sections [OF assms] logs_sso_profiles [OF assms]])
  have "logs_only A (case ini of No_Ini \<Rightarrow> ret [] | Ini_Failure reason \<Rightarrow> raise (YoError ''cannot read or parse'' [path, reason])
    | Sections ss \<Rightarrow> bnd (profile_sections ss []) (\<lambda>defined_by. sso_profiles defined_by))" for ini path
    by (cases ini) (simp_all only: ini_answer.case sections logs_ret logs_raise)
  then show ?thesis unfolding aws_allowlist_def Let_def by (rule logs_bnd [OF logs_reads])
qed

lemma logs_vm_services [footprint]:
  assumes "ordinary A" and "broker_lock E A" and "logs_only A (keepalive_pid D)"
  shows "logs_only A (vm_services E D b)"
proof -
  have "logs_only A (ensure_aws_broker E D b)"
    unfolding ensure_aws_broker_def push_aws_guest_files_def
    by (intro footprint ordinary_events ordinary_ssh assms)
  then show ?thesis
    unfolding vm_services_def broker_outcome_of_def Let_def
    by (intro footprint ordinary_events ordinary_ssh assms)
qed

subsection \<open>The disk of the guest, and its rebuild\<close>

lemma logs_rebuild_hint_for [footprint]:
  assumes "ordinary A"
  shows "logs_only A (rebuild_hint E b)"
proof -
  have "logs_only A (rebuild_hint_for E b kept)" for kept
    unfolding rebuild_hint_for_def
    by (auto intro!: footprint ordinary_events assms split: sum.split option.split)
  then show ?thesis
    unfolding rebuild_hint_def by (auto intro!: footprint ordinary_events assms split: sum.split option.split)
qed

lemma logs_guest_disk [footprint]:
  assumes "ordinary A"
  shows "logs_only A (root_has_room_to_grow E b gib)" "logs_only A (require_growable_guest E b)"
    "logs_only A (root_usage_before_grow E b)" "logs_only A (grow_mapping_and_filesystem E b p gib before f)"
    "logs_only A (finish_previous_grow E b gib p)" "logs_only A (disk_ready E b)" "logs_only A (booted_generations E b)"
proof -
  have sizes: "logs_only A (guest_device_bytes E b d)" "logs_only A (guest_filesystem_bytes E b d)"
    "logs_only A (luks_device_fstype E b)" "logs_only A (vda2_size_for_report E b)" for d
    unfolding guest_device_bytes_def guest_filesystem_bytes_def luks_device_fstype_def vda2_size_for_report_def Let_def
    by (intro footprint ordinary_ssh assms)+
  have grown: "logs_only A (require_partition_grown E b gib)" for gib
    unfolding require_partition_grown_def by (intro footprint sizes)
  show "logs_only A (root_has_room_to_grow E b gib)"
    unfolding root_has_room_to_grow_def Let_def by (intro footprint sizes grown)
  show growable: "logs_only A (require_growable_guest E b)"
    unfolding require_growable_guest_def Let_def by (intro footprint ordinary_ssh sizes assms)
  show before: "logs_only A (root_usage_before_grow E b)"
    unfolding root_usage_before_grow_def by (intro footprint ordinary_ssh assms)
  show grow: "logs_only A (grow_mapping_and_filesystem E b p gib before f)" for p gib before f
    unfolding grow_mapping_and_filesystem_def Let_def
    by (intro footprint ordinary_ssh ordinary_events sizes grown assms)
  show "logs_only A (finish_previous_grow E b gib p)"
    unfolding finish_previous_grow_def by (intro footprint growable before grow)
  show "logs_only A (disk_ready E b)"
    unfolding disk_ready_def Let_def by (intro footprint ordinary_ssh ordinary_events sizes assms)
  show "logs_only A (booted_generations E b)"
    unfolding booted_generations_def guest_generations_def report_abort_def Let_def
    by (intro footprint ordinary_ssh ordinary_events assms)
qed

subsection \<open>The commands, over any host driver\<close>

text \<open>What the unlock and the waits need: readings that stay quiet.\<close>

locale quiet_host =
  fixes D :: driver and E :: env and b :: box
  assumes quiet: "quiet_driver D"
begin

lemma polite_readings:
  "logs_only (polite_events E b) (ssh_port D)" "logs_only (polite_events E b) (vm_status D)"
  "logs_only (polite_events E b) (boot_stage E D b)" "logs_only (polite_events E b) (initrd_state E D b)"
  "logs_only (polite_events E b) (initrd_root_ssh_command E D b r)"
  "logs_only (polite_events E b) (probe_sshd E D b u)"
  using quiet quiet_probes [OF quiet, THEN logs_only_mono, OF quiet_polite]
  by (auto simp: quiet_driver_def intro: logs_only_mono [OF _ quiet_polite])

lemma sealed_unlock: "keeps (passphrase_sealed E b) (unlock_disk n E D b p starter)"
proof -
  have "logs_only quiet_events (warn w a)" for w a by (intro footprint) simp
  then show ?thesis
    unfolding unlock_disk_def passphrase_sealed_def [abs_def]
    by (intro keeps_bnd quiet_keeps keeps_unlock_loop quiet)
qed

lemma polite_wait: "logs_only (polite_events E b) (wait_for_operator n E D b)"
proof -
  have turn: "logs_only (polite_events E b) (operator_turn E D b dl)" for dl
    unfolding operator_turn_def Let_def by (intro footprint ordinary_events polite_readings) simp_all
  have "logs_only (polite_events E b) (operator_loop n E D b dl)" for n dl
    by (induction n) (auto intro!: footprint turn)
  then show ?thesis unfolding wait_for_operator_def by (intro footprint)
qed

lemma sealed_await: "keeps (passphrase_sealed E b) m \<Longrightarrow> keeps (passphrase_sealed E b) (await m)"
  unfolding await_def by (intro hoare_rules)

end

text \<open>The whole contract.\<close>

locale host_driver = quiet_host +
  assumes polite_config: "logs_only (polite_events E b) (config_gaps D)"
      "\<And>gaps. logs_only (polite_events E b) (config_gap_message D gaps)"
    and polite_login: "logs_only (polite_events E b) (require_login_key D)"
    and polite_creation: "\<And>sz. logs_only (polite_events E b) (creation_refusal D sz)"
    and polite_size: "logs_only (polite_events E b) (current_size D)"
      "\<And>cur wanted. logs_only (polite_events E b) (resize_refusal D cur wanted)"
      "\<And>gib n. logs_only (polite_events E b) (resize D gib n)"
      "\<And>cur wanted. logs_only (polite_events E b) (grow_disk D cur wanted)"
    and polite_keepalive: "logs_only (polite_events E b) (keepalive_pid D)"
    and polite_stop: "logs_only (polite_events E b) (stop D)" "logs_only (polite_events E b) (force_stop D)"
    and polite_removals: "logs_only (polite_events E b) (removals D)"
      "\<And>h rs t x. removals D h = (Inr rs, t) \<Longrightarrow> x \<in> set rs \<Longrightarrow> logs_only (polite_events E b) (step_do x)"
    and sealed_start: "\<And>p sz. keeps (passphrase_sealed E b) (start D p sz)"
    and fatal_are_gaps: "\<And>gaps. set (fatal_gaps D gaps) \<subseteq> set gaps"
begin

lemma polite_passphrase: "logs_only (polite_events E b) (passphrase_or E D b p)"
proof -
  have "agent_events D \<subseteq> polite_events E b" by (auto simp: agent_events_def ordinary_events)
  then show ?thesis unfolding passphrase_or_def by (intro footprint)
qed

lemmas polite = polite_config polite_login polite_creation polite_size polite_keepalive polite_stop
  polite_removals(1) polite_readings polite_passphrase polite_wait

lemmas sealed = polite [THEN polite_keeps] sealed_unlock [THEN sealed_await]
  polite_wait [THEN logs_await, THEN polite_keeps] sealed_start

lemma sealed_say: "keeps (passphrase_sealed E b) (say w a)" "keeps (passphrase_sealed E b) (warn w a)"
  by (intro polite_keeps footprint ordinary_events ordinary_polite)+

lemma sealed_plan: "keeps (passphrase_sealed E b) (up_plan E D b status sz)"
proof -
  have "logs_only (polite_events E b) (plan_resize D b s sz)" for s
    unfolding plan_resize_def Let_def by (intro footprint polite)
  then show ?thesis
    unfolding up_plan_def by (intro polite_keeps footprint polite)
qed

lemma sealed_vm_up: "keeps (passphrase_sealed E b) (vm_up n E D b run_services p sz)"
proof -
  have off: "keeps (passphrase_sealed E b) (up_from_off E D b status p sz' r)" for status sz' r
    unfolding up_from_off_def by (intro hoare_rules sealed)
  have message: "logs_only (polite_events E b) (unknown_stage_message D b login rerun)" for login rerun
    unfolding unknown_stage_message_def by (intro footprint polite)
  have running: "keeps (passphrase_sealed E b) (up_running n E D b p)"
    unfolding up_running_def by (intro hoare_rules sealed message [THEN polite_keeps])
  have services: "logs_only (polite_events E b) (vm_services E D b)"
    by (intro footprint polite ordinary_polite broker_lock_polite)
  have config: "logs_only (polite_events E b) (ensure_agent_ssh_config E b)"
    "logs_only (polite_events E b) (ensure_guest_known_hosts E b)"
    by (intro footprint ordinary_polite)+
  show ?thesis
    unfolding vm_up_def
    by (intro hoare_rules sealed sealed_say sealed_plan off running services [THEN polite_keeps] config [THEN polite_keeps])
qed

lemma sealed_grow_running: "keeps (passphrase_sealed E b) (grow_running_disk n E D b c w p)"
  unfolding grow_running_disk_def
  by (intro hoare_rules sealed sealed_vm_up logs_guest_disk [THEN polite_keeps] ordinary_polite)

lemma sealed_grow_to_asked: "keeps (passphrase_sealed E b) (grow_to_asked_disk n E D b w p)"
  unfolding grow_to_asked_disk_def Let_def
  by (intro hoare_rules sealed sealed_grow_running logs_guest_disk [THEN polite_keeps] ordinary_polite)

lemma sealed_up: "keeps (passphrase_sealed E b) (cmd_up n E D b sz)"
  unfolding cmd_up_def by (intro hoare_rules sealed_vm_up sealed_grow_to_asked)

lemma sealed_disk_grow: "keeps (passphrase_sealed E b) (cmd_disk_grow n E D b w)"
proof -
  have "keeps (passphrase_sealed E b) (luks_passphrase E D b)"
    using polite_passphrase [THEN polite_keeps, of None] by (simp add: passphrase_or_def)
  then show ?thesis
    unfolding cmd_disk_grow_def Let_def
    by (intro hoare_rules sealed sealed_say sealed_vm_up sealed_grow_running logs_guest_disk [THEN polite_keeps] ordinary_polite)
qed

lemma polite_down_parts:
  "logs_only (polite_events E b) (down_in_initrd E D b)" "logs_only (polite_events E b) (login_problem D)"
  "logs_only (polite_events E b) (unknown_stage_message D b m r)"
proof -
  have "logs_only (polite_events E b) (initrd_down_refusal E D b reading)" for reading
    unfolding initrd_down_refusal_def Let_def
    by (rule logs_bnd) (auto split: initrd_state.split intro!: footprint polite)
  then show "logs_only (polite_events E b) (down_in_initrd E D b)"
    unfolding down_in_initrd_def by (intro footprint polite ordinary_events ordinary_polite)
  show "logs_only (polite_events E b) (login_problem D)" "logs_only (polite_events E b) (unknown_stage_message D b m r)"
    unfolding login_problem_def unknown_stage_message_def by (intro footprint polite)+
qed

lemma sealed_down: "keeps (passphrase_sealed E b) (cmd_down E D b)"
  unfolding cmd_down_def except_busy_def
  by (intro hoare_rules sealed polite_down_parts(2,3) [THEN polite_keeps] try_lock_keeps polite_down_parts(1))

lemma sealed_destroy: "keeps (passphrase_sealed E b) (cmd_destroy E D b True)"
  unfolding cmd_destroy_def except_busy_def if_True
  by (intro hoare_rules try_lock_keeps logs_destroy_body [OF ordinary_polite polite_removals])

lemma sealed_bootstrap: "keeps (passphrase_sealed E b) (cmd_bootstrap realpath dir_of n E D b version sz)"
proof -
  let ?A = "polite_events E b"
  have rev: "logs_only ?A (locked_rev E b ref)" for ref
    unfolding locked_rev_def by (auto intro!: footprint ordinary_ssh ordinary_polite split: option.split json.split)
  have build: "logs_only ?A (build_generation E b ref)" for ref
    unfolding build_generation_def report_ok_def Let_def
    by (intro footprint rev ordinary_ssh ordinary_events ordinary_polite)
  have remember: "logs_only ?A (remember_flake_ref E b version ref)" for ref
    unfolding remember_flake_ref_def by (intro footprint ordinary_events ordinary_polite)
  have ok: "logs_only ?A (report_ok m)" "logs_only ?A (report_abort m ms)" for m ms
    unfolding report_ok_def report_abort_def by (intro footprint ordinary_events ordinary_polite)+
  have stop: "logs_only ?A (stop_for_reboot D b)"
    unfolding stop_for_reboot_def by (intro footprint polite ok)
  have reboot: "keeps (passphrase_sealed E b) (reboot_into n E D b p)" for p
    unfolding reboot_into_def
    by (intro hoare_rules sealed sealed_vm_up stop [THEN polite_keeps] ok [THEN polite_keeps]
        logs_guest_disk [THEN polite_keeps] ordinary_polite)
  have incl: "logs_only ?A (ensure_ssh_config_include realpath dir_of E b r)" for r
    unfolding ensure_ssh_config_include_def ssh_config_reaches_box_def add_ssh_config_include_def Let_def
    by (intro footprint ordinary_events ordinary_polite)
  have herdr: "logs_only ?A (ensure_herdr_machine E b i)" for i
    unfolding ensure_herdr_machine_def herdr_binary_def listed_herdr_machine_id_def
    by (intro footprint ordinary_events ordinary_polite)
  have services: "logs_only ?A (vm_services E D b)"
    by (intro footprint polite ordinary_polite broker_lock_polite)
  have hosts: "logs_only ?A (ensure_guest_known_hosts E b)"
    by (intro footprint ordinary_polite)
  show ?thesis
    unfolding cmd_bootstrap_def
    by (intro hoare_rules sealed_vm_up sealed_grow_to_asked reboot build [THEN polite_keeps] remember [THEN polite_keeps]
        ok [THEN polite_keeps] logs_guest_disk [THEN polite_keeps] ordinary_polite incl [THEN polite_keeps]
        herdr [THEN polite_keeps] services [THEN polite_keeps] hosts [THEN polite_keeps])
qed

lemma destroy_locked:
  assumes "cmd_destroy E D b True h = (r, t)"
  shows "if lock_busy E (h @ [Made_Dir (state_dir E)]) (unlock_lock_path E b)
    then t = h @ [Made_Dir (state_dir E)]
    else \<exists>es. t = h @ [Made_Dir (state_dir E), Took_Lock (unlock_lock_path E b)] @ es @ [Dropped_Lock (unlock_lock_path E b)]"
proof -
  have "logs_only UNIV (removals D)"
    by (rule logs_only_mono [OF polite_removals(1) subset_UNIV])
  moreover have "logs_only UNIV (step_do x)" if "removals D h = (Inr rs, t)" "x \<in> set rs" for h rs t x
    by (rule logs_only_mono [OF polite_removals(2) [OF that] subset_UNIV])
  ultimately have "logs_only UNIV (destroy_body E D b True)"
    by (rule logs_destroy_body [OF ordinary_UNIV])
  from cmd_destroy_run [OF this assms] show ?thesis by (simp split: if_splits)
qed

end

subsection \<open>The two hosts\<close>

lemma quiet_libvirt: "quiet_driver (libvirt_base E b)" "quiet_driver (libvirt_driver n E b)"
  by (simp_all add: quiet_driver_def libvirt_driver_def libvirt_base_def footprint)

lemma quiet_lima: "quiet_driver (lima_base E b)" "quiet_driver (lima_driver n E b)"
  by (simp_all add: quiet_driver_def lima_driver_def lima_base_def footprint)

interpretation libvirt_waits: quiet_host "libvirt_base E b" E b for E b
  by unfold_locales (rule quiet_libvirt)

interpretation lima_waits: quiet_host "lima_base E b" E b for E b
  by unfold_locales (rule quiet_lima)

lemma sealed_libvirt_start: "keeps (passphrase_sealed E b) (libvirt_start n E (libvirt_base E b) b p sz)"
proof -
  have prepare: "logs_only (polite_events E b) (prepare_domain E b sz)" by (intro footprint ordinary_polite own_locks_polite)
  have virsh: "logs_only (polite_events E b) (virsh_do E args)" for args
    by (intro logs_virsh_ordinary ordinary_polite)
  show ?thesis
    unfolding libvirt_start_def
    by (intro hoare_rules prepare [THEN polite_keeps] virsh [THEN polite_keeps]
        libvirt_waits.sealed_unlock [THEN libvirt_waits.sealed_await]
        libvirt_waits.polite_wait [THEN logs_await, THEN polite_keeps])
qed

lemma sealed_lima_start: "keeps (passphrase_sealed E b) (lima_start n E (lima_base E b) b p sz)"
proof -
  have leaves: "logs_only (polite_events E b) (lima_instance_exists E b)" "logs_only (polite_events E b) (spawn E argv)"
    "logs_only (polite_events E b) (lima_stop E b)" "logs_only (polite_events E b) (warn w a)"
    "logs_only (polite_events E b) (emit (Did c a))" "logs_only (polite_events E b) (wait_for E argv)" for argv w a c
    unfolding wait_for_def by (intro footprint ordinary_events ordinary_polite)+
  have beside: "keeps (passphrase_sealed E b) (unlock_beside n E (lima_base E b) b p argv)" for argv
    unfolding unlock_beside_def
    by (intro hoare_rules leaves [THEN polite_keeps] lima_waits.sealed_unlock [THEN lima_waits.sealed_await])
  have "keeps (passphrase_sealed E b) (start_beside n E (lima_base E b) b p argv)" for argv
    unfolding start_beside_def
    by (intro hoare_rules beside leaves [THEN polite_keeps] lima_waits.polite_wait [THEN logs_await, THEN polite_keeps])
  then show ?thesis
    unfolding lima_start_def Let_def by (intro hoare_rules leaves [THEN polite_keeps])
qed

interpretation libvirt: host_driver "libvirt_driver n E b" E b for n E b
proof unfold_locales
  show "quiet_driver (libvirt_driver n E b)" by (rule quiet_libvirt)
  show "keeps (passphrase_sealed E b) (start (libvirt_driver n E b) p sz)" for p sz
    by (simp add: libvirt_driver_def sealed_libvirt_start)
  show "logs_only (polite_events E b) (step_do x)" if "removals (libvirt_driver n E b) h = (Inr rs, t)" "x \<in> set rs" for h rs t x
    using logs_libvirt_removal_steps [OF ordinary_polite own_locks_polite] that
    by (simp add: libvirt_driver_def libvirt_base_def)
qed (simp_all add: libvirt_driver_def libvirt_base_def libvirt_config_gap_message_def footprint ordinary_polite own_locks_polite)

interpretation lima: host_driver "lima_driver n E b" E b for n E b
proof unfold_locales
  show "quiet_driver (lima_driver n E b)" by (rule quiet_lima)
  show "keeps (passphrase_sealed E b) (start (lima_driver n E b) p sz)" for p sz
    by (simp add: lima_driver_def sealed_lima_start)
  show "logs_only (polite_events E b) (step_do x)" if "removals (lima_driver n E b) h = (Inr rs, t)" "x \<in> set rs" for h rs t x
    using logs_lima_removal_steps [OF ordinary_polite] that by (simp add: lima_driver_def lima_base_def)
  show "logs_only (polite_events E b) (config_gap_message (lima_driver n E b) gaps)" for gaps
  proof -
    have ls: "logs_only (polite_events E b) (gap_lines E b r gs)" for r gs
      by (induction gs arbitrary: r)
         (auto intro!: footprint simp: destroy_then_bootstrap_command_def Let_def split: option.split)
    show ?thesis
      by (simp add: lima_driver_def lima_base_def lima_config_gap_message_def Let_def footprint ls)
  qed
qed (auto simp: lima_driver_def lima_base_def lima_fatal_gaps_def footprint ordinary_polite)

subsection \<open>Properties\<close>

text \<open>
  On a Linux host and on a Mac, no command of yo lets the disk passphrase out except under the
  unlock lock of the box: \<open>yo up\<close>, \<open>down\<close>, \<open>destroy\<close>, \<open>disk-grow\<close> and \<open>bootstrap\<close>, with
  everything they run on the host and in the guest, start no process with an input unless this
  yo holds that lock, and leave it free at their end.
\<close>

lemma commands_seal_the_passphrase:
  "(let D = libvirt_driver n E b in
      keeps (passphrase_sealed E b) (cmd_up n E D b sz) \<and> keeps (passphrase_sealed E b) (cmd_down E D b)
      \<and> keeps (passphrase_sealed E b) (cmd_destroy E D b True) \<and> keeps (passphrase_sealed E b) (cmd_disk_grow n E D b w)
      \<and> keeps (passphrase_sealed E b) (cmd_bootstrap realpath dir_of n E D b version sz))
   \<and> (let D = lima_driver n E b in
      keeps (passphrase_sealed E b) (cmd_up n E D b sz) \<and> keeps (passphrase_sealed E b) (cmd_down E D b)
      \<and> keeps (passphrase_sealed E b) (cmd_destroy E D b True) \<and> keeps (passphrase_sealed E b) (cmd_disk_grow n E D b w)
      \<and> keeps (passphrase_sealed E b) (cmd_bootstrap realpath dir_of n E D b version sz))"
  unfolding Let_def
  by (intro conjI libvirt.sealed_up libvirt.sealed_down libvirt.sealed_destroy libvirt.sealed_disk_grow
      libvirt.sealed_bootstrap lima.sealed_up lima.sealed_down lima.sealed_destroy lima.sealed_disk_grow
      lima.sealed_bootstrap)

end
