(* ===== verification/Yo_Quiet_Status.thy ===== *)
theory Yo_Quiet_Status
  imports Yo_Status Yo_Hosts
begin

text \<open>
  What \<open>yo status\<close> vouches for. A report only grows, so a status without an error has warned of
  nothing at any step; the locale \<open>reporting_host\<close> adds to the host contract the readings a status
  makes, and its lemmas say what each part of a quiet status saw. Both drivers interpret it.
\<close>

subsection \<open>A report only grows\<close>

named_theorems report_rules "what an operation adds to the history and to the report"

text \<open>\<open>grows A m\<close>: \<open>m\<close> adds events of \<open>A\<close> to the history, and warnings to the report.\<close>

definition grows :: "event set \<Rightarrow> 'a reporting \<Rightarrow> bool" where
  "grows A m \<longleftrightarrow> (\<forall>h ws r t ws'. m (h, ws) = (r, t, ws') \<longrightarrow> (\<exists>es. t = h @ es \<and> set es \<subseteq> A) \<and> prefix ws ws')"

lemma growsD:
  "grows A m \<Longrightarrow> m (h, ws) = (r, t, ws') \<Longrightarrow> (\<exists>es. t = h @ es \<and> set es \<subseteq> A) \<and> prefix ws ws'"
  by (simp add: grows_def)

lemma grows_ret [report_rules]: "grows A (ret x)"
  and grows_raise [report_rules]: "grows A (raise e)"
  by (auto simp: grows_def eff_defs)

lemma grows_beside [report_rules]: "logs_only A m \<Longrightarrow> grows A (beside m)"
  by (auto simp: grows_def beside_def logs_only_def split: prod.splits)

lemma grows_then:
  assumes "grows A m" and "m (h, ws) = (q, u, vs)" and "grows A n" and "n (u, vs) = (r, t, ws')"
  shows "(\<exists>es. t = h @ es \<and> set es \<subseteq> A) \<and> prefix ws ws'"
proof -
  from growsD [OF assms(1,2)] obtain es where es: "u = h @ es" "set es \<subseteq> A" "prefix ws vs" by blast
  moreover from growsD [OF assms(3,4)] obtain es' where "t = u @ es'" "set es' \<subseteq> A" "prefix vs ws'" by blast
  ultimately show ?thesis by (auto intro!: exI [of _ "es @ es'"] intro: prefix_order.trans)
qed

lemma grows_bnd [report_rules]:
  assumes "grows A m" and "\<And>x. grows A (f x)"
  shows "grows A (bnd m f)"
  unfolding grows_def
proof (intro allI impI)
  fix h ws r t ws'
  assume run: "bnd m f (h, ws) = (r, t, ws')"
  obtain q u vs where m: "m (h, ws) = (q, u, vs)" by (metis surj_pair)
  show "(\<exists>es. t = h @ es \<and> set es \<subseteq> A) \<and> prefix ws ws'"
  proof (cases q)
    case (Inl e)
    with run m have "m (h, ws) = (q, t, ws')" by (simp add: bnd_def)
    with assms(1) show ?thesis by (rule growsD)
  next
    case (Inr x)
    with run m have "f x (u, vs) = (r, t, ws')" by (simp add: bnd_def)
    with assms(1) m assms(2) show ?thesis by (rule grows_then)
  qed
qed

lemma grows_catch [report_rules]:
  assumes "grows A m" and "\<And>e. grows A (f e)"
  shows "grows A (catch m f)"
  unfolding grows_def
proof (intro allI impI)
  fix h ws r t ws'
  assume run: "catch m f (h, ws) = (r, t, ws')"
  obtain q u vs where m: "m (h, ws) = (q, u, vs)" by (metis surj_pair)
  show "(\<exists>es. t = h @ es \<and> set es \<subseteq> A) \<and> prefix ws ws'"
  proof (cases q)
    case (Inr x)
    with run m have "m (h, ws) = (q, t, ws')" by (simp add: catch_def)
    with assms(1) show ?thesis by (rule growsD)
  next
    case (Inl e)
    with run m have "f e (u, vs) = (r, t, ws')" by (simp add: catch_def)
    with assms(1) m assms(2) show ?thesis by (rule grows_then)
  qed
qed

lemma grows_if [report_rules]: "grows A m \<Longrightarrow> grows A n \<Longrightarrow> grows A (if c then m else n)"
  by simp

lemma grows_when [report_rules]: "grows A m \<Longrightarrow> grows A (when_do c m)"
  by (simp add: when_do_def grows_ret)

lemma grows_option [report_rules]: "grows A m \<Longrightarrow> (\<And>y. grows A (f y)) \<Longrightarrow> grows A (case x of None \<Rightarrow> m | Some y \<Rightarrow> f y)"
  and grows_sum [report_rules]: "(\<And>a. grows A (g a)) \<Longrightarrow> (\<And>c. grows A (k c)) \<Longrightarrow> grows A (case z of Inl a \<Rightarrow> g a | Inr c \<Rightarrow> k c)"
  and grows_prod [report_rules]: "(\<And>a c. grows A (p a c)) \<Longrightarrow> grows A (case w of (a, c) \<Rightarrow> p a c)"
  and grows_let [report_rules]: "grows A (q v) \<Longrightarrow> grows A (let x = v in q x)"
  by (auto split: option.split sum.split prod.split)

lemma grows_for_each [report_rules]: "(\<And>x. grows A (f x)) \<Longrightarrow> grows A (for_each xs f)"
  by (induction xs) (auto intro: report_rules)

lemma report_warn_run: "report_warn m (h, ws) = (Inr (), h @ [Said (sanitize (fst m), map sanitize (snd m))], ws @ [m])"
  by (simp add: report_warn_def bnd_def modifies_def beside_def say_def emit_def)

lemma grows_report [report_rules]:
  assumes "ordinary A"
  shows "grows A (report_warn m)" "grows A (report_line l)"
proof -
  show warn: "grows A (report_warn m)" for m
    using ordinary_events(3) [OF assms] by (auto simp: grows_def report_warn_run)
  show "grows A (report_line l)"
    unfolding report_line_def by (intro report_rules warn footprint ordinary_events assms)
qed

text \<open>In a report that ends with no warning, every step of it warned of nothing.\<close>

lemma quiet_bndE:
  assumes "bnd m f (h, []) = (Inr y, t, [])" and "grows A m" and "\<And>x. grows A (f x)"
  obtains x u where "m (h, []) = (Inr x, u, [])" "f x (u, []) = (Inr y, t, [])" "prefix h u" "prefix u t"
proof -
  obtain x u ws where m: "m (h, []) = (Inr x, u, ws)" and f: "f x (u, ws) = (Inr y, t, [])"
    using bnd_InrE [OF assms(1)] by (metis surj_pair)
  from growsD [OF assms(2) m] growsD [OF assms(3) f] have "ws = []" "prefix h u" "prefix u t" by auto
  with m f that show ?thesis by simp
qed

lemma quiet_beside: "beside m (h, []) = (Inr x, t, ws) \<Longrightarrow> m h = (Inr x, t)"
  by (auto simp: beside_def split: prod.splits)

lemma quiet_warn: "report_warn m s \<noteq> (Inr x, t, [])"
  by (cases s) (simp add: report_warn_run)

lemma quiet_line: "report_line l (h, ws) = (Inr x, t, []) \<Longrightarrow> \<not> snd l"
  using quiet_warn by (auto simp: report_line_def split: if_splits)

lemma quiet_lines:
  assumes "ordinary A"
  shows "for_each ls report_line (h, []) = (Inr x, t, []) \<Longrightarrow> list_all (\<lambda>l. \<not> snd l) ls"
proof (induction ls arbitrary: h)
  case (Cons l ls)
  from Cons.prems obtain y u where l: "report_line l (h, []) = (Inr y, u, [])"
    and ls: "for_each ls report_line (u, []) = (Inr x, t, [])"
    unfolding for_each.simps by (rule quiet_bndE [where A = A]) (intro report_rules assms)+
  from Cons.IH [OF ls] quiet_line [OF l] show ?case by simp
qed simp

lemma quiet_option: "(case x of None \<Rightarrow> ret () | Some m \<Rightarrow> report_warn m) s = (Inr y, t, []) \<Longrightarrow> x = None"
  by (cases x) (simp_all add: quiet_warn)

subsection \<open>What a status without a warning vouches for\<close>

text \<open>
  \<open>saw h t m x\<close>: between the histories \<open>h\<close> and \<open>t\<close>, \<open>m\<close> ran and returned \<open>x\<close>.
\<close>

definition saw :: "history \<Rightarrow> history \<Rightarrow> 'a io \<Rightarrow> 'a \<Rightarrow> bool" where
  "saw h t m x \<longleftrightarrow> (\<exists>u v. prefix h u \<and> m u = (Inr x, v) \<and> prefix v t)"

lemma sawI: "m u = (Inr x, v) \<Longrightarrow> prefix h u \<Longrightarrow> prefix v t \<Longrightarrow> saw h t m x"
  by (auto simp: saw_def)

lemma logs_except_reached [footprint]:
  "logs_only A m \<Longrightarrow> (\<And>e. logs_only A (f e)) \<Longrightarrow> logs_only A (except_reached m f)"
  unfolding except_reached_def by (intro footprint)

lemma logs_status_parts [footprint]:
  assumes "ordinary A"
  shows "logs_only A (guest_network_line E D b)" "logs_only A (encryption_line E b)" "logs_only A (guest_usage_lines E b)"
    "logs_only A (forward_is_up E b fwd)" "logs_only A (account_of E b stage)" "logs_only A (built_by E b)"
    "logs_only A (vm_units_present E b)" "logs_only A (aws_broker_health E)"
    "logs_only A (egress_status_line b c (ssh_run E b OPERATOR argv plain))"
proof -
  show "logs_only A (guest_network_line E D b)"
    unfolding guest_network_line_def by (intro footprint ordinary_ssh assms)
  show "logs_only A (encryption_line E b)"
    unfolding encryption_line_def luks_device_fstype_def by (intro footprint ordinary_ssh assms)
  show "logs_only A (guest_usage_lines E b)"
    unfolding guest_usage_lines_def by (intro footprint ordinary_ssh assms)
  show "logs_only A (forward_is_up E b fwd)"
    unfolding forward_is_up_def by (intro footprint ordinary_ssh assms)
  show "logs_only A (account_of E b stage)"
    unfolding account_of_def by (intro footprint ordinary_ssh assms)
  show "logs_only A (built_by E b)" "logs_only A (vm_units_present E b)"
    by (intro footprint ordinary_ssh assms)+
  show "logs_only A (aws_broker_health E)"
    unfolding aws_broker_health_def health_on_def by (intro footprint ordinary_events assms)
  show "logs_only A (egress_status_line b c (ssh_run E b OPERATOR argv plain))"
    unfolding egress_status_line_def Let_def by (intro footprint ordinary_ssh assms)
qed

lemma gaps_not_alarmed:
  "for_each gaps (\<lambda>gap. report_line (host_gap_line D gap)) (h, []) = (Inr x, t, []) \<Longrightarrow> gaps = []"
proof (cases gaps)
  case (Cons g gs)
  have A: "ordinary UNIV" by simp
  assume "for_each gaps (\<lambda>gap. report_line (host_gap_line D gap)) (h, []) = (Inr x, t, [])"
  then obtain y u where "report_line (host_gap_line D g) (h, []) = (Inr y, u, [])"
    unfolding Cons for_each.simps by (rule quiet_bndE [where A = UNIV]) (intro report_rules A)+
  then show ?thesis by (auto dest: quiet_line simp: host_gap_line_def alarm_def)
qed simp

lemma logs_prefix: "logs_only A m \<Longrightarrow> m h = (r, t) \<Longrightarrow> prefix h t"
  by (erule (1) logs_onlyE) simp

lemma except_yo_Inr:
  assumes "except_yo m (\<lambda>e. ret (Inl e)) h = (Inr (Inr x), t)"
  shows "m h = (Inr (Inr x), t)"
  using assms by (auto simp: except_yo_def catch_def raise_def ret_def split: prod.splits sum.splits if_splits)

locale reporting_host = host_driver +
  assumes polite_status: "logs_only (polite_events E b) (show_status D)" "logs_only (polite_events E b) (config_notes D)"
    "logs_only (polite_events E b) (host_gaps D)" "logs_only (polite_events E b) (disk_image D)"
    "logs_only (polite_events E b) (running_keepalive_pid D)"
begin

lemma polite_lines: "logs_only (polite_events E b) (disk_lines E D b reachable)" "logs_only (polite_events E b) (aws_lines E D b reachable)"
  "logs_only (polite_events E b) (login_problem D)" "logs_only (polite_events E b) (unknown_stage_message D b m r)"
proof -
  show "logs_only (polite_events E b) (disk_lines E D b reachable)"
    unfolding disk_lines_def by (intro footprint polite_status ordinary_polite)
  show "logs_only (polite_events E b) (aws_lines E D b reachable)"
    unfolding aws_lines_def Let_def by (intro footprint polite_status ordinary_polite)
  show "logs_only (polite_events E b) (login_problem D)" "logs_only (polite_events E b) (unknown_stage_message D b m r)"
    unfolding login_problem_def unknown_stage_message_def by (intro footprint polite)+
qed

lemma grows_parts:
  "grows (polite_events E b) (unreachable_lines E D b login stage detail)" "grows (polite_events E b) (config_lines D)"
  "grows (polite_events E b) (status_guest_services E D b)" "grows (polite_events E b) (probe_services E D b)"
proof -
  note rules = report_rules footprint ordinary_events ordinary_ssh ordinary_polite polite polite_status polite_lines
  show "grows (polite_events E b) (unreachable_lines E D b login stage detail)"
    unfolding unreachable_lines_def Let_def by (intro rules)
  show "grows (polite_events E b) (config_lines D)"
    unfolding config_lines_def by (intro rules)
  have unit: "grows (polite_events E b) (proxy_unit E b u)" for u
    unfolding proxy_unit_def by (intro rules)
  have units: "grows (polite_events E b) (forward_units E D b)"
    unfolding forward_units_def by (intro rules unit)
  show services: "grows (polite_events E b) (status_guest_services E D b)"
    unfolding status_guest_services_def by (intro rules units)
  show "grows (polite_events E b) (probe_services E D b)"
    unfolding probe_services_def by (intro rules services)
qed

lemmas steps = report_rules footprint ordinary_events ordinary_ssh ordinary_polite polite polite_status polite_lines grows_parts

lemma quiet_config:
  assumes run: "config_lines D (h, []) = (Inr x, t, [])"
  shows "saw h t (config_gaps D) []"
proof -
  from run obtain r u where r: "beside (except_yo (bnd (config_gaps D) (\<lambda>gaps. bnd (config_notes D) (\<lambda>notes. ret (Inr (gaps, notes)))))
            (\<lambda>e. ret (Inl e))) (h, []) = (Inr r, u, [])"
    and more: "(case r of
       Inl e \<Rightarrow> report_warn (drv_name D, message_texts [message_of e])
     | Inr (gaps, notes) \<Rightarrow>
         sq (if gaps \<noteq> []
             then bnd (beside (config_gap_message D gaps)) (\<lambda>m. report_warn (drv_name D, [m]))
             else beside (say (drv_name D @ '': reverse forwards ok'') []))
            (for_each notes (\<lambda>note. report_line (fine (drv_name D) [note])))) (u, []) = (Inr x, t, [])"
    and ut: "prefix u t"
    unfolding config_lines_def by (rule quiet_bndE [where A = "polite_events E b"]) (intro steps)+
  from more obtain gaps nts where g: "r = Inr (gaps, nts)"
    by (cases r) (auto simp: quiet_warn split: prod.splits)
  from r have "except_yo (bnd (config_gaps D) (\<lambda>gaps. bnd (config_notes D) (\<lambda>notes. ret (Inr (gaps, notes)))))
            (\<lambda>e. ret (Inl e)) h = (Inr (Inr (gaps, nts)), u)"
    unfolding g by (rule quiet_beside)
  from except_yo_Inr [OF this] obtain gs v ns where v: "config_gaps D h = (Inr gs, v)" "config_notes D v = (Inr ns, u)" "gs = gaps"
    by (elim bnd_InrE) (auto simp: ret_def)
  from logs_prefix [OF polite_status(2) v(2)] ut have vt: "prefix v t" by (rule prefix_order.trans)
  have "gaps = []"
  proof (rule ccontr)
    assume "gaps \<noteq> []"
    with more obtain y w where "bnd (beside (config_gap_message D gaps)) (\<lambda>m. report_warn (drv_name D, [m])) (u, []) = (Inr y, w, [])"
      unfolding g by (simp only: sum.case prod.case not_False_eq_True if_True)
        (erule quiet_bndE [where A = "polite_events E b"]; (intro steps)?)
    then obtain m w' where "report_warn (drv_name D, [m]) (w', []) = (Inr y, w, [])"
      by (rule quiet_bndE [where A = "polite_events E b"]) (intro steps)+
    then show False by (simp add: quiet_warn)
  qed
  with v vt show ?thesis by (auto intro: sawI)
qed

end

lemma saw_wider: "saw h t m x \<Longrightarrow> prefix h' h \<Longrightarrow> prefix t t' \<Longrightarrow> saw h' t' m x"
  unfolding saw_def by (meson prefix_order.trans)

lemma saw_beside: "beside m (u, []) = (Inr x, v, []) \<Longrightarrow> prefix h u \<Longrightarrow> prefix v t \<Longrightarrow> saw h t m x"
  by (auto dest: quiet_beside intro: sawI)

context reporting_host
begin

lemmas then_quiet = quiet_bndE [where A = "polite_events E b"]

lemma quiet_tail:
  assumes "status_tail E D b answers (h, []) = (Inr x, t, [])"
  shows "saw h t (config_gaps D) [] \<and> saw h t (host_gaps D) []
    \<and> (\<exists>aws. saw h t (aws_lines E D b answers) aws \<and> list_all (\<lambda>l. \<not> snd l) aws)"
proof -
  from assms obtain c u1 gaps u2 y u3 aws u4 where
    config: "config_lines D (h, []) = (Inr c, u1, [])" "prefix u1 t" and
    gaps: "beside (host_gaps D) (u1, []) = (Inr gaps, u2, [])" "prefix h u1" "prefix u2 t"
      "for_each gaps (\<lambda>gap. report_line (host_gap_line D gap)) (u2, []) = (Inr y, u3, [])" and
    aws: "beside (aws_lines E D b answers) (u3, []) = (Inr aws, u4, [])" "prefix h u3" "prefix u4 t"
      "for_each aws report_line (u4, []) = (Inr x, t, [])"
    unfolding status_tail_def
    apply (elim then_quiet)
    apply (intro steps)+
    by (meson prefix_order.trans)
  have "saw h t (config_gaps D) []"
    by (rule saw_wider [OF quiet_config [OF config(1)] prefix_order.refl config(2)])
  moreover have "saw h t (host_gaps D) []"
    using saw_beside [OF gaps(1,2,3)] gaps_not_alarmed [OF gaps(4)] by simp
  moreover have "saw h t (aws_lines E D b answers) aws" by (rule saw_beside [OF aws(1,2,3)])
  moreover have "list_all (\<lambda>l. \<not> snd l) aws" by (rule quiet_lines [OF ordinary_polite aws(4)])
  ultimately show ?thesis by blast
qed

lemma grows_units: "grows (polite_events E b) (proxy_unit E b u)" "grows (polite_events E b) (forward_units E D b)"
proof -
  show unit: "grows (polite_events E b) (proxy_unit E b u)" for u
    unfolding proxy_unit_def by (intro steps)
  show "grows (polite_events E b) (forward_units E D b)"
    unfolding forward_units_def by (intro steps unit)
qed

lemma quiet_services:
  assumes "status_guest_services E D b (h, []) = (Inr x, t, [])"
  shows "\<exists>unit_state egress net. saw h t (ssh_run E b OPERATOR EGRESS_PROBE plain) unit_state
    \<and> saw h t (egress_status_line b unit_state (ssh_run E b OPERATOR EGRESS_TABLE_PROBE plain)) egress
    \<and> \<not> snd egress \<and> saw h t (guest_network_line E D b) net \<and> \<not> snd net"
proof -
  from assms obtain u1 c u2 l u3 y u4 n u5 where
    probe: "beside (ssh_run E b OPERATOR EGRESS_PROBE plain) (u1, []) = (Inr c, u2, [])" "prefix h u1" "prefix u2 t" and
    egress: "beside (egress_status_line b c (ssh_run E b OPERATOR EGRESS_TABLE_PROBE plain)) (u2, []) = (Inr l, u3, [])"
      "prefix h u2" "prefix u3 t" "report_line l (u3, []) = (Inr y, u4, [])" and
    net: "beside (guest_network_line E D b) (u4, []) = (Inr n, u5, [])" "prefix h u4" "prefix u5 t"
      "report_line n (u5, []) = (Inr x, t, [])"
    unfolding status_guest_services_def
    apply (elim then_quiet)
    apply (intro steps grows_units)+
    by (meson prefix_order.trans)
  have "saw h t (ssh_run E b OPERATOR EGRESS_PROBE plain) c" by (rule saw_beside [OF probe])
  moreover have "saw h t (egress_status_line b c (ssh_run E b OPERATOR EGRESS_TABLE_PROBE plain)) l"
    by (rule saw_beside [OF egress(1,2,3)])
  moreover have "saw h t (guest_network_line E D b) n" by (rule saw_beside [OF net(1,2,3)])
  ultimately show ?thesis using quiet_line [OF egress(4)] quiet_line [OF net(4)] by blast
qed

lemma quiet_probe_services:
  assumes "probe_services E D b (h, []) = (Inr answers, t, [])"
  shows "answers \<and> status_guest_services E D b (h, []) = (Inr (), t, [])"
proof (cases "status_guest_services E D b (h, [])")
  case (fields r u ws)
  show ?thesis
  proof (cases r)
    case (Inr y)
    with fields assms show ?thesis by (simp add: probe_services_def catch_def bnd_def ret_def)
  next
    case (Inl e)
    with fields assms have "(if exn_class e = Unreachable_Box
        then sq (report_warn (''vm: lost while probing'', message_texts [message_of e])) (ret False)
        else raise e) (u, ws) = (Inr answers, t, [])"
      by (simp add: probe_services_def catch_def bnd_def)
    then show ?thesis
      by (auto simp: bnd_def report_warn_run ret_def raise_def split: if_splits)
  qed
qed

lemma quiet_unreachable: "unreachable_lines E D b login stage detail (h, []) \<noteq> (Inr x, t, [])"
proof
  assume "unreachable_lines E D b login stage detail (h, []) = (Inr x, t, [])"
  then obtain u v y where
    "(if stage = Unknown_Stage
       then bnd (beside (unknown_stage_message D b login (yo_cmd b [''down''] @ '' or '' @ yo_cmd b [''up'']))) (\<lambda>m.
            report_warn (''vm: '' @ fst m, snd m))
       else report_warn (''vm: unreachable, is it up? start it with'', [yo_cmd b [''up'']])) (u, []) = (Inr y, v, [])"
    unfolding unreachable_lines_def
    apply (elim then_quiet)
    apply (intro steps)+
    by blast
  moreover have "bnd (beside (unknown_stage_message D b login r)) (\<lambda>m. report_warn (''vm: '' @ fst m, snd m)) (u, []) \<noteq> (Inr y, v, [])" for r
    by (auto elim!: bnd_InrE simp: quiet_warn)
  ultimately show False by (simp add: quiet_warn split: if_splits)
qed

end

context reporting_host
begin

lemma quiet_box:
  assumes run: "status_box E D b login stage (status, detail) (h, []) = (Inr x, t, [])"
  shows "status \<in> {Agent_Account, Operator_Only}
    \<and> (\<exists>disk. saw h t (disk_lines E D b True) disk \<and> list_all (\<lambda>l. \<not> snd l) disk)
    \<and> (\<exists>u v. prefix h u \<and> prefix v t \<and> status_guest_services E D b (u, []) = (Inr (), v, []))
    \<and> (\<exists>v. prefix h v \<and> status_tail E D b True (v, []) = (Inr x, t, []))"
proof -
  let ?reachable = "status \<noteq> Unreachable_Account"
  from run obtain y u1 z u2 disk u3 y' u4 answers u5 where
    lost: "when_do (\<not> ?reachable) (unreachable_lines E D b login stage detail) (h, []) = (Inr y, u1, [])" and
    failing: "when_do (status = Agent_Failing) (report_warn (''agent: login fails'', fst detail # snd detail)) (u1, []) = (Inr z, u2, [])" and
    disk: "beside (disk_lines E D b ?reachable) (u2, []) = (Inr disk, u3, [])" "prefix h u2" "prefix u3 t"
      "for_each disk report_line (u3, []) = (Inr y', u4, [])" and
    services: "(if ?reachable then probe_services E D b else ret False) (u4, []) = (Inr answers, u5, [])" "prefix h u4" "prefix u5 t" and
    last: "status_tail E D b answers (u5, []) = (Inr x, t, [])" "prefix h u5"
    unfolding status_box_def prod.case Let_def
    apply (elim then_quiet)
    apply (unfold status_tail_def)
    apply (intro steps)+
    by (meson prefix_order.trans)
  have reachable: "?reachable"
    using lost by (auto simp: when_do_def quiet_unreachable)
  have "status \<noteq> Agent_Failing"
    using failing by (auto simp: when_do_def quiet_warn)
  with reachable have "status \<in> {Agent_Account, Operator_Only}" by (cases status) auto
  moreover from services(1) have probed: "probe_services E D b (u4, []) = (Inr answers, u5, [])" using reachable by simp
  note quiet_probe_services [OF probed]
  moreover have "saw h t (disk_lines E D b True) disk" using saw_beside [OF disk(1,2,3)] reachable by simp
  moreover have "list_all (\<lambda>l. \<not> snd l) disk" by (rule quiet_lines [OF ordinary_polite disk(4)])
  ultimately show ?thesis using services(2,3) last by (simp only:) blast
qed

lemma grows_status_box: "grows (polite_events E b) (status_box E D b login stage account)"
  unfolding status_box_def status_tail_def Let_def by (intro steps)

lemma quiet_status:
  assumes "cmd_status E D b h = (Inr (), t)"
  shows "saw h t (show_status D) None \<and> saw h t (login_problem D) None
    \<and> (\<exists>stage status detail. saw h t (boot_stage E D b) stage \<and> stage \<in> {Stage2, No_Stage}
        \<and> saw h t (account_status E b) (status, detail) \<and> status \<in> {Agent_Account, Operator_Only})
    \<and> (\<exists>disk. saw h t (disk_lines E D b True) disk \<and> list_all (\<lambda>l. \<not> snd l) disk)
    \<and> (\<exists>unit_state egress net. saw h t (ssh_run E b OPERATOR EGRESS_PROBE plain) unit_state
        \<and> saw h t (egress_status_line b unit_state (ssh_run E b OPERATOR EGRESS_TABLE_PROBE plain)) egress
        \<and> \<not> snd egress \<and> saw h t (guest_network_line E D b) net \<and> \<not> snd net)
    \<and> saw h t (config_gaps D) [] \<and> saw h t (host_gaps D) []
    \<and> (\<exists>aws. saw h t (aws_lines E D b True) aws \<and> list_all (\<lambda>l. \<not> snd l) aws)"
proof -
  from assms obtain x where "status_report E D b (h, []) = (Inr x, t, [])"
    by (auto simp: cmd_status_def raise_def ret_def split: prod.splits sum.splits if_splits)
  then obtain failure u1 y u2 login u3 y' u4 stage u5 account u6 where
    shown: "beside (show_status D) (h, []) = (Inr failure, u1, [])" "prefix u1 t"
      "(case failure of None \<Rightarrow> ret () | Some m \<Rightarrow> report_warn m) (u1, []) = (Inr y, u2, [])" and
    login: "beside (login_problem D) (u2, []) = (Inr login, u3, [])" "prefix h u2" "prefix u3 t"
      "(case login of None \<Rightarrow> ret () | Some m \<Rightarrow> report_warn (''login: '' @ fst m, snd m)) (u3, []) = (Inr y', u4, [])" and
    stage: "beside (boot_stage E D b) (u4, []) = (Inr stage, u5, [])" "prefix h u4" "prefix u5 t" and
    account: "beside (account_of E b stage) (u5, []) = (Inr account, u6, [])" "prefix h u5" "prefix u6 t" "prefix h u6" and
    rest: "status_box E D b login stage account (u6, []) = (Inr x, t, [])"
    unfolding status_report_def
    apply (elim then_quiet)
    apply (intro steps grows_status_box)+
    by (meson prefix_order.trans)
  obtain status detail where sd: "account = (status, detail)" by (cases account)
  from quiet_box [OF rest [unfolded sd]] obtain disk u v w where
    status: "status \<in> {Agent_Account, Operator_Only}" and
    disk: "saw u6 t (disk_lines E D b True) disk" "list_all (\<lambda>l. \<not> snd l) disk" and
    services: "prefix u6 u" "prefix v t" "status_guest_services E D b (u, []) = (Inr (), v, [])" and
    tail: "prefix u6 w" "status_tail E D b True (w, []) = (Inr x, t, [])" by blast
  note wide = saw_wider [OF _ account(4) prefix_order.refl]
  have up: "prefix h u" "prefix h w" using account(4) services(1) tail(1) by (auto intro: prefix_order.trans)
  from account(1) sd status have acc: "stage \<in> {Stage2, No_Stage}" "saw h t (account_status E b) (status, detail)"
  proof -
    have run: "account_of E b stage u5 = (Inr (status, detail), u6)" using account(1) sd by (auto dest: quiet_beside)
    then have st: "stage \<notin> {Initrd, Unknown_Stage}" using status by (auto simp: account_of_def ret_def)
    then show "stage \<in> {Stage2, No_Stage}" by (cases stage) auto
    from run st have "account_status E b u5 = (Inr (status, detail), u6)" by (simp add: account_of_def)
    then show "saw h t (account_status E b) (status, detail)" using account(2,3) by (rule sawI)
  qed
  have "saw h t (show_status D) None"
    using saw_beside [OF shown(1) prefix_order.refl shown(2)] quiet_option [OF shown(3)] by simp
  moreover have "login = None" using login(4) by (cases login) (simp_all add: quiet_warn)
  then have "saw h t (login_problem D) None" using saw_beside [OF login(1,2,3)] by simp
  moreover have "saw h t (boot_stage E D b) stage" by (rule saw_beside [OF stage])
  moreover have "saw h t (disk_lines E D b True) disk" by (rule wide [OF disk(1)])
  moreover note quiet_tail [OF tail(2)] quiet_services [OF services(3)]
  ultimately show ?thesis
    using acc status disk(2) up services(2) by (meson saw_wider prefix_order.refl)
qed
end

end
