(* ===== verification/Yo_Status_Verdict.thy ===== *)
theory Yo_Status_Verdict
  imports Yo_Quiet_Status
begin

text \<open>
  What a \<open>yo status\<close> that exits 0 vouches for, on the two hosts, with the run of a box that has
  nothing wrong; the exactness of its egress line; and the round trip of the guest's network check.
\<close>

subsection \<open>The two hosts\<close>

interpretation libvirt_reports: reporting_host "libvirt_driver n E b" E b for n E b
  by unfold_locales (simp_all add: libvirt_driver_def libvirt_base_def footprint ordinary_polite own_locks_polite)

interpretation lima_reports: reporting_host "lima_driver n E b" E b for n E b
  by unfold_locales (simp_all add: lima_driver_def lima_base_def footprint ordinary_polite)

subsection \<open>A box with nothing wrong\<close>

definition healthy_table :: string where
  "healthy_table =
     join_on CHR 0x0A [''table inet yolobox-egress {'', ''chain output {'', ''type filter hook output priority filter;'',
       ''oifname { '' @ dquoted ''lo'' @ '', '' @ dquoted ''tailscale0'' @ '' } accept'',
       ''ip daddr { 10.0.0.0/8 } reject'', ''ip6 daddr { fc00::/7 } reject'', ''}'', ''}'']"

definition healthy_net :: string where "healthy_net = ''egress=ok'' @ NL @ ''gateway=skipped'' @ NL @ ''rootdisk=ok'' @ NL"

definition healthy_egress :: string where "healthy_egress = ''LoadState=loaded'' @ NL @ ''ActiveState=active'' @ NL"

definition healthy_text :: "string \<Rightarrow> string" where
  "healthy_text cmd =
     (if contains cmd ''--value'' then ''active'' @ NL
      else if contains cmd ''NO_TAILSCALE'' then ''NO_TAILSCALE'' @ NL
      else if contains cmd ''LoadState'' then healthy_egress
      else if contains cmd ''nft'' then healthy_table
      else if contains cmd ''net-check'' then healthy_net
      else if contains cmd ''lsblk'' then ''crypto_LUKS'' @ NL
      else [])"

definition healthy_env :: env where
  "healthy_env = sample_env\<lparr>proc_ans := (\<lambda>h argv input. Finished 0 (healthy_text (last argv)) [])\<rparr>"

definition healthy_box :: box where "healthy_box = \<lparr>instances_dir = ''.lima'', box_name = DEFAULT_INSTANCE\<rparr>"

text \<open>
  A run without a warning, step by step: \<open>calm m x\<close> says that \<open>m\<close> returns \<open>x\<close> and warns of
  nothing, from any history.
\<close>

definition calm :: "'a reporting \<Rightarrow> 'a \<Rightarrow> bool" where
  "calm m x \<longleftrightarrow> (\<forall>h. \<exists>t. m (h, []) = (Inr x, t, []))"

lemma calm_beside: "(\<And>h. fst (m h) = Inr x) \<Longrightarrow> calm (beside m) x"
  by (auto simp: calm_def beside_def split: prod.splits) (metis fst_conv)

lemma calm_ret: "calm (ret x) x"
  by (simp add: calm_def ret_def)

lemma calm_bnd: "calm m x \<Longrightarrow> calm (f x) y \<Longrightarrow> calm (bnd m f) y"
  unfolding calm_def bnd_def by (metis (no_types, lifting) old.prod.case old.sum.simps(6))

lemma calm_catch: "calm m x \<Longrightarrow> calm (catch m f) x"
  unfolding calm_def catch_def by (metis (no_types, lifting) old.prod.case old.sum.simps(6))

lemma calm_line: "\<not> snd l \<Longrightarrow> calm (report_line l) ()"
  by (simp add: calm_def report_line_def beside_def say_def emit_def modifies_def)

lemma calm_lines: "list_all (\<lambda>l. \<not> snd l) ls \<Longrightarrow> calm (for_each ls report_line) ()"
  by (induction ls) (auto intro: calm_ret calm_bnd calm_line)

lemma calm_say: "calm (beside (say w a)) ()"
  by (rule calm_beside) (simp add: say_def emit_def modifies_def)

lemma fst_except_yo: "fst (m h) = Inr x \<Longrightarrow> fst (except_yo m f h) = Inr x"
  by (cases "m h") (simp add: except_yo_def catch_def)

lemma fst_except_reached: "fst (m h) = Inr x \<Longrightarrow> fst (except_reached m f h) = Inr x"
  unfolding except_reached_def by (rule fst_except_yo)

lemma healthy_config: "fst (ensure_agent_ssh_config healthy_env healthy_box h) = Inr ()"
  by code_simp

lemma healthy_run: "fst (run healthy_env argv ro h) = Inr (captured ro 0 (healthy_text (last argv)) [])" if "ro = plain \<or> ro = plain\<lparr>stdin_of := Some []\<rparr>"
  using that by (auto simp: run_def plain_def healthy_env_def unsupported_filtered_def bnd_def reads_def ret_def emit_def modifies_def Let_def)

lemma healthy_ssh:
  "fst (ssh_run_inheriting healthy_env healthy_box role argv plain mux False h)
     = Inr \<lparr>returncode = 0, stdout = no_cr (healthy_text (shlex_join argv)), stderr = no_cr []\<rparr>"
proof -
  have "fst (ssh_argv healthy_env healthy_box role tail mux h) = Inr ([''ssh''] @ role_options healthy_env healthy_box role mux @ tail)" for tail h
    unfolding ssh_argv_def ssh_options_def
    by (simp add: fst_bnd [OF healthy_config] bnd_assoc eff_simps) (simp add: ret_def)
  then show ?thesis
    unfolding ssh_run_inheriting_def
    by (subst fst_bnd) (auto simp: healthy_run guest_command_def captured_def plain_def)
qed


lemma healthy_probe: "fst (probe_over mux healthy_env healthy_box role argv plain h)
    = Inr \<lparr>returncode = 0, stdout = no_cr (healthy_text (shlex_join argv)), stderr = no_cr []\<rparr>"
  unfolding probe_over_def by (simp add: fst_bnd [OF healthy_ssh] SSH_UNREACHABLE_def) (simp add: ret_def)

lemma healthy_stage:
  assumes "\<And>h. fst (ssh_port D h) = Inr port"
  shows "fst (boot_stage healthy_env D healthy_box h) = Inr Stage2"
proof -
  have "fst (initrd_endpoint_of healthy_env D healthy_box h) = Inr \<lparr>ie_hostname = ''127.0.0.1'', ie_port = port,
      ie_identities = [path_join ''/Users/me'' (initrd_identity D)]\<rparr>" for h
  proof -
    have "fst (read_text_file healthy_env p h) = Inr None" for p h
      by (simp add: read_text_file_def healthy_env_def sample_env_def bnd_def reads_def ret_def)
    then show ?thesis
      unfolding initrd_endpoint_of_def
      by (simp add: fst_bnd fst_bnd [OF assms]) (simp add: ret_def healthy_env_def sample_env_def)
  qed
  then have "\<exists>argv. \<forall>h. fst (initrd_ssh_argv healthy_env D healthy_box r u h) = Inr argv" for r u
    unfolding initrd_ssh_argv_def by (simp add: fst_bnd) (simp add: ret_def)
  then obtain argv where "\<And>h. fst (initrd_ssh_argv healthy_env D healthy_box ''true'' (host_user healthy_env) h) = Inr argv" by blast
  then show ?thesis
    unfolding boot_stage_def stage2_up_def sshd_answers_def probe_sshd_def bnd_assoc
    by (simp add: fst_bnd fst_bnd [OF healthy_run] captured_def plain_def) (simp add: eff_simps, simp add: ret_def)
qed

lemma healthy_texts:
  "no_cr (healthy_text (shlex_join [''cat'', ''/etc/yolobox/version''])) = []"
  "no_cr (healthy_text (shlex_join [''sh'', ''-c'', TAILSCALE_PROBE])) = ''NO_TAILSCALE'' @ NL"
  "no_cr (healthy_text (shlex_join EGRESS_PROBE)) = healthy_egress"
  "no_cr (healthy_text (shlex_join EGRESS_TABLE_PROBE)) = healthy_table"
  "no_cr (healthy_text (shlex_join [HELPER, ''net-check''])) = healthy_net"
  by code_simp+

lemma healthy_plain_ssh:
  "fst (ssh_run healthy_env healthy_box role argv plain h)
     = Inr \<lparr>returncode = 0, stdout = no_cr (healthy_text (shlex_join argv)), stderr = no_cr []\<rparr>"
  unfolding ssh_run_def by (rule healthy_ssh)

lemma healthy_proxies: "calm (for_each PROXY_SOCKET_UNITS (proxy_unit healthy_env healthy_box)) ()"
proof -
  have texts: "list_all (\<lambda>u. strip (no_cr (healthy_text (shlex_join [''systemctl'', ''show'', ''-p'', ''ActiveState'', ''--value'', u]))) = ''active'') PROXY_SOCKET_UNITS"
    by code_simp
  have "calm (proxy_unit healthy_env healthy_box u) ()"
    if "strip (no_cr (healthy_text (shlex_join [''systemctl'', ''show'', ''-p'', ''ActiveState'', ''--value'', u]))) = ''active''" for u
    unfolding proxy_unit_def
    by (rule calm_bnd [OF calm_beside [OF healthy_plain_ssh]], rule calm_line) (simp only: completed.select_convs that unit_line_def snd_conv simp_thms)
  with texts have "calm (for_each us (proxy_unit healthy_env healthy_box)) ()" if "set us \<subseteq> set PROXY_SOCKET_UNITS" for us
    using that by (induction us) (auto intro: calm_ret calm_bnd simp: list_all_iff)
  then show ?thesis by simp
qed

lemma healthy_forwards: "calm (forward_units healthy_env D healthy_box) ()"
proof -
  have present: "fst (vm_units_present healthy_env healthy_box h) = Inr True" for h
    unfolding vm_units_present_def probe_def by (simp add: fst_bnd [OF healthy_probe]) (simp add: ret_def)
  have forward: "fst (forward_is_up healthy_env healthy_box (one_password_forward D) h) = Inr True" for h
    unfolding forward_is_up_def
    by (simp add: fst_bnd [OF healthy_plain_ssh]) (simp add: ret_def one_password_forward_def op_probe_alive_def)
  show ?thesis
    unfolding forward_units_def
    by (intro calm_bnd [OF calm_beside [OF present]])
      (simp, intro calm_bnd [OF calm_beside [OF forward]] calm_bnd [OF calm_line], simp_all add: healthy_proxies)
qed

lemma healthy_network:
  "fst (guest_network_line healthy_env D healthy_box h)
     = Inr (fine ''network: ok (lima's gateway probe skipped: this box blocks it by design)'' [])"
proof -
  have check: "parse_net_check healthy_net = Some \<lparr>egress_ok = True, nc_gateway = Gateway_Skipped, nc_root_disk = Root_Ok\<rparr>"
    by code_simp
  have "fst (guest_helper healthy_env healthy_box OPERATOR ''net-check'' [] False plain h)
      = Inr \<lparr>returncode = 0, stdout = healthy_net, stderr = no_cr []\<rparr>" for h
    unfolding guest_helper_def guest_helper_over_def
    by (simp add: Let_def fst_bnd [OF healthy_probe] healthy_texts(5) HELPER_NO_SUBCOMMAND_def) (simp add: ret_def)
  then have "fst (except_reached (bnd (guest_helper healthy_env healthy_box OPERATOR ''net-check'' [] False plain) (\<lambda>c. ret (Inr c))) (\<lambda>e. ret (Inl e)) h)
      = Inr (Inr \<lparr>returncode = 0, stdout = healthy_net, stderr = no_cr []\<rparr>)" for h
    by (intro fst_except_reached) (simp add: fst_bnd, simp add: ret_def)
  then show ?thesis
    unfolding guest_network_line_def by (simp add: fst_bnd check) (simp add: ret_def network_status_line_def)
qed

lemma healthy_egress_line:
  "fst (egress_status_line healthy_box \<lparr>returncode = 0, stdout = healthy_egress, stderr = no_cr []\<rparr>
      (ssh_run healthy_env healthy_box OPERATOR EGRESS_TABLE_PROBE plain) h) = Inr (fine ''egress: host and LAN blocked'' [])"
proof -
  have "guest_field healthy_egress ''LoadState'' = ''loaded''" "guest_field healthy_egress ''ActiveState'' = ''active''"
    "egress_table_holds healthy_table" by code_simp+
  then show ?thesis
    unfolding egress_status_line_def
    by (simp add: Let_def fst_bnd [OF healthy_plain_ssh] healthy_texts(4)) (simp add: ret_def egress_active_line_def)
qed

lemma healthy_services: "calm (status_guest_services healthy_env D healthy_box) ()"
proof -
  have "strip [] = []" by code_simp
  then have built: "fst (built_by healthy_env healthy_box h) = Inr None" for h
    unfolding built_by_def probe_def by (simp add: fst_bnd [OF healthy_probe] healthy_texts(1)) (simp add: ret_def)
  have "strip (''NO_TAILSCALE'' @ NL) = ''NO_TAILSCALE''" by code_simp
  then have tail: "snd (tailscale_status_line healthy_box (''NO_TAILSCALE'' @ NL) err) = False" for err
    unfolding tailscale_status_line_def by (simp only: if_True simp_thms fine_def snd_conv)
  have drift: "version_drift healthy_box v None = None" for v by (simp add: version_drift_def)
  show ?thesis
    unfolding status_guest_services_def
    apply (rule calm_bnd [OF calm_beside [OF built]])
    apply (rule calm_bnd [OF calm_say])
    apply (rule calm_bnd [where x = "()"], simp add: drift calm_ret)
    apply (rule calm_bnd [OF healthy_forwards])
    apply (rule calm_bnd [OF calm_beside [OF healthy_plain_ssh]])
    apply (rule calm_bnd [OF calm_line], simp only: completed.select_convs healthy_texts tail simp_thms)
    apply (rule calm_bnd [OF calm_beside [OF healthy_plain_ssh]])
    apply (unfold healthy_texts)
    apply (rule calm_bnd [OF calm_beside [OF healthy_egress_line]])
    apply (rule calm_bnd [OF calm_line], simp add: line_defs)
    apply (rule calm_bnd [OF calm_beside [OF healthy_network]])
    by (rule calm_line) (simp add: line_defs)
qed

lemma healthy_account: "fst (account_of healthy_env healthy_box Stage2 h) = Inr (Agent_Account, ([], []))"
  unfolding account_of_def account_status_def ssh_run_def
  by (simp add: fst_bnd [OF healthy_ssh]) (simp add: ret_def)

lemma healthy_disk:
  assumes "\<And>h. fst (disk_image D h) = Inr None"
  shows "\<exists>ls. (\<forall>h. fst (disk_lines healthy_env D healthy_box True h) = Inr ls) \<and> list_all (\<lambda>l. \<not> snd l) ls"
proof -
  have texts: "no_cr (healthy_text (shlex_join ROOT_USAGE_PROBE)) = []"
    "strip (no_cr (healthy_text (shlex_join [''lsblk'', ''-dno'', ''FSTYPE'', LUKS_DEVICE]))) = ''crypto_LUKS''"
    by code_simp+
  have bad: "is_yo_error (projl (parse_root_usage [])) \<and> isl (parse_root_usage [])" by code_simp
  then obtain e where e: "parse_root_usage [] = Inl e" "is_yo_error e" by (auto simp: isl_def)
  have "fst (guest_usage_lines healthy_env healthy_box h) = Inr [fine ''disk: guest'' (message_texts [message_of e])]" for h
    unfolding guest_usage_lines_def guest_root_usage_def ssh_run_def except_yo_def bnd_assoc
    using healthy_ssh [of OPERATOR ROOT_USAGE_PROBE False h]
    by (auto simp: catch_def bnd_def texts e lift_def ret_def split: prod.splits)
  moreover have "fst (encryption_line healthy_env healthy_box h) = Inr (fine ''disk:'' [LUKS_DEVICE, ''crypto_LUKS''])" for h
  proof -
    have "fst (luks_device_fstype healthy_env healthy_box h) = Inr ''crypto_LUKS''" for h
      unfolding luks_device_fstype_def guest_out_def probe_def bnd_assoc
      by (simp add: fst_bnd [OF healthy_probe]) (simp add: eff_simps texts(2), simp add: ret_def texts(2))
    then have "fst (except_yo (bnd (luks_device_fstype healthy_env healthy_box) (\<lambda>fstype. ret (Inr fstype))) (\<lambda>e. ret (Inl e)) h) = Inr (Inr ''crypto_LUKS'')" for h
      by (intro fst_except_yo) (simp add: fst_bnd, simp add: ret_def)
    then show ?thesis unfolding encryption_line_def by (simp add: fst_bnd) (simp add: ret_def classify_disk_def)
  qed
  ultimately have "fst (disk_lines healthy_env D healthy_box True h)
      = Inr [fine ''disk: guest'' (message_texts [message_of e]), fine ''disk:'' [LUKS_DEVICE, ''crypto_LUKS'']]" for h
    unfolding disk_lines_def
    by (simp add: fst_bnd fst_bnd [OF assms] bnd_assoc eff_simps) (simp add: ret_def)
  then show ?thesis by (auto simp: line_defs)
qed

lemma calm_tail:
  assumes "\<And>h. fst (config_gaps D h) = Inr []" and "\<And>h. fst (config_notes D h) = Inr []" and "\<And>h. fst (host_gaps D h) = Inr []"
  shows "calm (status_tail healthy_env D healthy_box answers) ()"
proof -
  have "fst (except_yo (bnd (config_gaps D) (\<lambda>gaps. bnd (config_notes D) (\<lambda>notes. ret (Inr (gaps, notes))))) (\<lambda>e. ret (Inl e)) h) = Inr (Inr ([], []))" for h
    by (intro fst_except_yo) (simp add: fst_bnd [OF assms(1)] fst_bnd [OF assms(2)], simp add: ret_def)
  then have config: "calm (config_lines D) ()"
    unfolding config_lines_def by (rule calm_bnd [OF calm_beside]) (simp, intro calm_bnd [OF calm_say] calm_ret)
  have "fst (which healthy_env ''aws'' h) = Inr None" for h
    by (simp add: which_def reads_def healthy_env_def sample_env_def)
  then have aws: "fst (aws_lines healthy_env D healthy_box answers h) = Inr [aws_disabled]" for h
    unfolding aws_lines_def by (simp add: fst_bnd) (simp add: ret_def)
  show ?thesis
    unfolding status_tail_def
    apply (rule calm_bnd [OF config])
    apply (rule calm_bnd [OF calm_beside [OF assms(3)]])
    apply (rule calm_bnd, simp add: calm_ret)
    apply (rule calm_bnd [OF calm_beside [OF aws]])
    by (rule calm_lines) (simp add: aws_disabled_def line_defs)
qed

lemma healthy_status:
  assumes "\<And>h. fst (show_status D h) = Inr None" and "require_login_key D = ret ()" and "\<And>h. fst (ssh_port D h) = Inr port"
    and "\<And>h. fst (disk_image D h) = Inr None" and "\<And>h. fst (config_gaps D h) = Inr []" and "\<And>h. fst (config_notes D h) = Inr []"
    and "\<And>h. fst (host_gaps D h) = Inr []"
  shows "\<exists>t. cmd_status healthy_env D healthy_box h = (Inr (), t)"
proof -
  have login: "fst (login_problem D h) = Inr None" for h
    unfolding login_problem_def by (rule fst_except_yo) (simp add: assms(2) eff_simps, simp add: ret_def)
  obtain ls where ls: "\<And>h. fst (disk_lines healthy_env D healthy_box True h) = Inr ls" "list_all (\<lambda>l. \<not> snd l) ls"
    using healthy_disk [OF assms(4)] by blast
  have probes: "calm (probe_services healthy_env D healthy_box) True"
    unfolding probe_services_def by (intro calm_catch calm_bnd [OF healthy_services] calm_ret)
  have box: "calm (status_box healthy_env D healthy_box None Stage2 (Agent_Account, ([], []))) ()"
    unfolding status_box_def
    apply (simp add: when_do_def)
    apply (rule calm_bnd [OF calm_ret])+
    apply (rule calm_bnd [OF calm_beside [OF ls(1)]])
    apply (rule calm_bnd [OF calm_lines [OF ls(2)]])
    by (rule calm_bnd [OF probes calm_tail [OF assms(5,6,7)]])
  have "calm (status_report healthy_env D healthy_box) ()"
    unfolding status_report_def
    apply (rule calm_bnd [OF calm_beside [OF assms(1)]], simp)
    apply (rule calm_bnd [OF calm_ret])
    apply (rule calm_bnd [OF calm_beside [OF login]], simp)
    apply (rule calm_bnd [OF calm_ret])
    apply (rule calm_bnd [OF calm_beside [OF healthy_stage [OF assms(3)]]])
    by (rule calm_bnd, rule calm_beside [OF healthy_account], rule box)
  then obtain t where "status_report healthy_env D healthy_box (h, []) = (Inr (), t, [])" by (auto simp: calm_def)
  then show ?thesis by (simp add: cmd_status_def ret_def)
qed

lemma healthy_lima:
  "\<exists>t. cmd_status healthy_env (lima_driver 0 healthy_env healthy_box) healthy_box [] = (Inr (), t)"
proof (rule healthy_status)
  have absent: "fst (lima_instance_exists healthy_env healthy_box h) = Inr False" for h
    by code_simp
  then have info: "fst (lima_instance_info healthy_env healthy_box h) = Inr None" for h
    unfolding lima_instance_info_def fst_bnd [OF absent] by (simp add: ret_def)
  show "fst (config_gaps (lima_driver 0 healthy_env healthy_box) h) = Inr []" for h
    by (simp add: lima_driver_def lima_base_def lima_config_gaps_def fst_bnd [OF info]) (simp add: ret_def)
  show "fst (config_notes (lima_driver 0 healthy_env healthy_box) h) = Inr []" for h
    by (simp add: lima_driver_def lima_base_def lima_config_notes_def fst_bnd [OF info]) (simp add: ret_def)
  show "fst (show_status (lima_driver 0 healthy_env healthy_box) h) = Inr None" for h
    by (simp add: lima_driver_def lima_base_def) code_simp
  show "fst (ssh_port (lima_driver 0 healthy_env healthy_box) h) = Inr SSH_LOCAL_PORT" for h
    by (simp add: lima_driver_def lima_base_def lima_ssh_port_def healthy_box_def ret_def)
  show "fst (disk_image (lima_driver 0 healthy_env healthy_box) h) = Inr None" for h
    by (simp add: lima_driver_def lima_base_def) code_simp
qed (simp_all add: lima_driver_def lima_base_def ret_def)

subsection \<open>Properties\<close>

text \<open>
  C3: a \<open>yo status\<close> that exits 0, on a Linux host or a Mac, has found nothing wrong: during that run
  the host driver listed the box, the login key was on offer, the box was past its initrd and an
  account answered, and no line of the disk, of the egress table the box reported, of its network
  or of the AWS broker was a warning, while the driver found no gap in the box's configuration
  and none on the host.
\<close>

theorem quiet_status_vouches:
  assumes "D \<in> {libvirt_driver n E b, lima_driver n E b}" and "cmd_status E D b h = (Inr (), t)"
  shows "saw h t (show_status D) None \<and> saw h t (login_problem D) None
    \<and> (\<exists>stage status detail. saw h t (boot_stage E D b) stage \<and> stage \<in> {Stage2, No_Stage}
        \<and> saw h t (account_status E b) (status, detail) \<and> status \<in> {Agent_Account, Operator_Only})
    \<and> (\<exists>disk. saw h t (disk_lines E D b True) disk \<and> list_all (\<lambda>l. \<not> snd l) disk)
    \<and> (\<exists>unit_state egress net. saw h t (ssh_run E b OPERATOR EGRESS_PROBE plain) unit_state
        \<and> saw h t (egress_status_line b unit_state (ssh_run E b OPERATOR EGRESS_TABLE_PROBE plain)) egress
        \<and> \<not> snd egress \<and> saw h t (guest_network_line E D b) net \<and> \<not> snd net)
    \<and> saw h t (config_gaps D) [] \<and> saw h t (host_gaps D) []
    \<and> (\<exists>aws. saw h t (aws_lines E D b True) aws \<and> list_all (\<lambda>l. \<not> snd l) aws)"
proof -
  from assms(1) consider "D = libvirt_driver n E b" | "D = lima_driver n E b" by blast
  then show ?thesis
  proof cases
    case 1
    from assms(2) show ?thesis unfolding 1 by (rule libvirt_reports.quiet_status)
  next
    case 2
    from assms(2) show ?thesis unfolding 2 by (rule lima_reports.quiet_status)
  qed
qed

theorem quiet_status_vouches_witness:
  "\<exists>t. cmd_status healthy_env (lima_driver 0 healthy_env healthy_box) healthy_box [] = (Inr (), t)
    \<and> saw [] t (config_gaps (lima_driver 0 healthy_env healthy_box)) []"
proof -
  obtain t where run: "cmd_status healthy_env (lima_driver 0 healthy_env healthy_box) healthy_box [] = (Inr (), t)"
    using healthy_lima by blast
  have "lima_driver 0 healthy_env healthy_box
      \<in> {libvirt_driver 0 healthy_env healthy_box, lima_driver 0 healthy_env healthy_box}" by (rule insertI2 [OF singletonI])
  from quiet_status_vouches [OF this run] run show ?thesis by blast
qed

text \<open>What the kernel's answer proves of the live table: a probe that failed for another reason proves nothing.\<close>

definition table_trusted :: "completed \<Rightarrow> bool" where
  "table_trusted table \<longleftrightarrow>
     (if returncode table = 0 then egress_table_holds (stdout table) else \<not> contains (stderr table) NFT_MISSING_TABLE)"


text \<open>What the guest's helper prints for a network check.\<close>

definition net_check_text :: "net_check \<Rightarrow> string" where
  "net_check_text c =
     join_on CHR 0x0A
       [''egress='' @ (if egress_ok c then ''ok'' else ''dead''), ''gateway='' @ gateway_word (nc_gateway c),
        ''rootdisk='' @ (case nc_root_disk c of Root_Ok \<Rightarrow> ''ok'' | Root_Full \<Rightarrow> ''full'' | Not_Reported \<Rightarrow> []), []]"

text \<open>
  A network check is read back as the guest's helper printed it, and its line is no warning
  just when the internet was reached, lima's gateway answered or is blocked by design, and the
  guest's root disk is not full.
\<close>

lemma net_check_round_trip:
  "parse_net_check (net_check_text c) = Some c
   \<and> (\<not> snd (network_status_line D b c)) =
     (egress_ok c \<and> nc_gateway c \<noteq> Gateway_Dead \<and> nc_root_disk c \<noteq> Root_Full)"
proof
  have "parse_net_check (net_check_text \<lparr>egress_ok = e, nc_gateway = g, nc_root_disk = d\<rparr>)
    = Some \<lparr>egress_ok = e, nc_gateway = g, nc_root_disk = d\<rparr>" for e g d
    by (cases e; cases g; cases d) (simp; code_simp)+
  then show "parse_net_check (net_check_text c) = Some c" by (cases c) simp
  show "(\<not> snd (network_status_line D b c)) = (egress_ok c \<and> nc_gateway c \<noteq> Gateway_Dead \<and> nc_root_disk c \<noteq> Root_Full)"
    by (cases "nc_gateway c"; cases "nc_root_disk c") (auto simp: network_status_line_def line_defs)
qed

end
