(* ===== verification/Yo_Libvirt_Config.thy ===== *)
theory Yo_Libvirt_Config
  imports Yo_Libvirt
begin

text \<open>
  The ssh config of a Linux box is read back by yo's own parser: the lemmas give the value of
  each of its lines, and the theorem the endpoint the probes before the unlock get from it.
\<close>

definition tight :: "string \<Rightarrow> bool" where
  "tight v \<longleftrightarrow> v \<noteq> [] \<and> \<not> is_space (hd v) \<and> \<not> is_space (last v)"

lemma strip_tight: "tight v \<Longrightarrow> strip v = v"
proof -
  assume t: "tight v"
  then have "dropWhile is_space v = v" by (cases v) (simp_all add: tight_def)
  moreover have "dropWhile is_space (rev v) = rev v"
    using t by (cases "rev v") (auto simp: tight_def last_rev [symmetric] hd_rev)
  ultimately show ?thesis by (simp add: strip_def lstrip_by_def rstrip_by_def)
qed

lemma strip_indent: "strip (CHR '' '' # CHR '' '' # v) = strip v"
  by (simp add: strip_def lstrip_by_def is_space_def)

lemma tight_pair: "key \<noteq> [] \<Longrightarrow> \<not> is_space (hd key) \<Longrightarrow> tight v \<Longrightarrow> tight (key @ CHR '' '' # v)"
  by (auto simp: tight_def)

lemma partition_on_found: "sep \<notin> set key \<Longrightarrow> partition_on sep (key @ sep # v) = (key, True, v)"
  by (induction key) auto

lemma key_value_line:
  assumes "key \<noteq> []" and "list_all (\<lambda>c. \<not> is_space c) key" and "tight v"
  shows "key_value (''  '' @ key @ '' '' @ v) = (key, strip_char CHR 0x22 v)"
proof -
  have "CHR '' '' \<notin> set key" "\<not> is_space (hd key)"
    using assms(1,2) by (auto simp: list_all_iff is_space_def hd_in_set)
  then show ?thesis
    using assms tight_pair [of key v]
    by (simp add: key_value_def strip_indent strip_tight partition_on_found)
qed

definition unquoted :: "string \<Rightarrow> bool" where
  "unquoted p \<longleftrightarrow> p \<noteq> [] \<and> hd p \<noteq> CHR 0x22 \<and> last p \<noteq> CHR 0x22"

lemma strip_char_quoted:
  assumes "unquoted p"
  shows "strip_char CHR 0x22 (QUOTE @ p @ QUOTE) = p" "strip_char CHR 0x22 p = p"
proof -
  have 1: "dropWhile (\<lambda>d. d = CHR 0x22) (p @ s) = p @ s" for s
    using assms by (cases p) (auto simp: unquoted_def)
  have 2: "dropWhile (\<lambda>d. d = CHR 0x22) (rev p) = rev p"
    using assms by (cases "rev p") (auto simp: unquoted_def hd_rev [symmetric])
  show "strip_char CHR 0x22 (QUOTE @ p @ QUOTE) = p"
    using 1 [of "QUOTE"] 2 by (simp add: strip_char_def lstrip_by_def rstrip_by_def QUOTE_def)
  show "strip_char CHR 0x22 p = p"
    using 1 [of "[]"] 2 by (simp add: strip_char_def lstrip_by_def rstrip_by_def)
qed

lemma tight_quoted: "tight (QUOTE @ p @ QUOTE)"
  by (simp add: tight_def QUOTE_def is_space_def)

lemma splitlines_join:
  "list_all clean_line ls \<Longrightarrow> ls \<noteq> [] \<Longrightarrow> splitlines (join_on CHR 0x0A (ls @ [[]])) = ls"
proof (induction ls)
  case (Cons l ls)
  then show ?case by (cases ls) (simp_all add: splitlines_LF)
qed simp

definition scan_keys :: "string list" where
  "scan_keys = [''IdentityFile'', ''Hostname'', ''Port'', ''IdentityAgent'']"

lemma scan_line_skip: "fst (key_value l) \<notin> set scan_keys \<Longrightarrow> scan_line l s = s"
  by (cases "key_value l") (simp add: scan_line_def scan_keys_def)

lemma scan_line_inert: "list_all (\<lambda>l. fst (key_value l) \<notin> set scan_keys) ls \<Longrightarrow> l \<in> set ls \<Longrightarrow> scan_line l s = s"
  by (auto simp: list_all_iff intro: scan_line_skip)

definition config_safe :: "string \<Rightarrow> bool" where
  "config_safe s \<longleftrightarrow> clean_line s \<and> tight s \<and> unquoted s"

lemma path_join_safe:
  assumes "config_safe dir" and "config_safe name"
  shows "config_safe (path_join dir name)"
  using assms by (auto simp: config_safe_def path_join_def tight_def unquoted_def clean_line_def is_line_end_def hd_append)

lemma clean_config_lines:
  assumes "config_safe host" and "config_safe user" and "config_safe agent" and "config_safe dir"
  shows "list_all clean_line (libvirt_config_lines host port user agent dir)"
proof -
  have n: "clean_line (show_nat port)"
    using show_nat_digits [of port] by (auto simp: clean_line_def list_all_iff is_digit_def is_line_end_def)
  have q: "config_safe (path_join dir ''operator.pub'')" "config_safe (path_join dir ''ssh.sock'')"
    by (rule path_join_safe [OF assms(4)]; simp add: config_safe_def clean_line_def tight_def unquoted_def is_space_def is_line_end_def)+
  show ?thesis
    using assms n q
    by (simp add: libvirt_config_lines_def config_safe_def clean_line_def QUOTE_def LOOPBACK_def is_line_end_def)
qed

lemma show_nat_tight: "tight (show_nat n)"
proof -
  have "show_nat n \<noteq> []" "list_all is_digit (show_nat n)" using show_nat_digits [of n] by auto
  then have "is_digit (hd (show_nat n))" "is_digit (last (show_nat n))" by (auto simp: list_all_iff)
  with \<open>show_nat n \<noteq> []\<close> show ?thesis by (auto simp: tight_def is_digit_def is_space_def)
qed

lemma show_nat_unquoted: "unquoted (show_nat n)"
proof -
  have "show_nat n \<noteq> []" "list_all is_digit (show_nat n)" using show_nat_digits [of n] by auto
  then have "is_digit (hd (show_nat n))" "is_digit (last (show_nat n))" by (auto simp: list_all_iff)
  with \<open>show_nat n \<noteq> []\<close> show ?thesis by (auto simp: unquoted_def is_digit_def)
qed

lemma scan_config_lines:
  assumes "config_safe host" and "config_safe user" and "config_safe agent" and "config_safe dir"
  shows "scan_block (tl (libvirt_config_lines host port user agent dir)) =
    \<lparr>first_hostname = Some LOOPBACK, first_port = Some (show_nat port), first_agent = Some agent,
     files = [path_join dir ''operator.pub'']\<rparr>"
proof -
  have q: "unquoted (path_join dir ''operator.pub'')" "unquoted agent" "path_join dir ''operator.pub'' \<noteq> []"
    using path_join_safe [OF assms(4), of "''operator.pub''"] assms(3)
    by (auto simp: config_safe_def clean_line_def tight_def unquoted_def is_space_def is_line_end_def)
  have port: "key_value (''  Port '' @ show_nat port) = (''Port'', show_nat port)"
    using key_value_line [of "''Port''" "show_nat port"] show_nat_tight strip_char_quoted(2) [OF show_nat_unquoted]
    by (simp add: is_space_def)
  have user: "fst (key_value (''  User '' @ user)) = ''User''"
    using key_value_line [of "''User''" user] assms(2) by (simp add: is_space_def config_safe_def)
  have ag: "key_value (''  IdentityAgent '' @ QUOTE @ agent @ QUOTE) = (''IdentityAgent'', agent)"
    using key_value_line [of "''IdentityAgent''" "QUOTE @ agent @ QUOTE"] tight_quoted strip_char_quoted(1) [OF q(2)]
    by (simp add: is_space_def)
  have idf: "key_value (''  IdentityFile '' @ QUOTE @ path_join dir ''operator.pub'' @ QUOTE)
      = (''IdentityFile'', path_join dir ''operator.pub'')"
    using key_value_line [of "''IdentityFile''" "QUOTE @ path_join dir ''operator.pub'' @ QUOTE"] tight_quoted
      strip_char_quoted(1) [OF q(1)]
    by (simp add: is_space_def)
  have cp: "fst (key_value (''  ControlPath '' @ QUOTE @ path_join dir ''ssh.sock'' @ QUOTE)) = ''ControlPath''"
    using key_value_line [of "''ControlPath''" "QUOTE @ path_join dir ''ssh.sock'' @ QUOTE"] tight_quoted
    by (simp add: is_space_def)
  have block: "takeWhile in_block (tl (libvirt_config_lines host port user agent dir)) = tl (libvirt_config_lines host port user agent dir)"
    by (rule takeWhile_eq_all_conv [THEN iffD2]) (auto simp: libvirt_config_lines_def in_block_def is_space_def)
  have scans: "scan_line (''  Hostname '' @ LOOPBACK) s = s\<lparr>first_hostname := setdefault LOOPBACK (first_hostname s)\<rparr>"
    "scan_line (''  Port '' @ show_nat port) s = s\<lparr>first_port := setdefault (show_nat port) (first_port s)\<rparr>"
    "scan_line (''  User '' @ user) s = s"
    "scan_line (''  IdentityAgent '' @ QUOTE @ agent @ QUOTE) s = s\<lparr>first_agent := setdefault agent (first_agent s)\<rparr>"
    "scan_line (''  IdentityFile '' @ QUOTE @ path_join dir ''operator.pub'' @ QUOTE) s
      = s\<lparr>files := files s @ [path_join dir ''operator.pub'']\<rparr>"
    "scan_line (''  ControlPath '' @ QUOTE @ path_join dir ''ssh.sock'' @ QUOTE) s = s" for s
  proof -
    have "key_value (''  Hostname '' @ LOOPBACK) = (''Hostname'', LOOPBACK)" by code_simp
    then show "scan_line (''  Hostname '' @ LOOPBACK) s = s\<lparr>first_hostname := setdefault LOOPBACK (first_hostname s)\<rparr>"
      unfolding scan_line_def by (simp only: prod.case) simp
    show "scan_line (''  Port '' @ show_nat port) s = s\<lparr>first_port := setdefault (show_nat port) (first_port s)\<rparr>"
      unfolding scan_line_def port by simp
    show "scan_line (''  IdentityAgent '' @ QUOTE @ agent @ QUOTE) s = s\<lparr>first_agent := setdefault agent (first_agent s)\<rparr>"
      unfolding scan_line_def ag by simp
    show "scan_line (''  IdentityFile '' @ QUOTE @ path_join dir ''operator.pub'' @ QUOTE) s
        = s\<lparr>files := files s @ [path_join dir ''operator.pub'']\<rparr>"
      unfolding scan_line_def idf using q(3) by simp
  qed (rule scan_line_skip, unfold user cp, simp add: scan_keys_def)+
  let ?mid = "[''  IdentitiesOnly yes'', ''  BatchMode yes'', ''  PreferredAuthentications publickey'',
        ''  PasswordAuthentication no'', ''  KbdInteractiveAuthentication no'', ''  GSSAPIAuthentication no'',
        ''  AddKeysToAgent no'', ''  ForwardAgent no'', ''  Compression no'', ''  ControlMaster auto'']"
  let ?post = "[''  ControlPersist yes'', ''  StrictHostKeyChecking no'', ''  UserKnownHostsFile /dev/null'',
        ''  NoHostAuthenticationForLocalhost yes'']"
  have inert: "list_all (\<lambda>l. fst (key_value l) \<notin> set scan_keys) ?mid" "list_all (\<lambda>l. fst (key_value l) \<notin> set scan_keys) ?post"
    by code_simp+
  show ?thesis
    unfolding scan_block_def block no_scan_def
    unfolding libvirt_config_lines_def list.sel(3)
    by (simp only: fold_simps scans scan_line_inert [OF inert(1)] scan_line_inert [OF inert(2)] list.set insert_iff simp_thms) (simp add: setdefault_def)
qed

lemma lines_after_first: "tight host \<Longrightarrow> lines_after_host host ((''Host '' @ host) # ls) = Some ls"
  using strip_tight [OF tight_pair [of "''Host''" host]] by (simp add: is_space_def)

subsection \<open>Properties\<close>

text \<open>
  C20: the ssh config yo writes for a Linux box and the parser yo reads it with agree: for a host
  name, an account and paths that a config line can hold, the parsed block is the loopback
  address, the port of the box, the operator's key and its agent, whatever the port.
\<close>

theorem libvirt_config_round_trip:
  assumes "config_safe host" and "config_safe user" and "config_safe agent" and "config_safe dir"
  shows "parse_ssh_host_block (libvirt_ssh_config host port user agent dir) host =
    Some \<lparr>hb_hostname = LOOPBACK, hb_port = show_nat port, hb_identity_files = [path_join dir ''operator.pub''],
          hb_identity_agent = Some agent\<rparr>"
proof -
  have ls: "libvirt_config_lines host port user agent dir = (''Host '' @ host) # tl (libvirt_config_lines host port user agent dir)"
    by (simp only: libvirt_config_lines_def list.sel)
  have "splitlines (libvirt_ssh_config host port user agent dir) = libvirt_config_lines host port user agent dir"
    unfolding libvirt_ssh_config_def
    by (rule splitlines_join [OF clean_config_lines [OF assms]]) (simp add: libvirt_config_lines_def)
  moreover have "lines_after_host host (libvirt_config_lines host port user agent dir) = Some (tl (libvirt_config_lines host port user agent dir))"
    using lines_after_first [of host] ls assms(1) by (metis config_safe_def)
  moreover have "show_nat port \<noteq> []" using show_nat_tight by (simp add: tight_def)
  ultimately show ?thesis
    using assms(3) scan_config_lines [OF assms]
    by (simp add: parse_ssh_host_block_def non_empty_def config_safe_def tight_def LOOPBACK_def)
qed

theorem libvirt_config_round_trip_witness:
  "parse_ssh_host_block (libvirt_ssh_config ''lima-work'' 49153 ''me'' ''/home/me/a b.sock'' ''/home/me/work'') ''lima-work'' =
    Some \<lparr>hb_hostname = LOOPBACK, hb_port = show_nat 49153, hb_identity_files = [path_join ''/home/me/work'' ''operator.pub''],
          hb_identity_agent = Some ''/home/me/a b.sock''\<rparr>"
proof -
  have "config_safe ''lima-work''" "config_safe ''me''" "config_safe ''/home/me/a b.sock''" "config_safe ''/home/me/work''"
    by code_simp+
  then show ?thesis by (rule libvirt_config_round_trip)
qed

end
