(* ===== verification/Yo_Paths.thy ===== *)
theory Yo_Paths
  imports Yo_Guest
begin

text \<open>
  \<open>yolobox_cli/paths.py\<close>: which guest paths a command may name, and how the host's working
  directory maps onto the guest's home. \<open>normpath\<close> is Python's \<open>posixpath.normpath\<close>. The
  locale \<open>confinement\<close> is the contract of a check that accepts a path: what it accepts is
  inside, and accepting it again changes nothing.
\<close>

subsection \<open>\<open>posixpath\<close>\<close>

definition components :: "string \<Rightarrow> string list" where
  "components p = split_on CHR ''/'' p"

text \<open>One step of \<open>normpath\<close>'s loop; the accumulator is in reverse.\<close>

definition norm_step :: "bool \<Rightarrow> string \<Rightarrow> string list \<Rightarrow> string list" where
  "norm_step rooted part acc =
     (if part = [] \<or> part = ''.'' then acc
      else if part \<noteq> ''..'' \<or> (\<not> rooted \<and> acc = []) \<or> (acc \<noteq> [] \<and> hd acc = ''..'') then part # acc
      else if acc \<noteq> [] then tl acc
      else acc)"

definition initial_slashes :: "string \<Rightarrow> nat" where
  "initial_slashes p =
     (if \<not> startswith p ''/'' then 0
      else if startswith p ''//'' \<and> \<not> startswith p ''///'' then 2
      else 1)"

definition normpath :: "string \<Rightarrow> string" where
  "normpath p =
     (if p = [] then ''.''
      else
        (let slashes = initial_slashes p;
             comps = rev (fold (norm_step (0 < slashes)) (components p) []);
             q = replicate slashes CHR ''/'' @ join_on CHR ''/'' comps
         in if q = [] then ''.'' else q))"

text \<open>\<open>posixpath.dirname\<close> and \<open>posixpath.basename\<close>.\<close>

definition basename :: "string \<Rightarrow> string" where
  "basename p = last (split_on CHR ''/'' p)"

definition dirname :: "string \<Rightarrow> string" where
  "dirname p =
     (let head = take (length p - length (basename p)) p
      in if list_all (\<lambda>c. c = CHR ''/'') head then head else rstrip_char CHR ''/'' head)"

subsection \<open>Guest paths\<close>

definition under_root :: "string \<Rightarrow> string \<Rightarrow> bool" where
  "under_root base p \<longleftrightarrow> p = base \<or> startswith p (base @ ''/'')"

definition guest_path :: "string \<Rightarrow> string list \<Rightarrow> exn + string" where
  "guest_path path roots =
     (if CHR 0x00 \<in> set path \<or> CHR 0x0A \<in> set path
      then Inl (YoError ''refusing a guest path with a newline or NUL byte'' [])
      else
        (let normalised = normpath path in
         if \<not> list_ex (\<lambda>base. under_root base normalised) roots
         then (if roots = [AGENT_HOME]
               then Inl (YoError ''refusing to target: no yo command may leave the guest home''
                           [shown path, AGENT_HOME])
               else Inl (YoError ''refusing to target: outside the guest paths this command may use''
                           (shown path # roots)))
         else Inr normalised))"

subsection \<open>The working directory\<close>

text \<open>
  \<open>logical_cwd\<close>: \<open>$PWD\<close> when it is absolute and names the working directory; \<open>samefile\<close> is
  \<open>os.path.samefile\<close>, none when it raises.
\<close>

definition logical_cwd :: "string \<Rightarrow> string \<Rightarrow> (string \<Rightarrow> string \<Rightarrow> bool option) \<Rightarrow> string" where
  "logical_cwd pwd_env cwd samefile =
     (if startswith pwd_env ''/'' \<and> samefile pwd_env cwd = Some True then pwd_env else cwd)"

text \<open>\<open>mirror\<close>; \<open>realpath\<close> is \<open>os.path.realpath\<close>.\<close>

fun mirror_under :: "string list \<Rightarrow> string \<Rightarrow> string option" where
  "mirror_under [] mac_path = None"
| "mirror_under (host # hosts) mac_path =
     (if mac_path = host then Some AGENT_HOME
      else if startswith mac_path (host @ ''/'')
      then Some (AGENT_HOME @ ''/'' @ drop (length host + 1) mac_path)
      else mirror_under hosts mac_path)"

definition mirror :: "env \<Rightarrow> (string \<Rightarrow> string) \<Rightarrow> string \<Rightarrow> string option" where
  "mirror E realpath mac_path =
     mirror_under
       (fromkeys [rstrip_char CHR ''/'' (env_home E), rstrip_char CHR ''/'' (realpath (env_home E))])
       mac_path"

definition missing_path_note :: "string \<Rightarrow> string \<Rightarrow> unit io" where
  "missing_path_note path landing =
     warn ''path does not exist in the yolobox you are in'' [shown path, shown landing]"

definition dir_for_cwd :: "env \<Rightarrow> box \<Rightarrow> (string \<Rightarrow> string) \<Rightarrow> string \<Rightarrow> string io" where
  "dir_for_cwd E b realpath cwd =
     (case mirror E realpath cwd of
        None \<Rightarrow> sq (missing_path_note cwd AGENT_HOME) (ret AGENT_HOME)
      | Some desired \<Rightarrow>
          bnd (guest_helper E b AGENT ''landing-dir'' [desired] False plain) (\<lambda>c.
          bnd (lift (guest_helper_check c ''landing-dir'')) (\<lambda>ok.
          bnd (lift (guest_path (strip_char CHR 0x0A (stdout ok)) [AGENT_HOME])) (\<lambda>landing.
          sq (when_do (landing \<noteq> desired) (missing_path_note desired landing))
             (ret landing)))))"

subsection \<open>What \<open>normpath\<close> gives\<close>

definition clean_component :: "string \<Rightarrow> bool" where
  "clean_component c \<longleftrightarrow> c \<noteq> [] \<and> c \<noteq> ''.'' \<and> c \<noteq> ''..'' \<and> CHR ''/'' \<notin> set c"

text \<open>A clean path is \<open>/\<close> followed by clean components with one slash between two of them.\<close>

definition clean_path :: "string \<Rightarrow> bool" where
  "clean_path p \<longleftrightarrow> (\<exists>cs. cs \<noteq> [] \<and> p = CHR ''/'' # join_on CHR ''/'' cs \<and> list_all clean_component cs)"

lemma components_free: "\<forall>x \<in> set (components p). CHR ''/'' \<notin> set x"
  unfolding components_def by (rule split_on_no_sep)

lemma norm_step_clean:
  "CHR ''/'' \<notin> set part \<Longrightarrow> list_all clean_component acc \<Longrightarrow> list_all clean_component (norm_step True part acc)"
  by (cases acc) (auto simp: norm_step_def clean_component_def)

lemma norm_fold_clean:
  "\<forall>c \<in> set cs. CHR ''/'' \<notin> set c \<Longrightarrow> list_all clean_component acc \<Longrightarrow>
   list_all clean_component (fold (norm_step True) cs acc)"
  by (induction cs arbitrary: acc) (auto simp: norm_step_clean)

lemma norm_step_keeps: "clean_component c \<Longrightarrow> norm_step r c acc = c # acc"
  by (simp add: norm_step_def clean_component_def)

lemma norm_fold_keeps: "list_all clean_component cs \<Longrightarrow> fold (norm_step r) cs acc = rev cs @ acc"
  by (induction cs arbitrary: acc) (auto simp: norm_step_keeps)

lemma components_rooted:
  assumes "list_all clean_component cs" and "cs \<noteq> []"
  shows "components (CHR ''/'' # join_on CHR ''/'' cs) = [] # cs"
proof -
  have "split_on CHR ''/'' (join_on CHR ''/'' cs) = cs"
    using assms by (intro split_join_on) (auto simp: list_all_iff clean_component_def)
  then show ?thesis by (simp add: components_def)
qed

lemma join_head:
  assumes "list_all clean_component cs" and "cs \<noteq> []"
  obtains c r where "join_on CHR ''/'' cs = c # r" "c \<noteq> CHR ''/''"
proof -
  from assms obtain d ds where cs: "cs = d # ds" "clean_component d" by (cases cs) auto
  then obtain c e where "d = c # e" "c \<noteq> CHR ''/''"
    by (cases d) (auto simp: clean_component_def)
  with cs that show thesis by (cases ds) auto
qed

lemma initial_slashes_clean:
  assumes "list_all clean_component cs" and "cs \<noteq> []"
  shows "initial_slashes (CHR ''/'' # join_on CHR ''/'' cs) = 1"
  using assms by (rule join_head) (simp add: initial_slashes_def startswith_def)

lemma normpath_clean: "clean_path p \<Longrightarrow> normpath p = p"
proof -
  assume "clean_path p"
  then obtain cs where cs: "cs \<noteq> []" "p = CHR ''/'' # join_on CHR ''/'' cs" "list_all clean_component cs"
    by (auto simp: clean_path_def)
  have "fold (norm_step True) (components p) [] = rev cs"
    using cs by (simp add: components_rooted norm_fold_keeps norm_step_def)
  with cs initial_slashes_clean [OF cs(3,1)] show ?thesis
    by (simp add: normpath_def Let_def)
qed

lemma norm_fold_slash_free:
  "\<forall>x \<in> set xs. CHR ''/'' \<notin> set x \<Longrightarrow> \<forall>x \<in> set acc. CHR ''/'' \<notin> set x \<and> x \<noteq> [] \<Longrightarrow>
   x \<in> set (fold (norm_step r) xs acc) \<Longrightarrow> CHR ''/'' \<notin> set x \<and> x \<noteq> []"
proof (induction xs arbitrary: acc)
  case (Cons y xs)
  have "\<forall>x \<in> set (norm_step r y acc). CHR ''/'' \<notin> set x \<and> x \<noteq> []"
    using Cons.prems by (cases acc) (auto simp: norm_step_def)
  with Cons show ?case by simp
qed simp

lemma join_on_hd:
  assumes "\<forall>x \<in> set cs. CHR ''/'' \<notin> set x \<and> x \<noteq> []"
  shows "join_on CHR ''/'' cs \<noteq> CHR ''/'' # r"
proof (cases cs)
  case (Cons d ds)
  with assms obtain c e where "d = c # e" "c \<noteq> CHR ''/''" by (cases d) auto
  with Cons show ?thesis by (cases ds) auto
qed simp

lemma normpath_rooted:
  assumes "normpath p = CHR ''/'' # c # q" and "c \<noteq> CHR ''/''"
  shows "clean_path (normpath p)"
proof -
  let ?n = "initial_slashes p"
  let ?cs = "rev (fold (norm_step (0 < ?n)) (components p) [])"
  from assms(1) have p: "p \<noteq> []" by (auto simp: normpath_def)
  with assms(1) have q: "replicate ?n CHR ''/'' @ join_on CHR ''/'' ?cs = CHR ''/'' # c # q"
    by (auto simp: normpath_def Let_def split: if_splits)
  have free: "\<forall>x \<in> set ?cs. CHR ''/'' \<notin> set x \<and> x \<noteq> []"
    using norm_fold_slash_free [OF components_free, of "[]"] by simp
  have "?n \<noteq> 0"
    using q join_on_hd [OF free] by (cases "?n = 0") auto
  then have one: "?n = 1"
    using q assms(2) by (auto simp: initial_slashes_def numeral_2_eq_2 split: if_splits)
  have "list_all clean_component ?cs"
    using norm_fold_clean [OF components_free, of "[]"] one by simp
  moreover from q one have "?cs \<noteq> []" by auto
  ultimately show ?thesis
    unfolding clean_path_def assms(1) using q one by (intro exI [of _ ?cs]) simp
qed

subsection \<open>Confinement\<close>

locale confinement =
  fixes accept :: "string \<Rightarrow> exn + string" and inside :: "string \<Rightarrow> bool"
  assumes accept_inside: "accept p = Inr q \<Longrightarrow> inside q"
    and accept_again: "accept p = Inr q \<Longrightarrow> accept q = Inr q"
begin

lemma idem: "accept p = Inr q \<Longrightarrow> accept q = Inr r \<Longrightarrow> q = r"
  using accept_again by fastforce

lemma outside_refused: "\<not> inside p \<Longrightarrow> accept p \<noteq> Inr p"
  using accept_inside by blast

end

text \<open>Inside a root: the root itself, or a clean path that continues it.\<close>

definition inside_roots :: "string list \<Rightarrow> string \<Rightarrow> bool" where
  "inside_roots roots p \<longleftrightarrow> clean_path p \<and> list_ex (\<lambda>base. under_root base p) roots"

lemma guest_path_Inr:
  "guest_path p roots = Inr q \<longleftrightarrow>
     CHR 0x00 \<notin> set p \<and> CHR 0x0A \<notin> set p \<and> q = normpath p \<and> list_ex (\<lambda>base. under_root base q) roots"
  by (auto simp: guest_path_def Let_def)

definition plain_root :: "string \<Rightarrow> bool" where
  "plain_root base \<longleftrightarrow> clean_path base"

lemma clean_path_start:
  assumes "clean_path base"
  obtains c r where "base = CHR ''/'' # c # r" "c \<noteq> CHR ''/''"
  using assms join_head by (metis clean_path_def)

lemma guest_path_inside:
  assumes "list_all clean_path roots" and "guest_path p roots = Inr q"
  shows "inside_roots roots q"
proof -
  from assms(2) have q: "q = normpath p" and ex: "list_ex (\<lambda>base. under_root base q) roots"
    by (auto simp: guest_path_Inr)
  from ex obtain base where base: "base \<in> set roots" "under_root base q" by (auto simp: list_ex_iff)
  with assms(1) have "clean_path base" by (auto simp: list_all_iff)
  then obtain c r where "base = CHR ''/'' # c # r" "c \<noteq> CHR ''/''" by (rule clean_path_start)
  with base(2) obtain r' where "q = CHR ''/'' # c # r'" "c \<noteq> CHR ''/''"
    by (auto simp: under_root_def startswith_iff)
  then have "clean_path q" using normpath_rooted q by metis
  with ex show ?thesis by (simp add: inside_roots_def)
qed

lemma set_normpath: "set (normpath p) \<subseteq> set p \<union> {CHR ''.'', CHR ''/''}"
proof -
  have step: "\<Union> (set ` set (fold (norm_step r) cs acc)) \<subseteq> \<Union> (set ` set cs) \<union> \<Union> (set ` set acc)" for r cs acc
  proof (induction cs arbitrary: acc)
    case (Cons c cs)
    have "\<Union> (set ` set (norm_step r c acc)) \<subseteq> set c \<union> \<Union> (set ` set acc)"
      by (cases acc) (auto simp: norm_step_def)
    with Cons show ?case by fastforce
  qed simp
  have "\<Union> (set ` set (components p)) \<subseteq> set p"
    using set_split_on by (fastforce simp: components_def)
  with step [of "0 < initial_slashes p" "components p" "[]"]
  have "\<Union> (set ` set (rev (fold (norm_step (0 < initial_slashes p)) (components p) []))) \<subseteq> set p"
    by simp
  with set_join_on [of "CHR ''/''" "rev (fold (norm_step (0 < initial_slashes p)) (components p) [])"]
  have "set (join_on CHR ''/'' (rev (fold (norm_step (0 < initial_slashes p)) (components p) [])))
      \<subseteq> set p \<union> {CHR ''/''}" by blast
  then show ?thesis by (auto simp: normpath_def Let_def)
qed

lemma guest_path_again:
  assumes "list_all clean_path roots" and "guest_path p roots = Inr q"
  shows "guest_path q roots = Inr q"
proof -
  from guest_path_inside [OF assms] have "clean_path q" "list_ex (\<lambda>base. under_root base q) roots"
    by (auto simp: inside_roots_def)
  moreover have "CHR 0x00 \<notin> set q" "CHR 0x0A \<notin> set q"
    using assms(2) set_normpath [of p] by (auto simp: guest_path_Inr)
  ultimately show ?thesis by (simp add: guest_path_Inr normpath_clean)
qed

lemma clean_AGENT_HOME: "clean_path AGENT_HOME"
  unfolding clean_path_def AGENT_HOME_def
  by (intro exI [of _ "[''home'', ''agent'']"]) (simp add: clean_component_def)

interpretation guest_home: confinement "\<lambda>p. guest_path p [AGENT_HOME]" "inside_roots [AGENT_HOME]"
  by unfold_locales (auto intro!: guest_path_inside guest_path_again simp: clean_AGENT_HOME)

text \<open>The directory a command of the user's starts in is always inside the agent's home.\<close>

lemma dir_for_cwd_inside:
  assumes "dir_for_cwd E b realpath cwd h = (Inr d, t)"
  shows "inside_roots [AGENT_HOME] d"
proof (cases "mirror E realpath cwd")
  case None
  with assms have "d = AGENT_HOME"
    by (auto simp: dir_for_cwd_def ret_def elim!: bnd_InrE)
  then show ?thesis by (simp add: inside_roots_def clean_AGENT_HOME under_root_def)
next
  case (Some desired)
  with assms obtain s where "guest_path s [AGENT_HOME] = Inr d"
    by (auto simp: dir_for_cwd_def ret_def lift_def elim!: bnd_InrE)
  then show ?thesis by (rule guest_home.accept_inside)
qed

text \<open>A host path is mirrored below the agent's home, and the part below stays as it was spelled.\<close>

lemma mirror_under_Some:
  assumes "mirror_under hosts p = Some q"
  obtains "q = AGENT_HOME" "p \<in> set hosts"
  | host rest where "host \<in> set hosts" "p = host @ ''/'' @ rest" "q = AGENT_HOME @ ''/'' @ rest"
  using assms by (induction hosts) (auto simp: startswith_iff split: if_splits)

lemma mirror_under_root: "mirror E realpath p = Some q \<Longrightarrow> under_root AGENT_HOME q"
  unfolding mirror_def
  by (erule mirror_under_Some) (simp_all add: under_root_def startswith_iff)

subsection \<open>Properties\<close>

text \<open>
  C34: a guest path yo accepts is a normal absolute path inside one of the allowed roots, holds
  no NUL and no newline, and is accepted again as it is.
\<close>

theorem accepted_guest_path_is_confined:
  assumes "list_all clean_path roots" and "guest_path p roots = Inr q"
  shows "inside_roots roots q \<and> CHR 0x00 \<notin> set q \<and> CHR 0x0A \<notin> set q \<and> guest_path q roots = Inr q"
proof -
  from assms(2) have "CHR 0x00 \<notin> set p" "CHR 0x0A \<notin> set p" "q = normpath p"
    by (auto simp: guest_path_Inr)
  then have "CHR 0x00 \<notin> set q" "CHR 0x0A \<notin> set q" using set_normpath [of p] by auto
  with assms guest_path_inside guest_path_again show ?thesis by blast
qed

theorem accepted_guest_path_is_confined_witness:
  "inside_roots [AGENT_HOME] ''/home/agent/b''"
proof -
  have "list_all clean_path [AGENT_HOME]" using clean_AGENT_HOME by simp
  moreover have "guest_path ''/home/agent/a/../b'' [AGENT_HOME] = Inr ''/home/agent/b''" by code_simp
  ultimately show ?thesis by (rule accepted_guest_path_is_confined [THEN conjunct1])
qed

end
