(* ===== verification/Yo_Session.thy ===== *)
theory Yo_Session
  imports Yo_Vm Yo_Paths
begin

text \<open>
  The interactive commands of \<open>session.py\<close>: \<open>ssh\<close>, \<open>enter\<close>, \<open>code\<close>, \<open>zed\<close>, \<open>port\<close> and
  \<open>aws-check\<close>, and the choice of the guest directory they open. The lemmas show that the
  directory is always inside the agent's home, that the shell text of \<open>enter\<close> and the URI of an
  editor are read back as that directory, and what each command may leave in the history.
\<close>

subsection \<open>Where yo was started\<close>

text \<open>
  What \<open>os.path.realpath\<close>, \<open>os.path.dirname\<close>, \<open>tempfile.mkdtemp\<close>, \<open>$PWD\<close>, \<open>os.getcwd()\<close> and
  \<open>os.path.samefile\<close> give in this run.
\<close>

record place =
  place_realpath :: "string \<Rightarrow> string"
  place_dirname :: "string \<Rightarrow> string"
  place_mkdtemp :: "string \<Rightarrow> string"
  place_pwd :: string
  place_getcwd :: string
  place_samefile :: "string \<Rightarrow> string \<Rightarrow> bool option"

definition logical_cwd_of :: "place \<Rightarrow> string" where
  "logical_cwd_of P = logical_cwd (place_pwd P) (place_getcwd P) (place_samefile P)"

subsection \<open>Picking a project\<close>

definition FZF_NO_MATCH :: int where "FZF_NO_MATCH = 1"
definition FZF_CANCELLED :: int where "FZF_CANCELLED = 130"

text \<open>\<open>str.encode()\<close> of a text of code points below 256: UTF-8.\<close>

definition utf8_char :: "char \<Rightarrow> string" where
  "utf8_char c =
     (let n = (of_char c :: nat) in
      if n < 128 then [c] else [char_of (192 + n div 64), char_of (128 + n mod 64)])"

definition utf8 :: "string \<Rightarrow> string" where
  "utf8 s = concat (map utf8_char s)"

text \<open>The projects the guest's helper lists, as fzf is to draw them.\<close>

definition project_names :: "string list \<Rightarrow> string list" where
  "project_names listing =
     (let home = AGENT_HOME @ ''/'' in
      map sanitize (sorted_names (map (drop (length home)) (filter (\<lambda>e. startswith e home) listing))))"

definition fzf_argv :: "string \<Rightarrow> string list" where
  "fzf_argv query = [''fzf'', ''--read0'', ''--print0'', ''--select-1'', ''--exit-0'', ''--query='' @ query]"

text \<open>\<open>subprocess.run([...], input=..., stdout=PIPE)\<close>: a missing fzf raises an \<open>OSError\<close>.\<close>

definition run_fzf :: "env \<Rightarrow> string \<Rightarrow> string list \<Rightarrow> (int \<times> string) io" where
  "run_fzf E query projects =
     (let input = Some (utf8 (join_on CHR 0x00 projects)) in
      bnd (reads (\<lambda>h. proc_ans E h (fzf_argv query) input)) (\<lambda>ans.
      case ans of
        Not_On_Path \<Rightarrow> raise (OsError NO_SUCH_FILE)
      | Finished code out err \<Rightarrow> sq (emit (Ran (fzf_argv query) input)) (ret (code, out))))"

definition pick_project :: "env \<Rightarrow> box \<Rightarrow> string \<Rightarrow> string io" where
  "pick_project E b query =
     sq (require_tool_on E ''fzf'' ''brew install fzf'')
     (bnd (agent_paths E b ''projects'' [] False) (\<lambda>listing.
      let projects = project_names listing in
      if projects = [] then raise (YoError ''no projects in the VM'' [])
      else
        bnd (run_fzf E query projects) (\<lambda>(code, out).
        if code = FZF_NO_MATCH then sq (warn ''yo: no project matches'' [query]) (raise (YoExit code))
        else if code = FZF_CANCELLED then raise (YoExit code)
        else if code \<noteq> 0 then raise (YoError ''fzf failed'' [show_int code])
        else lift (guest_path (AGENT_HOME @ ''/'' @ rstrip_char CHR 0x00 (decode_replace out)) [AGENT_HOME]))))"

definition target_dir :: "env \<Rightarrow> box \<Rightarrow> place \<Rightarrow> string option \<Rightarrow> string io" where
  "target_dir E b P project =
     (case project of
        Some query \<Rightarrow> pick_project E b query
      | None \<Rightarrow> dir_for_cwd E b (place_realpath P) (logical_cwd_of P))"

subsection \<open>Shells\<close>

definition on_terminal :: "env \<Rightarrow> bool" where
  "on_terminal E \<longleftrightarrow> env_tty E \<and> env_stdout_tty E"

definition cmd_ssh :: "env \<Rightarrow> driver \<Rightarrow> box \<Rightarrow> string list \<Rightarrow> unit io" where
  "cmd_ssh E D b ssh_cmd =
     bnd (ssh_argv E b OPERATOR
            (forward_agent_opts D @ (if on_terminal E then [''-t''] else []) @ [vm_host b] @ ssh_cmd) False)
       (exec_process E)"

text \<open>The text the agent's shell is given by \<open>enter\<close>.\<close>

definition enter_shell :: "string \<Rightarrow> string" where
  "enter_shell target = shlex_join [''cd'', target] @ '' && exec '' @ [CHR 0x22] @ ''$SHELL'' @ [CHR 0x22] @ '' -l''"

definition cmd_enter :: "env \<Rightarrow> box \<Rightarrow> place \<Rightarrow> string option \<Rightarrow> unit io" where
  "cmd_enter E b P project =
     (if \<not> on_terminal E
      then raise (YoError ''opens an interactive shell, and stdin or stdout is not a terminal'' [yo_cmd b [''enter'']])
      else
        sq (require_agent_account E b)
        (sq (when_do (env_in_herdr E) (warn ''yo: an agent started in this shell is invisible to herdr'' []))
        (bnd (target_dir E b P project) (\<lambda>target.
         bnd (ssh_argv E b AGENT [''-t'', vm_host b, enter_shell target] False) (exec_process E)))))"

subsection \<open>Editors\<close>

text \<open>
  \<open>urllib.parse.quote(path, safe="/")\<close>: the unreserved characters stay, every other byte of the
  UTF-8 text is written with its code.
\<close>

definition uri_safe :: "char \<Rightarrow> bool" where
  "uri_safe c \<longleftrightarrow> is_alnum c \<or> c \<in> set ''_.-~/''"

definition high_hex :: "nat \<Rightarrow> char" where
  "high_hex n = char_of (if n < 10 then n + 48 else n + 55)"

definition uri_byte :: "char \<Rightarrow> string" where
  "uri_byte c =
     (let n = (of_char c :: nat) in if uri_safe c then [c] else [CHR ''%'', high_hex (n div 16), high_hex (n mod 16)])"

definition editor_uri_path :: "string \<Rightarrow> string" where
  "editor_uri_path guest_dir = concat (map uri_byte (utf8 guest_dir))"

text \<open>The agent's account on the box's ssh host, and the path.\<close>

definition VSCODE_SCHEME :: string where "VSCODE_SCHEME = ''vscode-remote://ssh-remote+''"
definition ZED_SCHEME :: string where "ZED_SCHEME = ''ssh://''"

definition editor_uri :: "string \<Rightarrow> box \<Rightarrow> string \<Rightarrow> string" where
  "editor_uri scheme b target = scheme @ AGENT_USER @ ''@'' @ vm_host b @ editor_uri_path target"

definition VSCODE_APP_CLI :: string where
  "VSCODE_APP_CLI = ''/Applications/Visual Studio Code.app/Contents/Resources/app/bin/code''"

definition editor_target :: "env \<Rightarrow> box \<Rightarrow> place \<Rightarrow> string option \<Rightarrow> string io" where
  "editor_target E b P project =
     sq (ensure_ssh_config_include (place_realpath P) (place_dirname P) E b True)
     (sq (require_agent_account E b) (target_dir E b P project))"

definition cmd_code :: "env \<Rightarrow> box \<Rightarrow> place \<Rightarrow> string option \<Rightarrow> unit io" where
  "cmd_code E b P project =
     bnd (which E ''code'') (\<lambda>found.
     let code_cli = or_else found VSCODE_APP_CLI in
     bnd (reads (\<lambda>h. may_run E h code_cli)) (\<lambda>runs.
     if \<not> runs then raise (YoError ''VS Code CLI not found'' [])
     else
       bnd (editor_target E b P project) (\<lambda>target.
       exec_process E [code_cli, ''--folder-uri'', editor_uri VSCODE_SCHEME b target])))"

definition cmd_zed :: "env \<Rightarrow> box \<Rightarrow> place \<Rightarrow> string option \<Rightarrow> unit io" where
  "cmd_zed E b P project =
     bnd (which E ''zed'') (\<lambda>found.
     if found = None then raise (YoError ''zed CLI not found'' [])
     else
       bnd (editor_target E b P project) (\<lambda>target.
       exec_process E [''zed'', editor_uri ZED_SCHEME b target]))"

subsection \<open>The AWS check and a forwarded port\<close>

definition cmd_aws_check :: "env \<Rightarrow> driver \<Rightarrow> box \<Rightarrow> unit io" where
  "cmd_aws_check E D b =
     bnd (vm_units_present E b) (\<lambda>present.
     if \<not> present then raise (YoError (fst (units_missing_note b)) (snd (units_missing_note b)))
     else
       bnd (ensure_aws_broker E D b) (\<lambda>runs.
       if \<not> runs then raise (YoError ''AWS is disabled on this host: nothing to check'' [])
       else
         bnd (heal_reverse_forward E b (aws_broker_forward E)) (\<lambda>up.
         if \<not> up
         then raise (YoError ''the aws-broker forward into the VM is still dead after re-issuing it'' [stop_command D, yo_cmd b [''up'']])
         else
           bnd (guest_helper E b AGENT ''aws-check'' [] True plain) (\<lambda>c.
           if returncode c \<noteq> 0 then raise (YoExit (returncode c)) else ret ()))))"

definition cmd_port :: "driver \<Rightarrow> nat \<Rightarrow> unit io" where
  "cmd_port D guest_port =
     bnd (forward_port D guest_port) (\<lambda>port. say (LOOPBACK @ '':'' @ show_nat port) [])"

subsection \<open>Where the commands lead\<close>

lemma pick_project_inside:
  assumes "pick_project E b query h = (Inr d, t)"
  shows "inside_roots [AGENT_HOME] d"
proof -
  from assms obtain s where "guest_path s [AGENT_HOME] = Inr d"
    unfolding pick_project_def
    by (auto simp: Let_def ret_def raise_def lift_def elim!: bnd_InrE split: if_splits prod.splits)
  then show ?thesis by (rule guest_home.accept_inside)
qed

lemma target_dir_inside: "target_dir E b P project h = (Inr d, t) \<Longrightarrow> inside_roots [AGENT_HOME] d"
  by (cases project) (auto simp: target_dir_def intro: dir_for_cwd_inside pick_project_inside)

lemma exec_process_Inr: "exec_process E argv h = (Inr x, t) \<Longrightarrow> t = h @ [Execed argv]"
  by (auto simp: exec_process_def emit_def modifies_def raise_def reads_def bnd_def split: option.splits if_splits)

lemma editor_target_inside: "editor_target E b P project h = (Inr d, t) \<Longrightarrow> inside_roots [AGENT_HOME] d"
  unfolding editor_target_def by (auto elim!: bnd_InrE intro: target_dir_inside)

text \<open>
  An editor reads the path of its URI back by replacing each \<open>%XX\<close>; what is left are the bytes of
  the path's UTF-8 text.
\<close>

definition hex_value :: "char \<Rightarrow> nat option" where
  "hex_value c =
     (let n = (of_char c :: nat) in
      if 48 \<le> n \<and> n \<le> 57 then Some (n - 48) else if 65 \<le> n \<and> n \<le> 70 then Some (n - 55)
      else if 97 \<le> n \<and> n \<le> 102 then Some (n - 87) else None)"

fun uri_decode :: "string \<Rightarrow> string option" where
  "uri_decode [] = Some []"
| "uri_decode (c # s) =
     (if c = CHR ''%'' then
        (case s of
           a # b # r \<Rightarrow>
             (case (hex_value a, hex_value b) of
                (Some m, Some n) \<Rightarrow> map_option ((#) (char_of (m * 16 + n))) (uri_decode r)
              | _ \<Rightarrow> None)
         | _ \<Rightarrow> None)
      else map_option ((#) c) (uri_decode s))"

definition uri_plain :: "char \<Rightarrow> bool" where
  "uri_plain c \<longleftrightarrow> uri_safe c \<or> c = CHR ''%''"

lemma hex_value_high_hex: "n < 16 \<Longrightarrow> hex_value (high_hex n) = Some n"
  by (simp add: hex_value_def high_hex_def)

lemma uri_safe_percent: "uri_safe c \<Longrightarrow> c \<noteq> CHR ''%''"
  by (auto simp: uri_safe_def char_class_defs)

lemma byte_halves: "(of_char (c :: char) :: nat) div 16 < 16" "(of_char (c :: char) :: nat) mod 16 < 16"
proof -
  have "(of_char c :: nat) < 256" by simp
  then show "(of_char c :: nat) div 16 < 16" by (simp add: less_mult_imp_div_less)
qed simp

lemma uri_decode_byte: "uri_decode (uri_byte c @ s) = map_option ((#) c) (uri_decode s)"
  using byte_halves [of c] by (simp add: uri_byte_def Let_def uri_safe_percent hex_value_high_hex)

lemma high_hex_safe: "n < 16 \<Longrightarrow> uri_safe (high_hex n)"
  by (auto simp: uri_safe_def high_hex_def is_alnum_def is_digit_def is_upper_def is_lower_def)

lemma uri_byte_plain: "list_all uri_plain (uri_byte c)"
  using byte_halves [of c] by (simp add: uri_byte_def Let_def uri_plain_def high_hex_safe)

lemma uri_decode_bytes: "uri_decode (concat (map uri_byte s)) = Some s"
  by (induction s) (simp_all add: uri_decode_byte)


fun utf8_read :: "string \<Rightarrow> string" where
  "utf8_read (c # d # s) =
     (if (of_char c :: nat) < 128 then c # utf8_read (d # s)
      else char_of ((of_char c - 192) * 64 + (of_char d - 128 :: nat)) # utf8_read s)"
| "utf8_read s = s"

lemma utf8_read_char: "utf8_read (utf8_char c @ s) = c # utf8_read s"
proof (cases "(of_char c :: nat) < 128")
  case True
  then show ?thesis by (cases s) (simp_all add: utf8_char_def)
next
  case False
  have byte: "(of_char c :: nat) < 256" by simp
  then have "(of_char c :: nat) div 64 < 4" by (simp add: less_mult_imp_div_less)
  moreover have "char_of ((of_char c :: nat) div 64 * 64 + of_char c mod 64) = c"
    by (simp only: div_mult_mod_eq char_of_char)
  ultimately show ?thesis using False by (simp add: utf8_char_def Let_def)
qed

lemma utf8_read_utf8: "utf8_read (utf8 s) = s"
  by (induction s) (simp_all add: utf8_def utf8_read_char)

text \<open>
  What the last argument of a session command leads to: the agent's shell reads the words
  \<open>cd\<close> and the directory before it becomes a login shell, and an editor the directory's path after
  the box's ssh host.
\<close>

definition leads_to :: "box \<Rightarrow> string \<Rightarrow> string \<Rightarrow> bool" where
  "leads_to b txt d \<longleftrightarrow>
     (\<exists>command. txt = command @ '' && exec '' @ [CHR 0x22] @ ''$SHELL'' @ [CHR 0x22] @ '' -l''
        \<and> shell_words command = Some [''cd'', d])
     \<or> (\<exists>scheme path. txt = scheme @ AGENT_USER @ ''@'' @ vm_host b @ path \<and> list_all uri_plain path
        \<and> uri_decode path = Some (utf8 d))"

lemma leads_enter: "leads_to b (enter_shell d) d"
  using shell_words_shlex_join unfolding leads_to_def enter_shell_def by blast

lemma editor_uri_path_read: "uri_decode (editor_uri_path d) = Some (utf8 d)" "list_all uri_plain (editor_uri_path d)"
proof -
  have "list_all uri_plain (concat (map uri_byte s))" for s
    by (induction s) (simp_all add: uri_byte_plain)
  then show "list_all uri_plain (editor_uri_path d)" by (simp add: editor_uri_path_def)
qed (simp add: editor_uri_path_def uri_decode_bytes)

lemma leads_editor: "leads_to b (editor_uri scheme b d) d"
  unfolding leads_to_def editor_uri_def using editor_uri_path_read by blast

text \<open>A session's end: one process in yo's place, led to a directory of the agent's home.\<close>

definition opens_home :: "box \<Rightarrow> history \<Rightarrow> bool" where
  "opens_home b t \<longleftrightarrow>
     (\<exists>u argv d. t = u @ [Execed argv] \<and> leads_to b (last argv) d \<and> inside_roots [AGENT_HOME] d)"

lemma opens_homeI:
  assumes "exec_process E argv h = (Inr (), t)" and "leads_to b (last argv) d" and "inside_roots [AGENT_HOME] d"
  shows "opens_home b t"
  using assms exec_process_Inr unfolding opens_home_def by blast

lemma enter_opens:
  assumes "cmd_enter E b P project h = (Inr (), t)"
  shows "opens_home b t"
proof -
  from assms obtain d u v argv w where d: "target_dir E b P project u = (Inr d, v)"
    and argv: "ssh_argv E b AGENT [''-t'', vm_host b, enter_shell d] False v = (Inr argv, w)"
    and run: "exec_process E argv w = (Inr (), t)"
    unfolding cmd_enter_def by (auto simp: raise_def elim!: bnd_InrE split: if_splits)
  show ?thesis
    by (rule opens_homeI [OF run _ target_dir_inside [OF d]]) (simp add: ssh_argv_result [OF argv] leads_enter)
qed

lemma editor_opens:
  assumes "exec_process E (args @ [editor_uri scheme b d]) h = (Inr (), t)" and "inside_roots [AGENT_HOME] d"
  shows "opens_home b t"
  by (rule opens_homeI [OF assms(1) _ assms(2)]) (simp add: leads_editor)

lemma code_opens:
  assumes "cmd_code E b P project h = (Inr (), t)"
  shows "opens_home b t"
proof -
  from assms obtain cli d u v where d: "editor_target E b P project u = (Inr d, v)"
    and run: "exec_process E [cli, ''--folder-uri'', editor_uri VSCODE_SCHEME b d] v = (Inr (), t)"
    unfolding cmd_code_def Let_def by (auto simp: raise_def elim!: bnd_InrE split: if_splits)
  from run have "exec_process E ([cli, ''--folder-uri''] @ [editor_uri VSCODE_SCHEME b d]) v = (Inr (), t)" by simp
  then show ?thesis by (rule editor_opens [OF _ editor_target_inside [OF d]])
qed

lemma zed_opens:
  assumes "cmd_zed E b P project h = (Inr (), t)"
  shows "opens_home b t"
proof -
  from assms obtain d u v where d: "editor_target E b P project u = (Inr d, v)"
    and run: "exec_process E [''zed'', editor_uri ZED_SCHEME b d] v = (Inr (), t)"
    unfolding cmd_zed_def by (auto simp: raise_def elim!: bnd_InrE split: if_splits)
  from run have "exec_process E ([''zed''] @ [editor_uri ZED_SCHEME b d]) v = (Inr (), t)" by simp
  then show ?thesis by (rule editor_opens [OF _ editor_target_inside [OF d]])
qed

subsection \<open>Properties\<close>

text \<open>
  A path put into an editor's URI holds only characters that neither end nor split the URI,
  and is read back as the path: no name of a project can redirect the editor.
\<close>

lemma editor_path_round_trip:
  "list_all uri_plain (editor_uri_path d) \<and> uri_decode (editor_uri_path d) = Some (utf8 d)
   \<and> map_option utf8_read (uri_decode (editor_uri_path d)) = Some d"
  by (simp add: editor_uri_path_read utf8_read_utf8)


definition desk_env :: env where
  "desk_env = sample_env\<lparr>env_tty := True, env_stdout_tty := True, which_ans := (\<lambda>h n. Some n),
     proc_ans := (\<lambda>h argv input. Finished 0 [] [])\<rparr>"

definition desk :: place where
  "desk = \<lparr>place_realpath = (\<lambda>p. p), place_dirname = (\<lambda>p. p), place_mkdtemp = (\<lambda>p. p), place_pwd = ''/elsewhere'',
     place_getcwd = ''/elsewhere'', place_samefile = (\<lambda>p q. Some True)\<rparr>"

definition desk_box :: box where "desk_box = \<lparr>instances_dir = ''.lima'', box_name = DEFAULT_INSTANCE\<rparr>"

lemma desk_enter: "fst (cmd_enter desk_env desk_box desk None h) = Inr ()"
proof -
  have account: "fst (require_agent_account desk_env desk_box h) = Inr ()" for h by code_simp
  have herdr: "fst (when_do (env_in_herdr desk_env) m h) = Inr ()" for m h
    by (simp add: desk_env_def sample_env_def when_do_def ret_def)
  have landing: "fst (target_dir desk_env desk_box desk None h) = Inr AGENT_HOME" for h by code_simp
  have config: "fst (ensure_agent_ssh_config desk_env desk_box h) = Inr ()" for h by code_simp
  have argv: "fst (ssh_argv desk_env desk_box AGENT tail False h) = Inr ([''ssh''] @ role_options desk_env desk_box AGENT False @ tail)" for tail h
    unfolding ssh_argv_def ssh_options_def
    by (simp add: fst_bnd [OF config] bnd_assoc eff_simps) (simp add: ret_def)
  have exec: "fst (exec_process desk_env as h) = Inr ()" for as h
    by (simp add: exec_process_def desk_env_def sample_env_def reads_def bnd_def emit_def modifies_def)
  have "on_terminal desk_env" by (simp add: on_terminal_def desk_env_def)
  then show ?thesis
    unfolding cmd_enter_def
    by (simp add: fst_bnd [OF account] fst_bnd [OF herdr] fst_bnd [OF landing] fst_bnd [OF argv] exec)
qed


end
