(* ===== verification/Yo_Landing.thy ===== *)
theory Yo_Landing
  imports Yo_Paths "HOL-Library.List_Lexorder" "HOL-Library.Char_ord" "HOL-Library.AList"
begin

text \<open>
  The host side of \<open>yo cp\<close> (\<open>yolobox_cli/cp.py\<close>): what an upload refuses, what is dropped
  from a downloaded tree, and how the staged tree is laid over what is already on the host.
  Paths inside a tree are lists of names. The lemmas state both steps by the files they
  leave at every path: dropping removes exactly the entries below a control name, and
  landing puts every staged file in place, keeps every other file of the destination and
  never writes over or through a symbolic link.
\<close>

subsection \<open>Trees\<close>

fun is_dir :: "tree \<Rightarrow> bool" where
  "is_dir (Dir m es) = True"
| "is_dir Sealed = True"
| "is_dir _ = False"

fun is_link :: "tree \<Rightarrow> bool" where
  "is_link (Link t d) = True"
| "is_link _ = False"

text \<open>\<open>entry.is_dir()\<close> as \<open>os.walk\<close> asks it, following a link.\<close>

fun leads_to_dir :: "tree \<Rightarrow> bool" where
  "leads_to_dir (Link t d) = d"
| "leads_to_dir t = is_dir t"

fun node_at :: "string list \<Rightarrow> tree \<Rightarrow> tree option" where
  "node_at [] t = Some t"
| "node_at (n # q) (Dir m es) = (case map_of es n of None \<Rightarrow> None | Some t \<Rightarrow> node_at q t)"
| "node_at (n # q) _ = None"

text \<open>What is at a path and is no directory.\<close>

definition leaf_at :: "string list \<Rightarrow> tree \<Rightarrow> tree option" where
  "leaf_at q t = (case node_at q t of None \<Rightarrow> None | Some x \<Rightarrow> if is_dir x then None else Some x)"

fun well_named :: "tree \<Rightarrow> bool" where
  "well_named (Dir m es) = (distinct (map fst es) \<and> list_all (\<lambda>e. well_named (snd e)) es)"
| "well_named _ = True"

subsection \<open>Uploads: no symbolic link\<close>

text \<open>
  \<open>refuse_symlinks_in\<close>'s walk, top down: the entries of a directory are looked at before
  any of its subdirectories, the directories among them first. The result is the path of the
  first link, of the first directory that cannot be listed, or nothing.
\<close>

datatype walk_find = Found_Link string | Cannot_List string

fun first_found :: "(string \<Rightarrow> walk_find option) list \<Rightarrow> string list \<Rightarrow> walk_find option" where
  "first_found (w # ws) (p # ps) = (case w p of None \<Rightarrow> first_found ws ps | Some x \<Rightarrow> Some x)"
| "first_found _ _ = None"

definition walk_order :: "(string \<times> tree) list \<Rightarrow> (string \<times> tree) list" where
  "walk_order es = filter (\<lambda>e. leads_to_dir (snd e)) es @ filter (\<lambda>e. \<not> leads_to_dir (snd e)) es"

fun walk_links :: "tree \<Rightarrow> string \<Rightarrow> walk_find option" where
  "walk_links (Dir m es) path =
     (case filter (\<lambda>e. is_link (snd e)) (walk_order es) of
        (n, _) # _ \<Rightarrow> Some (Found_Link (path_join path n))
      | [] \<Rightarrow> first_found (map (\<lambda>e. walk_links (snd e)) es) (map (\<lambda>e. path_join path (fst e)) es))"
| "walk_links Sealed path = Some (Cannot_List path)"
| "walk_links _ path = None"

definition unslashed :: "string \<Rightarrow> string" where
  "unslashed source = (let s = rstrip_char CHR ''/'' source in if s = [] then ''/'' else s)"

definition refuse_symlinks_in :: "string \<Rightarrow> tree option \<Rightarrow> exn + unit" where
  "refuse_symlinks_in source found =
     (let src = unslashed source in
      case found of
        None \<Rightarrow> Inl (YoError ''cannot read'' [shown src])
      | Some t \<Rightarrow>
          if is_link t then Inl (YoError ''refusing to upload symlink'' [shown src])
          else (case walk_links t src of
                  None \<Rightarrow> Inr ()
                | Some (Found_Link p) \<Rightarrow> Inl (YoError ''refusing to upload symlink'' [shown p])
                | Some (Cannot_List p) \<Rightarrow> Inl (YoError ''cannot read'' [shown p])))"

fun link_free :: "tree \<Rightarrow> bool" where
  "link_free (Dir m es) = list_all (\<lambda>e. link_free (snd e)) es"
| "link_free (Link t d) = False"
| "link_free Sealed = False"
| "link_free _ = True"

lemma first_found_None:
  "length ws = length ps \<Longrightarrow> first_found ws ps = None \<longleftrightarrow> (\<forall>i < length ws. (ws ! i) (ps ! i) = None)"
proof (induction ws ps rule: first_found.induct)
  case (1 w ws p ps)
  then show ?case by (auto simp: nth_Cons split: option.splits nat.splits)
qed auto

lemma walk_order_set: "set (walk_order es) = set es"
  by (auto simp: walk_order_def)

lemma walk_links_None: "\<not> is_link t \<Longrightarrow> walk_links t p = None \<longleftrightarrow> link_free t"
proof (induction t arbitrary: p)
  case (Dir m es)
  have no_link: "filter (\<lambda>e. is_link (snd e)) (walk_order es) = [] \<longleftrightarrow> (\<forall>e \<in> set es. \<not> is_link (snd e))"
    by (auto simp: filter_empty_conv walk_order_set)
  show ?case
  proof (cases "\<forall>e \<in> set es. \<not> is_link (snd e)")
    case True
    have IH: "walk_links (snd e) q = None \<longleftrightarrow> link_free (snd e)" if "e \<in> set es" for e q
      using Dir.IH [of e "snd e" q] True that by (cases e) auto
    have "walk_links (Dir m es) p = None \<longleftrightarrow> (\<forall>i < length es. link_free (snd (es ! i)))"
      using True no_link by (simp add: first_found_None IH)
    then show ?thesis by (simp add: list_all_length)
  next
    case False
    then have "filter (\<lambda>e. is_link (snd e)) (walk_order es) \<noteq> []" by (simp add: no_link)
    then obtain n t ks where "filter (\<lambda>e. is_link (snd e)) (walk_order es) = (n, t) # ks"
      by (cases "filter (\<lambda>e. is_link (snd e)) (walk_order es)") auto
    moreover from False have "\<not> link_free (Dir m es)"
      by (force simp: list_all_iff elim!: is_link.elims)
    ultimately show ?thesis by simp
  qed
qed auto

lemma refuse_symlinks_Inr:
  "refuse_symlinks_in source found = Inr u \<longleftrightarrow> (\<exists>t. found = Some t \<and> link_free t)"
proof (cases found)
  case None
  then show ?thesis by (simp add: refuse_symlinks_in_def)
next
  case (Some t)
  show ?thesis
  proof (cases "is_link t")
    case True
    then have "\<not> link_free t" by (cases t) auto
    with Some True show ?thesis by (simp add: refuse_symlinks_in_def Let_def)
  next
    case False
    with Some walk_links_None [OF False, of "unslashed source"] show ?thesis
      by (cases "walk_links t (unslashed source)")
         (auto simp: refuse_symlinks_in_def Let_def split: walk_find.splits)
  qed
qed

lemma link_free_leaf: "link_free t \<Longrightarrow> leaf_at q t = Some x \<Longrightarrow> \<not> is_link x"
proof (induction q t rule: node_at.induct)
  case (1 t)
  then show ?case by (cases t) (auto simp: leaf_at_def)
next
  case (2 n q m es)
  then show ?case
    by (auto simp: leaf_at_def list_all_iff split: option.splits if_splits dest!: map_of_SomeD)
qed (auto simp: leaf_at_def)

subsection \<open>Control paths\<close>

definition LANDING_CONTROL_NAMES :: "string list" where
  "LANDING_CONTROL_NAMES = [''.git'', ''.hg'', ''.svn'', ''.envrc'', ''.vscode'', ''.idea'']"

text \<open>\<open>str.casefold\<close> on code points below 256: capitals fold to small letters, the sharp s (223) to \<open>ss\<close>.\<close>

definition casefold :: "string \<Rightarrow> string" where
  "casefold s =
     concat (map (\<lambda>c. let n = (of_char c :: nat) in
                      if n = 223 then ''ss''
                      else if 192 \<le> n \<and> n \<le> 222 \<and> n \<noteq> 215 then [char_of (n + 32)]
                      else [to_lower c]) s)"

definition control_name :: "string \<Rightarrow> bool" where
  "control_name n \<longleftrightarrow> casefold n \<in> set LANDING_CONTROL_NAMES"

text \<open>\<open>unlock_tree\<close>: u+rwx on the directory and, top down, on every directory below.\<close>

fun unlock_tree :: "tree \<Rightarrow> tree" where
  "unlock_tree (Dir m es) = Dir (m OR 448) (map (\<lambda>e. (fst e, unlock_tree (snd e))) es)"
| "unlock_tree t = t"

text \<open>
  \<open>drop_control_paths\<close>: the pruned tree, and the paths of what was dropped, relative to the
  tree, in the order they are dropped.
\<close>

fun prune_control :: "tree \<Rightarrow> tree" where
  "prune_control (Dir m es) =
     Dir m (map (\<lambda>e. (fst e, prune_control (snd e))) (filter (\<lambda>e. \<not> control_name (fst e)) es))"
| "prune_control t = t"

fun dropped_below :: "tree \<Rightarrow> string list list" where
  "dropped_below (Dir m es) =
     map (\<lambda>n. [n]) (sort (filter control_name (map fst es))) @
     concat (map (\<lambda>e. map ((#) (fst e)) (dropped_below (snd e))) (filter (\<lambda>e. \<not> control_name (fst e)) es))"
| "dropped_below t = []"

definition drop_control_paths :: "tree \<Rightarrow> tree \<times> string list list" where
  "drop_control_paths staging = (prune_control (unlock_tree staging), dropped_below staging)"

lemma map_of_map_snd: "map_of (map (\<lambda>e. (fst e, f (snd e))) es) n = map_option f (map_of es n)"
  by (induction es) auto

lemma map_of_filter_fst: "map_of (filter (\<lambda>e. P (fst e)) es) n = (if P n then map_of es n else None)"
  by (induction es) auto

lemmas map_of_uncontrolled = map_of_filter_fst [of "\<lambda>n. \<not> control_name n"]

lemma is_dir_unlock [simp]: "is_dir (unlock_tree t) = is_dir t"
  by (cases t) auto

lemma leaf_unlock: "leaf_at q (unlock_tree t) = leaf_at q t"
proof (induction q t rule: node_at.induct)
  case (1 t)
  then show ?case by (cases t) (auto simp: leaf_at_def)
next
  case (2 n q m es)
  then show ?case
    by (cases "map_of es n") (auto simp: leaf_at_def map_of_map_snd)
qed (auto simp: leaf_at_def)

lemma leaf_prune: "leaf_at q (prune_control t) = (if list_ex control_name q then None else leaf_at q t)"
proof (induction q t rule: node_at.induct)
  case (1 t)
  then show ?case by (cases t) (auto simp: leaf_at_def)
next
  case (2 n q m es)
  then show ?case
    by (cases "map_of es n") (auto simp: leaf_at_def map_of_map_snd map_of_uncontrolled)
qed (auto simp: leaf_at_def)

lemma node_prune_control: "node_at q (prune_control t) \<noteq> None \<Longrightarrow> \<not> list_ex control_name q"
proof (induction q t rule: node_at.induct)
  case (2 n q m es)
  then show ?case
    by (cases "map_of es n") (auto simp: map_of_map_snd map_of_uncontrolled split: if_splits)
qed auto

lemma leaf_drop_control:
  "leaf_at q (fst (drop_control_paths t)) = (if list_ex control_name q then None else leaf_at q t)"
  by (simp add: drop_control_paths_def leaf_prune leaf_unlock)

lemma well_named_unlock: "well_named t \<Longrightarrow> well_named (unlock_tree t)"
  by (induction t) (auto simp: list_all_iff o_def)

lemma distinct_map_fst_filter: "distinct (map fst es) \<Longrightarrow> distinct (map fst (filter P es))"
  by (induction es) auto

lemma well_named_prune: "well_named t \<Longrightarrow> well_named (prune_control t)"
  by (induction t) (auto simp: list_all_iff o_def distinct_map_fst_filter)

text \<open>Everything dropped is reported, and nothing else is: a path is reported when its last name
  is the first control name in it and something was there.\<close>

lemma dropped_below_iff:
  "well_named t \<Longrightarrow> q \<in> set (dropped_below t) \<longleftrightarrow>
     node_at q t \<noteq> None \<and> q \<noteq> [] \<and> control_name (last q) \<and> \<not> list_ex control_name (butlast q)"
proof (induction q t rule: node_at.induct)
  case (1 t)
  then show ?case by (cases t) auto
next
  case (2 n q m es)
  have heads: "(n # q \<in> set (map (\<lambda>k. [k]) ks)) \<longleftrightarrow> q = [] \<and> n \<in> set ks" for ks
    by auto
  have tails: "n # q \<in> set (concat (map (\<lambda>e. map ((#) (fst e)) (dropped_below (snd e))) ds))
      \<longleftrightarrow> (\<exists>t. (n, t) \<in> set ds \<and> q \<in> set (dropped_below t))" for ds
    by force
  have here: "n # q \<in> set (dropped_below (Dir m es)) \<longleftrightarrow>
      (q = [] \<and> control_name n \<and> n \<in> fst ` set es) \<or>
      (\<not> control_name n \<and> (\<exists>t. (n, t) \<in> set es \<and> q \<in> set (dropped_below t)))"
    unfolding dropped_below.simps set_append Un_iff heads tails by auto
  show ?case
  proof (cases "map_of es n")
    case None
    then have "n \<notin> fst ` set es" by (simp add: map_of_eq_None_iff)
    moreover from this have "(n, t) \<notin> set es" for t by force
    ultimately show ?thesis using None here by simp
  next
    case (Some t)
    from Some have in_es: "(n, t) \<in> set es" by (rule map_of_SomeD)
    from "2.prems" in_es have uniq: "(n, t') \<in> set es \<Longrightarrow> t' = t" for t'
      using Some by (metis map_of_is_SomeI option.inject well_named.simps(1))
    from "2.prems" in_es have "well_named t" by (auto simp: list_all_iff)
    from "2.IH" [OF Some this] have IH: "q \<in> set (dropped_below t) \<longleftrightarrow>
      node_at q t \<noteq> None \<and> q \<noteq> [] \<and> control_name (last q) \<and> \<not> list_ex control_name (butlast q)" .
    have "n # q \<in> set (dropped_below (Dir m es)) \<longleftrightarrow>
        (q = [] \<and> control_name n) \<or> (\<not> control_name n \<and> q \<in> set (dropped_below t))"
      unfolding here using in_es uniq by (metis fst_conv imageI)
    with IH Some show ?thesis by (cases q) auto
  qed
qed auto

subsection \<open>Laying the staged tree over the destination\<close>

text \<open>The results of the entries of a directory, in order: the first failure, or all moves.\<close>

fun collect :: "(exn + 'a list) list \<Rightarrow> exn + 'a list" where
  "collect [] = Inr []"
| "collect (Inl e # rs) = Inl e"
| "collect (Inr xs # rs) = (case collect rs of Inl e \<Rightarrow> Inl e | Inr ys \<Rightarrow> Inr (xs @ ys))"

definition below :: "string \<Rightarrow> exn + string list list \<Rightarrow> exn + string list list" where
  "below n r = (case r of Inl e \<Rightarrow> Inl e | Inr ms \<Rightarrow> Inr (map ((#) n) ms))"

definition shown_path :: "string list \<Rightarrow> string" where
  "shown_path r = shown (join_on CHR ''/'' r)"

definition over_link :: "string list \<Rightarrow> exn" where
  "over_link r = YoError ''refusing to copy over symlink'' [shown_path r]"

definition kind_clash :: "string list \<Rightarrow> exn" where
  "kind_clash r = YoError ''cannot copy over: it is a directory on one side and not on the other'' [shown_path r]"

text \<open>
  \<open>plan_merge(staged, target, moves)\<close>. Its two paths are joined with the same names all the
  way down, so a move is the list of names below the pair it was called with; \<open>r\<close> is where
  the walk is, for the messages. A directory that cannot be read (\<open>Sealed\<close>) fails at the
  first entry looked up in it.
\<close>

fun plan_merge :: "tree \<Rightarrow> string list \<Rightarrow> tree option \<Rightarrow> exn + string list list" where
  "plan_merge (Dir m es) r target =
     (case target of
        None \<Rightarrow> Inr [[]]
      | Some t \<Rightarrow>
          if is_link t then Inl (over_link r)
          else if \<not> is_dir t then Inl (kind_clash r)
          else collect (map (\<lambda>e. case t of
                 Dir m' ts \<Rightarrow> below (fst e) ((snd e) (r @ [fst e]) (map_of ts (fst e)))
               | _ \<Rightarrow> Inl (YoError ''cannot read'' [shown_path (r @ [fst e])]))
               (sort_key fst (map (\<lambda>e. (fst e, plan_merge (snd e))) es))))"
| "plan_merge Sealed r target =
     (case target of
        None \<Rightarrow> Inr [[]]
      | Some t \<Rightarrow>
          if is_link t then Inl (over_link r)
          else if \<not> is_dir t then Inl (kind_clash r)
          else Inl (OsError ''listdir''))"
| "plan_merge staged r target =
     (case target of
        None \<Rightarrow> Inr [[]]
      | Some t \<Rightarrow>
          if is_link t then Inl (over_link r)
          else if is_dir t then Inl (kind_clash r)
          else Inr [[]])"

text \<open>\<open>os.replace\<close> of a staged node at a path of the destination, none when it fails.\<close>

definition replaceable :: "tree \<Rightarrow> tree option \<Rightarrow> bool" where
  "replaceable x target =
     (case target of None \<Rightarrow> True | Some t \<Rightarrow> \<not> is_dir x \<and> \<not> is_dir t)"

fun land_at :: "string list \<Rightarrow> tree \<Rightarrow> tree option \<Rightarrow> tree option" where
  "land_at [] x target = (if replaceable x target then Some x else None)"
| "land_at (n # q) x (Some (Dir m ts)) =
     (case land_at q x (map_of ts n) of None \<Rightarrow> None | Some y \<Rightarrow> Some (Dir m (AList.update n y ts)))"
| "land_at (n # q) x _ = None"

text \<open>\<open>land_staged\<close>: the moves in order; none when one of them fails.\<close>

fun land_staged :: "tree \<Rightarrow> string list list \<Rightarrow> tree option \<Rightarrow> tree option option" where
  "land_staged staged [] target = Some target"
| "land_staged staged (r # rs) target =
     (case node_at r staged of
        None \<Rightarrow> None
      | Some x \<Rightarrow>
          (case land_at r x target of
             None \<Rightarrow> None
           | Some t \<Rightarrow> land_staged staged rs (Some t)))"

definition opt_leaf :: "string list \<Rightarrow> tree option \<Rightarrow> tree option" where
  "opt_leaf q target = (case target of None \<Rightarrow> None | Some t \<Rightarrow> leaf_at q t)"

definition overlay :: "tree option \<Rightarrow> tree option \<Rightarrow> tree option" where
  "overlay new old = (case new of None \<Rightarrow> old | Some x \<Rightarrow> Some x)"

lemma leaf_simps [simp]:
  "leaf_at [] (Dir m es) = None"
  "leaf_at (n # q) (Dir m es) = opt_leaf q (map_of es n)"
  by (auto simp: leaf_at_def opt_leaf_def split: option.splits)

lemma opt_leaf_simps [simp]: "opt_leaf q None = None" "opt_leaf q (Some t) = leaf_at q t"
  by (simp_all add: opt_leaf_def)

lemma overlay_simps [simp]: "overlay None y = y" "overlay (Some x) y = Some x" "overlay z None = z"
  by (auto simp: overlay_def split: option.splits)

lemma leaf_at_Nil: "leaf_at [] t = (if is_dir t then None else Some t)"
  by (simp add: leaf_at_def)

lemma leaf_not_dir [simp]: "\<not> is_dir t \<Longrightarrow> leaf_at (n # q) t = None"
  by (cases t) (auto simp: leaf_at_def)

lemma land_below:
  assumes "\<forall>q \<in> set mv. node_at (n # q) staged = node_at q s"
    and "land_staged s mv (map_of ts n) = Some y"
  shows "\<exists>ts'. land_staged staged (map ((#) n) mv) (Some (Dir m ts)) = Some (Some (Dir m ts'))
               \<and> map_of ts' = (map_of ts)(n := y)"
  using assms
proof (induction mv arbitrary: ts)
  case Nil
  then show ?case by auto
next
  case (Cons r mv)
  from Cons.prems(2) obtain x t where x: "node_at r s = Some x" "land_at r x (map_of ts n) = Some t"
    and rest: "land_staged s mv (Some t) = Some y"
    by (auto split: option.splits)
  have upd: "map_of (AList.update n t ts) = (map_of ts)(n \<mapsto> t)" by (simp add: update_conv')
  with rest have "land_staged s mv (map_of (AList.update n t ts) n) = Some y" by simp
  moreover have "\<forall>q \<in> set mv. node_at (n # q) staged = node_at q s" using Cons.prems(1) by simp
  ultimately obtain ts' where
    ts': "land_staged staged (map ((#) n) mv) (Some (Dir m (AList.update n t ts))) = Some (Some (Dir m ts'))"
      "map_of ts' = (map_of (AList.update n t ts))(n := y)"
    using Cons.IH by blast
  have "node_at (n # r) staged = Some x" using Cons.prems(1) x(1) by simp
  then have "land_staged staged (map ((#) n) (r # mv)) (Some (Dir m ts)) = Some (Some (Dir m ts'))"
    using x(2) ts'(1) by simp
  moreover have "map_of ts' = (map_of ts)(n := y)" unfolding ts'(2) upd by simp
  ultimately show ?case by blast
qed

lemma land_staged_append:
  "land_staged s (a @ b) t = (case land_staged s a t of None \<Rightarrow> None | Some u \<Rightarrow> land_staged s b u)"
  by (induction a arbitrary: t) (auto split: option.splits)

definition laid_over :: "tree \<Rightarrow> tree option \<Rightarrow> tree option \<Rightarrow> bool" where
  "laid_over s t t' \<longleftrightarrow> t' \<noteq> None \<and> (\<forall>q. opt_leaf q t' = overlay (leaf_at q s) (opt_leaf q t))"

definition landed :: "tree \<Rightarrow> string list list \<Rightarrow> tree option \<Rightarrow> bool" where
  "landed s mv t \<longleftrightarrow> (\<exists>t'. land_staged s mv t = Some t' \<and> laid_over s t t')"

lemma insort_key_map: "insort_key fst (g x) (map g xs) = map g (insort_key (\<lambda>x. fst (g x)) x xs)"
  by (induction xs) auto

lemma sort_key_map: "sort_key fst (map g xs) = map g (sort_key (\<lambda>x. fst (g x)) xs)"
  by (induction xs) (simp_all add: insort_key_map)

lemma plan_merge_Dir:
  "plan_merge (Dir m es) r (Some t) =
     (if is_link t then Inl (over_link r)
      else if \<not> is_dir t then Inl (kind_clash r)
      else collect (map (\<lambda>e. case t of
             Dir m' ts \<Rightarrow> below (fst e) (plan_merge (snd e) (r @ [fst e]) (map_of ts (fst e)))
           | _ \<Rightarrow> Inl (YoError ''cannot read'' [shown_path (r @ [fst e])])) (sort_key fst es)))"
  by (cases t) (simp_all add: sort_key_map o_def)

lemma collect_Cons_Inr: "collect (x # xs) = Inr mv \<longleftrightarrow> (\<exists>a b. x = Inr a \<and> collect xs = Inr b \<and> mv = a @ b)"
  by (cases x) (auto split: sum.splits)

lemma below_Inr: "below n r = Inr mv \<longleftrightarrow> (\<exists>ms. r = Inr ms \<and> mv = map ((#) n) ms)"
  by (auto simp: below_def split: sum.splits)

text \<open>The moves of the entries of one directory, one entry after another.\<close>

lemma land_entries:
  assumes "collect (map (\<lambda>e. below (fst e) (plan_merge (snd e) (r @ [fst e]) (map_of ts (fst e)))) ds) = Inr mv"
    and "distinct (map fst ds)"
    and "\<forall>e \<in> set ds. \<forall>q. node_at (fst e # q) staged = node_at q (snd e)"
    and "\<forall>e \<in> set ds. \<forall>r' t ms. plan_merge (snd e) r' t = Inr ms \<longrightarrow> landed (snd e) ms t"
    and "\<forall>n \<in> fst ` set ds. map_of ts0 n = map_of ts n"
  shows "\<exists>ts'. land_staged staged mv (Some (Dir m ts0)) = Some (Some (Dir m ts'))
     \<and> (\<forall>n q. opt_leaf q (map_of ts' n) = overlay (opt_leaf q (map_of ds n)) (opt_leaf q (map_of ts0 n)))"
  using assms
proof (induction ds arbitrary: mv ts0)
  case Nil
  then show ?case by auto
next
  case (Cons e ds)
  obtain n s where e: "e = (n, s)" by fastforce
  from Cons.prems(1) obtain ms mv' where ms: "plan_merge s (r @ [n]) (map_of ts n) = Inr ms"
    and mv': "collect (map (\<lambda>e. below (fst e) (plan_merge (snd e) (r @ [fst e]) (map_of ts (fst e)))) ds) = Inr mv'"
    and mv: "mv = map ((#) n) ms @ mv'"
    by (auto simp: e collect_Cons_Inr below_Inr)
  from Cons.prems(4) ms have "landed s ms (map_of ts n)" by (auto simp: e)
  then obtain y where y: "land_staged s ms (map_of ts n) = Some y" "laid_over s (map_of ts n) y"
    by (auto simp: landed_def)
  from Cons.prems(5) have same: "map_of ts0 n = map_of ts n" by (simp add: e)
  with y(1) land_below [of ms n staged s ts0 y m] Cons.prems(3) obtain ts1 where
    ts1: "land_staged staged (map ((#) n) ms) (Some (Dir m ts0)) = Some (Some (Dir m ts1))"
      "map_of ts1 = (map_of ts0)(n := y)" by (auto simp: e)
  from Cons.prems(2) have fresh: "n \<notin> fst ` set ds" "distinct (map fst ds)" by (auto simp: e)
  with Cons.prems(5) ts1(2) have "\<forall>k \<in> fst ` set ds. map_of ts1 k = map_of ts k" by auto
  from Cons.IH [OF mv' fresh(2) _ _ this] Cons.prems(3,4) obtain ts' where
    ts': "land_staged staged mv' (Some (Dir m ts1)) = Some (Some (Dir m ts'))"
      "\<forall>k q. opt_leaf q (map_of ts' k) = overlay (opt_leaf q (map_of ds k)) (opt_leaf q (map_of ts1 k))"
    by auto
  have "map_of ds n = None" using fresh(1) by (simp add: map_of_eq_None_iff)
  then have "opt_leaf q (map_of ts' k) = overlay (opt_leaf q (map_of (e # ds) k)) (opt_leaf q (map_of ts0 k))" for k q
    using ts'(2) ts1(2) y(2) same by (auto simp: e laid_over_def)
  with ts1(1) ts'(1) show ?case unfolding mv by (auto simp: land_staged_append)
qed

lemma land_whole: "replaceable s t \<Longrightarrow> (\<And>u. t = Some u \<Longrightarrow> \<not> is_dir s \<and> \<not> is_dir u) \<Longrightarrow> landed s [[]] t"
proof -
  assume r: "replaceable s t" and plain: "\<And>u. t = Some u \<Longrightarrow> \<not> is_dir s \<and> \<not> is_dir u"
  have "overlay (leaf_at q s) (opt_leaf q t) = leaf_at q s" for q
  proof (cases t)
    case (Some u)
    with plain show ?thesis by (cases q) (simp_all add: leaf_at_Nil)
  qed simp
  with r show ?thesis by (simp add: landed_def laid_over_def)
qed

lemma plan_merge_landed:
  "well_named s \<Longrightarrow> plan_merge s r t = Inr mv \<Longrightarrow> landed s mv t"
proof (induction s arbitrary: r t mv)
  case (Dir m es)
  show ?case
  proof (cases t)
    case None
    with Dir.prems show ?thesis by (auto intro!: land_whole simp: replaceable_def)
  next
    case (Some u)
    let ?ds = "sort_key fst es"
    from Dir.prems(2) have u: "\<not> is_link u" "is_dir u"
      and c: "collect (map (\<lambda>e. case u of
                 Dir m' ts \<Rightarrow> below (fst e) (plan_merge (snd e) (r @ [fst e]) (map_of ts (fst e)))
               | _ \<Rightarrow> Inl (YoError ''cannot read'' [shown_path (r @ [fst e])])) ?ds) = Inr mv"
      unfolding Some plan_merge_Dir by (auto split: if_splits)
    have dist: "distinct (map fst ?ds)"
      using Dir.prems(1) by (simp add: distinct_map)
    have same: "map_of ?ds = map_of es"
      using Dir.prems(1) dist by (intro map_of_eqI) auto
    show ?thesis
    proof (cases u)
      case u_dir: (Dir m' ts)
      have "\<exists>ts'. land_staged (Dir m es) mv (Some (Dir m' ts)) = Some (Some (Dir m' ts'))
        \<and> (\<forall>n q. opt_leaf q (map_of ts' n) = overlay (opt_leaf q (map_of ?ds n)) (opt_leaf q (map_of ts n)))"
      proof (rule land_entries [of r ts])
        show "collect (map (\<lambda>e. below (fst e) (plan_merge (snd e) (r @ [fst e]) (map_of ts (fst e)))) ?ds) = Inr mv"
          using c by (simp add: u_dir)
        show "\<forall>e \<in> set ?ds. \<forall>q. node_at (fst e # q) (Dir m es) = node_at q (snd e)"
          using Dir.prems(1) by (auto simp: map_of_is_SomeI)
        show "\<forall>e \<in> set ?ds. \<forall>r' t ms. plan_merge (snd e) r' t = Inr ms \<longrightarrow> landed (snd e) ms t"
          using Dir.IH Dir.prems(1) by (fastforce simp: list_all_iff)
      qed (use dist in auto)
      then obtain ts' where ts': "land_staged (Dir m es) mv (Some (Dir m' ts)) = Some (Some (Dir m' ts'))"
        "\<And>n q. opt_leaf q (map_of ts' n) = overlay (opt_leaf q (map_of es n)) (opt_leaf q (map_of ts n))"
        by (auto simp: same)
      have "opt_leaf q (Some (Dir m' ts')) = overlay (leaf_at q (Dir m es)) (opt_leaf q (Some (Dir m' ts)))" for q
        by (cases q) (simp_all add: ts'(2))
      with ts'(1) show ?thesis by (simp add: landed_def laid_over_def Some u_dir)
    next
      case Sealed
      with c have "sort_key fst es = []" by (cases "sort_key fst es") auto
      then have "length (sort_key fst es) = 0" by simp
      then have "es = []" by simp
      with c have "mv = []" by simp
      moreover have "opt_leaf q (Some Sealed) = overlay (leaf_at q (Dir m [])) (opt_leaf q (Some Sealed))" for q
        by (cases q) (auto simp: leaf_at_def)
      ultimately show ?thesis by (simp add: landed_def laid_over_def Some Sealed \<open>es = []\<close>)
    qed (use u in auto)
  qed
qed (auto intro!: land_whole simp: replaceable_def split: option.splits if_splits)

text \<open>A plan never reaches a place of the destination through a link, nor one that is a link.\<close>

lemma collect_member:
  "collect rs = Inr mv \<Longrightarrow> q \<in> set mv \<Longrightarrow> \<exists>ms. Inr ms \<in> set rs \<and> q \<in> set ms"
  by (induction rs arbitrary: mv) (fastforce simp: collect_Cons_Inr)+

lemma plan_merge_no_link:
  "plan_merge s r (Some t) = Inr mv \<Longrightarrow> q \<in> set mv \<Longrightarrow> node_at (take k q) t = Some x \<Longrightarrow> \<not> is_link x"
proof (induction s arbitrary: r t mv q k)
  case (Dir m es)
  from Dir.prems(1) have u: "\<not> is_link t" "is_dir t"
    and c: "collect (map (\<lambda>e. case t of
               Dir m' ts \<Rightarrow> below (fst e) (plan_merge (snd e) (r @ [fst e]) (map_of ts (fst e)))
             | _ \<Rightarrow> Inl (YoError ''cannot read'' [shown_path (r @ [fst e])])) (sort_key fst es)) = Inr mv"
    unfolding plan_merge_Dir by (auto split: if_splits)
  from collect_member [OF c Dir.prems(2)] obtain e ms where e: "e \<in> set es" "q \<in> set ms"
    and ms: "(case t of Dir m' ts \<Rightarrow> below (fst e) (plan_merge (snd e) (r @ [fst e]) (map_of ts (fst e)))
             | _ \<Rightarrow> Inl (YoError ''cannot read'' [shown_path (r @ [fst e])])) = Inr ms"
    by auto
  then obtain m' ts where t: "t = Dir m' ts" by (cases t) auto
  with ms obtain ms' where ms': "plan_merge (snd e) (r @ [fst e]) (map_of ts (fst e)) = Inr ms'"
    "ms = map ((#) (fst e)) ms'" by (auto simp: below_Inr)
  with e obtain q' where q': "q = fst e # q'" "q' \<in> set ms'" by auto
  show ?case
  proof (cases k)
    case 0
    with Dir.prems(3) u show ?thesis by simp
  next
    case (Suc k')
    with Dir.prems(3) q' t obtain v where v: "map_of ts (fst e) = Some v" "node_at (take k' q') v = Some x"
      by (auto split: option.splits)
    obtain n s where es: "e = (n, s)" by fastforce
    with Dir.IH [of e s "r @ [n]" v ms' q' k'] e ms' q' v show ?thesis by simp
  qed
qed (auto split: if_splits)

subsection \<open>Properties\<close>





end
