(* ===== verification/Yo_Cp.thy ===== *)
theory Yo_Cp
  imports Yo_Landing
begin

text \<open>
  \<open>yolobox_cli/cp.py\<close>: \<open>yo cp\<close>'s operands, the guest listing a download starts from (which
  the agent's own shell prints, so it is untrusted), the build output that is left out, the
  scp calls, and the download as a whole. \<open>os.fsdecode\<close> is the identity on the model's
  texts, and \<open>float\<close> is taken to be exact. The lemmas show that no operand and no listed
  path leaves the paths the command may use, that the walks end, and that batches are
  complete and within their budget.
\<close>

subsection \<open>Operands\<close>

datatype direction = To_Guest | From_Guest

record cp_plan =
  cp_direction :: direction
  cp_local_paths :: "string list"
  cp_guest_paths :: "string list"

definition operand_is_guest :: "string \<Rightarrow> bool" where
  "operand_is_guest operand = startswith operand '':''"

definition CP_GUEST_ROOTS :: "string list" where
  "CP_GUEST_ROOTS = [AGENT_HOME, ''/tmp'']"

definition resolve_guest_operand :: "string \<Rightarrow> string option \<Rightarrow> exn + string" where
  "resolve_guest_operand operand cwd_mirror =
     (let spelling = tl operand in
      if spelling = ''~'' \<or> startswith spelling ''~/'' then guest_path (AGENT_HOME @ tl spelling) [AGENT_HOME]
      else if startswith spelling ''/'' then guest_path spelling CP_GUEST_ROOTS
      else (case cwd_mirror of
              None \<Rightarrow> Inl (YoError ''guest path is relative, and the host cwd is outside $HOME'' [operand])
            | Some cwd \<Rightarrow>
                if spelling = [] then guest_path cwd [AGENT_HOME]
                else guest_path (cwd @ ''/'' @ spelling) [AGENT_HOME]))"

fun resolve_all :: "string list \<Rightarrow> string option \<Rightarrow> exn + string list" where
  "resolve_all [] cwd = Inr []"
| "resolve_all (x # xs) cwd =
     (case resolve_guest_operand x cwd of
        Inl e \<Rightarrow> Inl e
      | Inr p \<Rightarrow> (case resolve_all xs cwd of Inl e \<Rightarrow> Inl e | Inr ps \<Rightarrow> Inr (p # ps)))"

definition resolve_cp_operands :: "box \<Rightarrow> string list \<Rightarrow> string option \<Rightarrow> exn + cp_plan" where
  "resolve_cp_operands b operands cwd_mirror =
     (if length operands < 2 then Inl (YoError ''yo cp needs at least one source and a destination'' [])
      else if [] \<in> set operands then Inl (YoError ''yo cp got an empty operand'' [])
      else
        (let sources = butlast operands; dest = last operands in
         if \<not> list_ex operand_is_guest operands then Inl (YoError ''no guest path given'' [])
         else if length (fromkeys (map operand_is_guest sources)) > 1
         then Inl (YoError ''sources are split between the host and the guest'' [])
         else if operand_is_guest (hd sources) \<and> operand_is_guest dest
         then Inl (YoError ''sources and destination are both in the guest'' [yo_cmd b [''enter'']])
         else if operand_is_guest (hd sources)
         then (case resolve_all sources cwd_mirror of
                 Inl e \<Rightarrow> Inl e
               | Inr ps \<Rightarrow> Inr \<lparr>cp_direction = From_Guest, cp_local_paths = [dest], cp_guest_paths = ps\<rparr>)
         else (case resolve_all [dest] cwd_mirror of
                 Inl e \<Rightarrow> Inl e
               | Inr ps \<Rightarrow> Inr \<lparr>cp_direction = To_Guest, cp_local_paths = sources, cp_guest_paths = ps\<rparr>)))"

definition cp_mkdir_target :: "string \<Rightarrow> string \<Rightarrow> nat \<Rightarrow> string" where
  "cp_mkdir_target dest_operand resolved_dest source_count =
     (if dest_operand = '':'' \<or> endswith dest_operand ''/'' \<or> source_count > 1
      then resolved_dest else dirname resolved_dest)"

definition glob_char :: "char \<Rightarrow> bool" where
  "glob_char c \<longleftrightarrow> c \<in> {CHR ''['', CHR '']'', CHR ''*'', CHR ''?'', CHR 0x5C}"

definition scp_glob_escape :: "string \<Rightarrow> string" where
  "scp_glob_escape path = concat (map (\<lambda>c. if glob_char c then [CHR 0x5C, c] else [c]) path)"

definition scp_guest_source :: "box \<Rightarrow> string \<Rightarrow> string" where
  "scp_guest_source b guest = vm_host b @ '':'' @ scp_glob_escape guest"

definition local_cp_operand :: "string \<Rightarrow> string \<Rightarrow> string" where
  "local_cp_operand cwd operand = path_join cwd operand"

definition scp_transfer :: "env \<Rightarrow> box \<Rightarrow> string list \<Rightarrow> string \<Rightarrow> unit io" where
  "scp_transfer E b sources dest =
     bnd (ssh_options E b AGENT False) (\<lambda>options.
     bnd (run E ([''scp'', ''-r'', ''-p'', ''-s''] @ options @ [''--''] @ sources @ [dest])
           (checked\<lparr>capture := False\<rparr>)) (\<lambda>_. ret ()))"

subsection \<open>The guest's listing\<close>

definition BUILD_OUTPUT :: "(string \<times> string option) list" where
  "BUILD_OUTPUT =
     [(''node_modules'', None), (''.venv'', None), (''target'', Some ''Cargo.toml''),
      (''.next'', Some ''package.json'')]"

definition MANIFEST_NAMES :: "string list" where
  "MANIFEST_NAMES = [''Cargo.toml'', ''package.json'']"

record guest_entry =
  ge_kind :: string
  ge_mode :: nat
  ge_mtime :: rat
  ge_path :: string

definition TAB :: char where "TAB = CHR 0x09"

definition GUEST_RECORD :: string where
  "GUEST_RECORD = ''%y'' @ [CHR 0x5C] @ ''t%m'' @ [CHR 0x5C] @ ''t%T@'' @ [CHR 0x5C] @ ''t%p'' @ [CHR 0x5C] @ ''0''"

definition octal_digit :: "char \<Rightarrow> bool" where
  "octal_digit c \<longleftrightarrow> 48 \<le> (of_char c :: nat) \<and> (of_char c :: nat) \<le> 55"

definition MODE_RE :: rx where
  "MODE_RE = Cat (Cls octal_digit) (Upto 5 (Cls octal_digit))"

definition MTIME_RE :: rx where
  "MTIME_RE =
     Cat (Cls is_digit) (Cat (Upto 10 (Cls is_digit)) (Opt (Cat (Lit ''.'') (Plus (Cls is_digit)))))"

definition octal :: "string \<Rightarrow> nat" where
  "octal s = foldl (\<lambda>n c. 8 * n + digit_value c) 0 s"

definition float_of :: "string \<Rightarrow> rat" where
  "float_of s =
     (case partition_on CHR ''.'' s of
        (whole, _, fraction) \<Rightarrow> of_nat (decimal whole) + of_nat (decimal fraction) / 10 ^ length fraction)"

text \<open>\<open>GUEST_RECORD_RE\<close>'s groups: three fields without a tab, then the rest, not empty.\<close>

definition record_fields :: "string \<Rightarrow> (string \<times> string \<times> string \<times> string) option" where
  "record_fields content =
     (case partition_on TAB content of
        (kind, a, rest) \<Rightarrow>
          (case partition_on TAB rest of
             (mode, b, rest') \<Rightarrow>
               (case partition_on TAB rest' of
                  (mtime, c, path) \<Rightarrow>
                    if a \<and> b \<and> c \<and> length kind = 1 \<and> list_all (\<lambda>c. is_lower c \<or> is_upper c) kind
                       \<and> fullmatch MODE_RE mode \<and> fullmatch MTIME_RE mtime \<and> path \<noteq> []
                    then Some (kind, mode, mtime, path) else None)))"

definition parse_guest_record :: "string \<Rightarrow> string list \<Rightarrow> bool \<Rightarrow> exn + guest_entry" where
  "parse_guest_record content starts lists_starts =
     (case record_fields content of
        None \<Rightarrow> Inl (YoError ''the guest's listing has a malformed record'' [content])
      | Some (kind, mode, mtime, path) \<Rightarrow>
          (let clean = (normpath path = path);
               under = list_ex (\<lambda>s. startswith path (s @ ''/'')) starts \<or> (lists_starts \<and> path \<in> set starts)
           in if \<not> (clean \<and> under)
              then Inl (YoError ''the guest's listing has a path that is not a clean path under'' (content # starts))
              else Inr \<lparr>ge_kind = kind, ge_mode = octal mode, ge_mtime = float_of mtime, ge_path = path\<rparr>))"

definition entry_of :: "guest_entry list \<Rightarrow> string \<Rightarrow> guest_entry option" where
  "entry_of entries path = find (\<lambda>e. ge_path e = path) entries"

text \<open>\<open>entries.setdefault(entry.path, entry) != entry\<close> over the records, in order.\<close>

fun gather :: "string list \<Rightarrow> string list \<Rightarrow> bool \<Rightarrow> guest_entry list \<Rightarrow> exn + guest_entry list" where
  "gather [] starts ls acc = Inr acc"
| "gather (r # rs) starts ls acc =
     (if r = [] then gather rs starts ls acc
      else (case parse_guest_record r starts ls of
              Inl e \<Rightarrow> Inl e
            | Inr entry \<Rightarrow>
                (case entry_of acc (ge_path entry) of
                   None \<Rightarrow> gather rs starts ls (acc @ [entry])
                 | Some old \<Rightarrow>
                     if old = entry then gather rs starts ls acc
                     else Inl (YoError ''the guest's listing describes it twice, differently'' [ge_path entry]))))"

definition list_guest :: "env \<Rightarrow> box \<Rightarrow> string list \<Rightarrow> string list \<Rightarrow> bool \<Rightarrow> guest_entry list io" where
  "list_guest E b starts tests lists_starts =
     bnd (ssh_run E b AGENT ([''find'', ''-H''] @ starts @ tests) (plain\<lparr>binary := True\<rparr>)) (\<lambda>done.
     if returncode done \<noteq> 0
     then raise (YoError ''cannot list it in the guest'' (failure_detail done # starts))
     else lift (gather (split_on CHR 0x00 (stdout done)) starts lists_starts []))"

definition any_name :: "string list \<Rightarrow> string list" where
  "any_name names =
     butlast (''('' # concat (map (\<lambda>name. [''-name'', name, ''-o'']) names)) @ ['')'']"

definition find_tests :: "string list" where
  "find_tests =
     [''-mindepth'', ''1''] @
     butlast (concat (map (\<lambda>(kind, names, action).
         [''('', ''-type'', kind] @ any_name names @ action @ ['')'', ''-o''])
       [(''d'', map fst (filter (\<lambda>e. snd e = None) BUILD_OUTPUT), [''-prune'', ''-printf'', GUEST_RECORD]),
        (''d'', map fst (filter (\<lambda>e. snd e \<noteq> None) BUILD_OUTPUT), [''-printf'', GUEST_RECORD]),
        (''f'', sort MANIFEST_NAMES, [''-printf'', GUEST_RECORD])]))"

definition asked_for :: "guest_entry \<Rightarrow> bool" where
  "asked_for e \<longleftrightarrow>
     ge_kind e = ''d'' \<and> basename (ge_path e) \<in> set (map fst BUILD_OUTPUT) \<or>
     ge_kind e = ''f'' \<and> basename (ge_path e) \<in> set MANIFEST_NAMES"

definition has_manifest :: "string \<Rightarrow> string list \<Rightarrow> bool" where
  "has_manifest directory manifests_present =
     (case map_of BUILD_OUTPUT (basename directory) of
        Some (Some manifest) \<Rightarrow> path_join (dirname directory) manifest \<in> set manifests_present
      | _ \<Rightarrow> True)"

definition confirmed :: "guest_entry list \<Rightarrow> string list" where
  "confirmed found =
     (let manifests = map ge_path (filter (\<lambda>e. ge_kind e = ''f'') found)
      in sort (map ge_path (filter (\<lambda>e. ge_kind e = ''d'' \<and> has_manifest (ge_path e) manifests) found)))"

fun outermost :: "string list \<Rightarrow> string list \<Rightarrow> string list" where
  "outermost kept [] = kept"
| "outermost kept (p # ps) =
     (if list_ex (\<lambda>k. startswith p (k @ ''/'')) kept then outermost kept ps else outermost (kept @ [p]) ps)"

text \<open>\<open>next(source for source in sources if path.startswith(source + "/"))\<close>; every path has one,
  see \<open>parse_guest_record\<close>.\<close>

definition source_of :: "string list \<Rightarrow> string \<Rightarrow> string" where
  "source_of sources path =
     (case find (\<lambda>s. startswith path (s @ ''/'')) sources of Some s \<Rightarrow> s | None \<Rightarrow> [])"

definition build_output_of :: "string list \<Rightarrow> guest_entry list \<Rightarrow> exn + (string \<times> string) list" where
  "build_output_of sources found =
     (case find (\<lambda>e. \<not> asked_for e) found of
        Some e \<Rightarrow> Inl (YoError ''the guest's listing has a path find was not asked for'' [ge_path e])
      | None \<Rightarrow> Inr (map (\<lambda>p. (source_of sources p, p)) (outermost [] (confirmed found))))"

definition find_build_output :: "env \<Rightarrow> box \<Rightarrow> string list \<Rightarrow> (string \<times> string) list io" where
  "find_build_output E b sources =
     bnd (list_guest E b sources find_tests False) (\<lambda>found. lift (build_output_of sources found))"

text \<open>
  \<open>directories_down_to\<close>: the loop goes up from the parent of the path until it meets the
  source; the fuel is the length of the path, and it is enough when the path is under the
  source (\<open>down_to_paths\<close>).
\<close>

fun down_to :: "nat \<Rightarrow> string \<Rightarrow> string \<Rightarrow> string list option" where
  "down_to 0 source directory = None"
| "down_to (Suc n) source directory =
     (if directory = source then Some [source]
      else map_option ((#) directory) (down_to n source (dirname directory)))"

definition directories_down_to :: "string \<Rightarrow> string \<Rightarrow> string list option" where
  "directories_down_to source path = down_to (length path) source (dirname path)"

subsection \<open>Fetching\<close>

definition SCP_ARGV_BUDGET :: nat where "SCP_ARGV_BUDGET = 64 * 1024"

fun batches_from :: "string list \<Rightarrow> nat \<Rightarrow> string list \<Rightarrow> string list list" where
  "batches_from batch used [] = (if batch = [] then [] else [batch])"
| "batches_from batch used (x # xs) =
     (let cost = length x + 1 in
      if batch \<noteq> [] \<and> used + cost > SCP_ARGV_BUDGET
      then batch # batches_from [x] cost xs
      else batches_from (batch @ [x]) (used + cost) xs)"

definition in_batches :: "string list \<Rightarrow> string list list" where
  "in_batches operands = batches_from [] 0 operands"

definition fetchable :: "guest_entry \<Rightarrow> bool" where
  "fetchable e \<longleftrightarrow> ge_kind e \<in> {''d'', ''f'', ''l''}"

record guest_walk =
  gw_entries :: "guest_entry list"
  gw_walked :: "string list"
  gw_skipped :: "string list"

definition children_of :: "guest_walk \<Rightarrow> string \<Rightarrow> string list" where
  "children_of walk directory = filter (\<lambda>p. dirname p = directory) (sort (map ge_path (gw_entries walk)))"

definition skipped_note :: "string \<Rightarrow> string \<Rightarrow> string \<Rightarrow> unit io" where
  "skipped_note source path why = warn ''skipped'' [shown path, source, why]"

text \<open>\<open>mode & 0o1777 | S_IRWXU\<close>\<close>

definition fetched_mode :: "nat \<Rightarrow> nat" where
  "fetched_mode mode = (mode AND 1023) OR 448"

text \<open>The loop over a directory's children: the walked ones are fetched as they come, the
  plain ones are collected.\<close>

fun fetch_children :: "guest_walk \<Rightarrow> string \<Rightarrow> (string \<Rightarrow> unit io) \<Rightarrow> string list \<Rightarrow> string list io" where
  "fetch_children walk source descend [] = ret []"
| "fetch_children walk source descend (child # rest) =
     (if child \<in> set (gw_walked walk) then sq (descend child) (fetch_children walk source descend rest)
      else if child \<in> set (gw_skipped walk) then fetch_children walk source descend rest
      else (case entry_of (gw_entries walk) child of
              Some e \<Rightarrow>
                if fetchable e
                then bnd (fetch_children walk source descend rest) (\<lambda>plain. ret (child # plain))
                else sq (skipped_note source child ''not a regular file'')
                        (fetch_children walk source descend rest)
            | None \<Rightarrow> fetch_children walk source descend rest))"

definition walk_changed :: "string \<Rightarrow> exn" where
  "walk_changed directory =
     YoError ''changed in the guest while it was being listed; copy it again'' [shown directory]"

fun fetch_walked :: "nat \<Rightarrow> env \<Rightarrow> box \<Rightarrow> guest_walk \<Rightarrow> string \<Rightarrow> string \<Rightarrow> string \<Rightarrow> unit io" where
  "fetch_walked 0 E b walk source directory local = raise (walk_changed directory)"
| "fetch_walked (Suc n) E b walk source directory local =
     (case entry_of (gw_entries walk) directory of
        None \<Rightarrow> raise (walk_changed directory)
      | Some e \<Rightarrow>
          if ge_kind e \<noteq> ''d'' \<or> children_of walk directory = [] then raise (walk_changed directory)
          else
            sq (host_op E ''makedirs'' [local, show_nat (fetched_mode (ge_mode e))])
            (bnd (fetch_children walk source
                    (\<lambda>child. fetch_walked n E b walk source child (path_join local (basename child)))
                    (children_of walk directory)) (\<lambda>plain.
             sq (for_each (in_batches (map (scp_guest_source b) plain)) (\<lambda>batch. scp_transfer E b batch local))
                (host_op E ''utime'' [local, directory]))))"

text \<open>Fuel for a walk: one more than the longest listed path (\<open>fetch_walked_fuel\<close>).\<close>

definition walk_fuel :: "guest_walk \<Rightarrow> nat" where
  "walk_fuel walk = Suc (foldr max (map (length \<circ> ge_path) (gw_entries walk)) 0)"

definition down_to_all :: "(string \<times> string) list \<Rightarrow> string list" where
  "down_to_all build_output =
     fromkeys (concat (map (\<lambda>(source, path). case directories_down_to source path of
                               Some ds \<Rightarrow> ds | None \<Rightarrow> []) build_output))"

definition fetch_guest_sources :: "env \<Rightarrow> box \<Rightarrow> string list \<Rightarrow> string \<Rightarrow> unit io" where
  "fetch_guest_sources E b sources staging =
     bnd (find_build_output E b sources) (\<lambda>build_output.
     let walked = down_to_all build_output;
         whole = filter (\<lambda>s. s \<notin> set walked) sources in
     sq (when_do (whole \<noteq> []) (scp_transfer E b (map (scp_guest_source b) whole) staging))
     (sq (when_do (walked \<noteq> [])
            (bnd (list_guest E b (sort walked) [''-maxdepth'', ''1'', ''-printf'', GUEST_RECORD] True) (\<lambda>entries.
             let walk = \<lparr>gw_entries = entries, gw_walked = walked, gw_skipped = map snd build_output\<rparr> in
             for_each (filter (\<lambda>s. s \<in> set walked) sources) (\<lambda>source.
               fetch_walked (walk_fuel walk) E b walk source source (path_join staging (basename source))))))
         (for_each build_output (\<lambda>(source, path). skipped_note source path ''build output''))))"

subsection \<open>The download\<close>

definition staged_path :: "string \<Rightarrow> string list \<Rightarrow> string" where
  "staged_path base names = foldl path_join base names"

fun land_moves :: "env \<Rightarrow> string \<Rightarrow> string \<Rightarrow> nat \<Rightarrow> nat \<Rightarrow> string list list \<Rightarrow> unit io" where
  "land_moves E staging target n len [] = ret ()"
| "land_moves E staging target n len (r # rs) =
     sq (except_os (host_op E ''replace'' [staged_path staging r, staged_path target r])
           (\<lambda>e. raise (YoError ''cannot place''
                   [shown (staged_path staging r), shown (staged_path target r), os_reason e,
                    show_nat n, show_nat len])))
        (land_moves E staging target (Suc n) len rs)"

definition drop_staged :: "env \<Rightarrow> string \<Rightarrow> tree io" where
  "drop_staged E staging =
     sq (host_op E ''unlock_tree'' [staging])
     (bnd (reads (\<lambda>h. tree_ans E h staging)) (\<lambda>found.
      let t = (case found of Some t \<Rightarrow> t | None \<Rightarrow> Dir 448 []) in
      (case drop_control_paths t of (kept, skipped) \<Rightarrow>
        sq (for_each skipped (\<lambda>r.
              except_os (host_op E ''remove'' [staged_path staging r])
                (\<lambda>e. raise (YoError ''cannot drop it from the download''
                              [shown (staged_path staging r), os_reason e]))))
        (sq (for_each skipped (\<lambda>r. warn ''skipped a control path'' [shown_path r]))
        (ret kept)))))"

definition remove_staging :: "env \<Rightarrow> string \<Rightarrow> unit io" where
  "remove_staging E staging =
     except_os (host_op E ''remove_tree'' [staging])
       (\<lambda>e. raise (YoError ''cannot remove the staging directory; delete it by hand''
                     [shown staging, os_reason e]))"

definition place_staged :: "env \<Rightarrow> string \<Rightarrow> string \<Rightarrow> bool \<Rightarrow> tree \<Rightarrow> unit io" where
  "place_staged E staging dest dest_is_dir kept =
     (if dest_is_dir then
        bnd (reads (\<lambda>h. tree_ans E h (path_join dest []))) (\<lambda>target.
        bnd (lift (plan_merge kept [] (Some (or_else target (Dir 448 []))))) (\<lambda>moves.
        land_moves E staging dest 0 (length moves) moves))
      else
        bnd (reads (\<lambda>h. tree_ans E h (unslashed dest))) (\<lambda>target.
        let entries = (case kept of Dir m es \<Rightarrow> sort_key fst es | _ \<Rightarrow> []) in
        bnd (lift (collect (map (\<lambda>(n, s). below n (plan_merge s [] target)) entries))) (\<lambda>moves.
        for_each (zip [0..<length moves] moves) (\<lambda>(i, r).
          except_os (host_op E ''replace'' [staged_path staging r, staged_path (unslashed dest) (tl r)])
            (\<lambda>e. raise (YoError ''cannot place''
                    [shown (staged_path staging r), shown (staged_path (unslashed dest) (tl r)),
                     os_reason e, show_nat i, show_nat (length moves)]))))))"

text \<open>\<open>download_from_guest\<close>; \<open>mkdtemp\<close> is what \<open>tempfile.mkdtemp\<close> names the new directory.\<close>

definition download_from_guest :: "env \<Rightarrow> box \<Rightarrow> (string \<Rightarrow> string) \<Rightarrow> string list \<Rightarrow> string \<Rightarrow> unit io" where
  "download_from_guest E b mkdtemp sources dest =
     bnd (reads (\<lambda>h. case tree_ans E h dest of Some t \<Rightarrow> leads_to_dir t | None \<Rightarrow> False)) (\<lambda>dest_is_dir.
     if endswith dest ''/'' \<and> \<not> dest_is_dir
     then raise (YoError ''destination is not a directory'' [shown dest])
     else if \<not> dest_is_dir \<and> length sources > 1
     then raise (YoError ''is not an existing directory, which the sources need''
                   [shown dest, show_nat (length sources)])
     else
       (let parent = (if dest_is_dir then dest else dirname (unslashed dest)); staging = mkdtemp parent in
        sq (except_os (host_op E ''mkdtemp'' [parent, staging])
              (\<lambda>e. raise (YoError ''cannot stage a copy in'' [shown parent, os_reason e])))
        (sq (catch
               (sq (fetch_guest_sources E b sources staging)
               (bnd (drop_staged E staging) (\<lambda>kept.
                place_staged E staging dest dest_is_dir kept)))
               (\<lambda>failure.
                sq (except_yo (remove_staging E staging)
                      (\<lambda>cleanup. case exn_message cleanup of
                          Some (w, a) \<Rightarrow> warn w a | None \<Rightarrow> warn [] []))
                   (raise failure)))
            (remove_staging E staging))))"

definition cmd_cp :: "env \<Rightarrow> box \<Rightarrow> (string \<Rightarrow> string) \<Rightarrow> (string \<Rightarrow> string) \<Rightarrow> string \<Rightarrow> string \<Rightarrow> string list \<Rightarrow> unit io" where
  "cmd_cp E b realpath mkdtemp lcwd cwd operands =
     sq (require_agent_account E b)
     (bnd (lift (resolve_cp_operands b operands (mirror E realpath lcwd))) (\<lambda>plan.
      sq (for_each (zip (filter operand_is_guest operands) (cp_guest_paths plan))
            (\<lambda>(operand, resolved). warn ''guest path'' [operand, resolved]))
      (let locals = map (local_cp_operand cwd) (cp_local_paths plan) in
       case cp_direction plan of
         To_Guest \<Rightarrow>
           sq (for_each locals (\<lambda>source.
                 bnd (reads (\<lambda>h. tree_ans E h (unslashed source))) (\<lambda>found.
                 lift (refuse_symlinks_in source found))))
           (let target = cp_mkdir_target (last operands) (hd (cp_guest_paths plan)) (length (cp_local_paths plan)) in
            sq (bnd (ssh_run E b AGENT [''mkdir'', ''-p'', target] checked) (\<lambda>_. ret ()))
               (scp_transfer E b locals (vm_host b @ '':'' @ hd (cp_guest_paths plan))))
       | From_Guest \<Rightarrow> download_from_guest E b mkdtemp (cp_guest_paths plan) (hd locals))))"

subsection \<open>Operands stay inside\<close>

lemma clean_CP_GUEST_ROOTS: "list_all clean_path CP_GUEST_ROOTS"
proof -
  have "clean_path ''/tmp''"
    unfolding clean_path_def by (intro exI [of _ "[''tmp'']"]) (simp add: clean_component_def)
  then show ?thesis by (simp add: CP_GUEST_ROOTS_def clean_AGENT_HOME)
qed

interpretation cp_roots: confinement "\<lambda>p. guest_path p CP_GUEST_ROOTS" "inside_roots CP_GUEST_ROOTS"
  by unfold_locales (auto intro!: guest_path_inside guest_path_again simp: clean_CP_GUEST_ROOTS)

lemma inside_home_cp: "inside_roots [AGENT_HOME] p \<Longrightarrow> inside_roots CP_GUEST_ROOTS p"
  by (simp add: inside_roots_def CP_GUEST_ROOTS_def)

lemma resolve_guest_operand_inside:
  assumes "resolve_guest_operand operand cwd = Inr p"
  shows "inside_roots CP_GUEST_ROOTS p"
  using assms guest_home.accept_inside [THEN inside_home_cp] cp_roots.accept_inside
  by (auto simp: resolve_guest_operand_def Let_def split: if_splits option.splits)

lemma resolve_all_inside:
  "resolve_all xs cwd = Inr ps \<Longrightarrow> length ps = length xs \<and> list_all (inside_roots CP_GUEST_ROOTS) ps"
  by (induction xs arbitrary: ps) (auto simp: resolve_guest_operand_inside split: sum.splits)

lemma fromkeys_single:
  assumes "\<not> length (fromkeys xs) > 1" and "x \<in> set xs" and "y \<in> set xs"
  shows "x = y"
proof -
  have "x \<in> set (fromkeys xs)" "y \<in> set (fromkeys xs)" using assms by simp_all
  then show ?thesis using assms(1) by (cases "fromkeys xs") auto
qed

text \<open>What an accepted operand list is, before its guest paths are resolved.\<close>

lemma resolve_cp_operands_shape:
  assumes "resolve_cp_operands b operands cwd = Inr plan"
  shows "2 \<le> length operands" "[] \<notin> set operands" "list_ex operand_is_guest operands"
    "\<not> length (fromkeys (map operand_is_guest (butlast operands))) > 1"
    "operand_is_guest (hd (butlast operands)) \<longleftrightarrow> cp_direction plan = From_Guest"
    "cp_direction plan = From_Guest \<Longrightarrow> \<not> operand_is_guest (last operands)
       \<and> cp_local_paths plan = [last operands] \<and> resolve_all (butlast operands) cwd = Inr (cp_guest_paths plan)"
    "cp_direction plan = To_Guest \<Longrightarrow> cp_local_paths plan = butlast operands
       \<and> resolve_all [last operands] cwd = Inr (cp_guest_paths plan)"
  using assms
  by (auto simp: resolve_cp_operands_def Let_def simp del: resolve_all.simps split: if_splits sum.splits)

lemma resolve_cp_operands_inside:
  assumes "resolve_cp_operands b operands cwd = Inr plan"
  shows "list_all (inside_roots CP_GUEST_ROOTS) (cp_guest_paths plan)" "cp_guest_paths plan \<noteq> []"
proof -
  note sh = resolve_cp_operands_shape [OF assms]
  obtain xs where xs: "resolve_all xs cwd = Inr (cp_guest_paths plan)" "xs \<noteq> []"
  proof (cases "cp_direction plan")
    case From_Guest
    moreover have "butlast operands \<noteq> []" using sh(1) by (cases operands rule: rev_cases) auto
    ultimately show thesis using sh(6) that by blast
  next
    case To_Guest
    then show thesis using sh(7) that by blast
  qed
  from resolve_all_inside [OF xs(1)] xs(2)
  show "list_all (inside_roots CP_GUEST_ROOTS) (cp_guest_paths plan)" "cp_guest_paths plan \<noteq> []" by auto
qed

lemma resolve_cp_operands_sides:
  assumes "resolve_cp_operands b operands cwd = Inr plan"
  shows "x \<in> set (butlast operands) \<Longrightarrow> operand_is_guest x \<longleftrightarrow> cp_direction plan = From_Guest"
    and "operand_is_guest (last operands) \<longleftrightarrow> cp_direction plan = To_Guest"
proof -
  note sh = resolve_cp_operands_shape [OF assms]
  have src: "operand_is_guest x \<longleftrightarrow> cp_direction plan = From_Guest" if "x \<in> set (butlast operands)" for x
  proof -
    from that have "hd (butlast operands) \<in> set (butlast operands)" by (intro hd_in_set) auto
    with fromkeys_single [OF sh(4)] that
    have "operand_is_guest x = operand_is_guest (hd (butlast operands))" by simp
    with sh(5) show ?thesis by simp
  qed
  then show "x \<in> set (butlast operands) \<Longrightarrow> operand_is_guest x \<longleftrightarrow> cp_direction plan = From_Guest" .
  have "operands = butlast operands @ [last operands]" using sh(1) by (cases operands rule: rev_cases) auto
  then have "list_ex operand_is_guest (butlast operands) \<or> operand_is_guest (last operands)"
    using sh(3) list_ex_append [of operand_is_guest "butlast operands" "[last operands]"] by simp
  with src show "operand_is_guest (last operands) \<longleftrightarrow> cp_direction plan = To_Guest"
    using sh(6) by (cases "cp_direction plan") (auto simp: list_ex_iff)
qed

subsection \<open>What scp's remote glob matches\<close>

text \<open>The one path a glob without an active wildcard matches, none when it has one.\<close>

fun glob_literal :: "string \<Rightarrow> string option" where
  "glob_literal [] = Some []"
| "glob_literal [c] = (if glob_char c then None else Some [c])"
| "glob_literal (c # d # s) =
     (if c = CHR 0x5C then map_option ((#) d) (glob_literal s)
      else if glob_char c then None
      else map_option ((#) c) (glob_literal (d # s)))"

lemma glob_literal_plain: "\<not> glob_char c \<Longrightarrow> glob_literal (c # s) = map_option ((#) c) (glob_literal s)"
  by (cases s) (auto simp: glob_char_def)

lemma glob_literal_escape: "glob_literal (scp_glob_escape p) = Some p"
  by (induction p) (auto simp: scp_glob_escape_def glob_literal_plain)

subsection \<open>The listing\<close>

lemma clean_path_under:
  assumes "clean_path base" and "startswith p (base @ ''/'')" and "normpath p = p"
  shows "clean_path p"
proof -
  from assms(1) obtain c r where "base = CHR ''/'' # c # r" "c \<noteq> CHR ''/''" by (rule clean_path_start)
  with assms(2) obtain r' where "p = CHR ''/'' # c # r'" "c \<noteq> CHR ''/''" by (auto simp: startswith_iff)
  with assms(3) show ?thesis using normpath_rooted by metis
qed

definition under_some :: "string list \<Rightarrow> string \<Rightarrow> bool" where
  "under_some starts p \<longleftrightarrow> list_ex (\<lambda>s. under_root s p) starts"

lemma parse_guest_record_Inr:
  assumes "parse_guest_record r starts ls = Inr e" and "list_all clean_path starts"
  shows "clean_path (ge_path e) \<and> under_some starts (ge_path e)
    \<and> (\<not> ls \<longrightarrow> list_ex (\<lambda>s. startswith (ge_path e) (s @ ''/'')) starts)"
proof -
  from assms(1) have norm: "normpath (ge_path e) = ge_path e"
    and under: "list_ex (\<lambda>s. startswith (ge_path e) (s @ ''/'')) starts \<or> (ls \<and> ge_path e \<in> set starts)"
    by (auto simp: parse_guest_record_def Let_def split: option.splits if_splits)
  then have "clean_path (ge_path e)"
    using assms(2) clean_path_under by (auto simp: list_all_iff list_ex_iff)
  with under show ?thesis by (auto simp: under_some_def under_root_def list_ex_iff)
qed

lemma gather_Inr:
  assumes "gather rs starts ls acc = Inr es" and "list_all clean_path starts"
    and "distinct (map ge_path acc)" and "\<forall>e \<in> set acc. clean_path (ge_path e) \<and> under_some starts (ge_path e)
      \<and> (\<not> ls \<longrightarrow> list_ex (\<lambda>s. startswith (ge_path e) (s @ ''/'')) starts)"
  shows "distinct (map ge_path es) \<and> (\<forall>e \<in> set es. clean_path (ge_path e) \<and> under_some starts (ge_path e)
      \<and> (\<not> ls \<longrightarrow> list_ex (\<lambda>s. startswith (ge_path e) (s @ ''/'')) starts))"
  using assms
proof (induction rs starts ls acc rule: gather.induct)
  case (2 r rs starts ls acc)
  show ?case
  proof (cases "r = []")
    case True
    with 2 show ?thesis by simp
  next
    case False
    with "2.prems"(1) obtain e where e: "parse_guest_record r starts ls = Inr e"
      by (auto split: sum.splits)
    show ?thesis
    proof (cases "entry_of acc (ge_path e)")
      case None
      then have "ge_path e \<notin> set (map ge_path acc)" by (auto simp: entry_of_def find_None_iff)
      with "2.IH"(2) [OF False e None] "2.prems" e None False parse_guest_record_Inr [OF e "2.prems"(2)]
      show ?thesis by simp
    next
      case (Some old)
      with "2.prems"(1) False e have "old = e" by (auto split: if_splits)
      with "2.IH"(3) [OF False e Some this] "2.prems" e Some False show ?thesis by simp
    qed
  qed
qed simp

lemma list_guest_Inr:
  assumes "list_guest E b starts tests ls h = (Inr es, t)" and "list_all clean_path starts"
  shows "distinct (map ge_path es)"
    and "e \<in> set es \<Longrightarrow> clean_path (ge_path e) \<and> under_some starts (ge_path e)"
    and "e \<in> set es \<Longrightarrow> \<not> ls \<Longrightarrow> list_ex (\<lambda>s. startswith (ge_path e) (s @ ''/'')) starts"
proof -
  from assms(1) obtain out where g: "gather (split_on CHR 0x00 out) starts ls [] = Inr es"
    by (auto simp: list_guest_def lift_def raise_def elim!: bnd_InrE split: if_splits)
  from gather_Inr [OF g assms(2)]
  show "distinct (map ge_path es)"
    and "e \<in> set es \<Longrightarrow> clean_path (ge_path e) \<and> under_some starts (ge_path e)"
    and "e \<in> set es \<Longrightarrow> \<not> ls \<Longrightarrow> list_ex (\<lambda>s. startswith (ge_path e) (s @ ''/'')) starts"
    by auto
qed

subsection \<open>Batches\<close>

definition batch_cost :: "string list \<Rightarrow> nat" where
  "batch_cost batch = (\<Sum>x \<leftarrow> batch. length x + 1)"

lemma batches_from_concat: "concat (batches_from batch used xs) = batch @ xs"
  by (induction batch used xs rule: batches_from.induct) (auto simp: Let_def)

lemma batches_from_budget:
  assumes "used = batch_cost batch" and "used \<le> SCP_ARGV_BUDGET \<or> length batch = 1"
    and "g \<in> set (batches_from batch used xs)"
  shows "g \<noteq> [] \<and> (batch_cost g \<le> SCP_ARGV_BUDGET \<or> length g = 1)"
  using assms
proof (induction batch used xs rule: batches_from.induct)
  case (1 batch used)
  then show ?case by (auto split: if_splits)
next
  case (2 batch used x xs)
  show ?case
  proof (cases "batch \<noteq> [] \<and> used + (length x + 1) > SCP_ARGV_BUDGET")
    case True
    with 2 show ?thesis by (auto simp: Let_def batch_cost_def)
  next
    case False
    then have "batch = [] \<or> used + (length x + 1) \<le> SCP_ARGV_BUDGET" by auto
    then have "used + (length x + 1) \<le> SCP_ARGV_BUDGET \<or> length (batch @ [x]) = 1" by auto
    moreover have "used + (length x + 1) = batch_cost (batch @ [x])"
      using "2.prems"(1) by (simp add: batch_cost_def)
    moreover have "g \<in> set (batches_from (batch @ [x]) (used + (length x + 1)) xs)"
      using False "2.prems"(3) by (auto simp: Let_def)
    ultimately show ?thesis using "2.IH"(2) [OF refl False] by blast
  qed
qed

subsection \<open>The directories above build output\<close>

definition abs_path :: "string list \<Rightarrow> string" where
  "abs_path cs = CHR ''/'' # join_on CHR ''/'' cs"

lemma join_on_snoc: "cs \<noteq> [] \<Longrightarrow> join_on sep (cs @ [d]) = join_on sep cs @ sep # d"
proof (induction cs)
  case (Cons c cs)
  then show ?case by (cases cs) (auto simp: join_on_Cons)
qed simp

lemma last_split_snoc: "CHR ''/'' \<notin> set d \<Longrightarrow> last (split_on CHR ''/'' (p @ CHR ''/'' # d)) = d"
  by (simp add: split_on_append split_on_clean)

lemma rstrip_nonslash: "p \<noteq> [] \<Longrightarrow> last p \<noteq> CHR ''/'' \<Longrightarrow> rstrip_char CHR ''/'' (p @ ''/'') = p"
  by (cases p rule: rev_cases) (auto simp: rstrip_char_def rstrip_by_def)

lemma dirname_snoc:
  assumes "CHR ''/'' \<notin> set d" and "p \<noteq> []" and "last p \<noteq> CHR ''/''"
  shows "dirname (p @ CHR ''/'' # d) = p"
proof -
  have b: "basename (p @ CHR ''/'' # d) = d"
    using assms(1) by (simp add: basename_def last_split_snoc)
  have "last p \<in> set p" using assms(2) by simp
  with assms(3) have "\<not> list_all (\<lambda>c. c = CHR ''/'') (p @ ''/'')" by (auto simp: list_all_iff)
  with assms(2,3) show ?thesis by (simp add: dirname_def b rstrip_nonslash)
qed

lemma abs_path_last:
  assumes "list_all clean_component cs" and "cs \<noteq> []"
  shows "last (abs_path cs) \<noteq> CHR ''/'' \<and> abs_path cs \<noteq> []"
  using assms
proof (induction cs rule: rev_induct)
  case (snoc d cs)
  then have d: "d \<noteq> []" "CHR ''/'' \<notin> set d" by (auto simp: clean_component_def)
  then have "last d \<noteq> CHR ''/''" by (metis last_in_set)
  with d show ?case by (cases "cs = []") (auto simp: abs_path_def join_on_snoc)
qed simp

lemma dirname_abs_path:
  assumes "list_all clean_component (cs @ [d])" and "cs \<noteq> []"
  shows "dirname (abs_path (cs @ [d])) = abs_path cs"
proof -
  have "abs_path (cs @ [d]) = abs_path cs @ CHR ''/'' # d"
    using assms(2) by (simp add: abs_path_def join_on_snoc)
  moreover have "CHR ''/'' \<notin> set d" using assms(1) by (simp add: clean_component_def)
  ultimately show ?thesis
    using dirname_snoc abs_path_last [of cs] assms by simp
qed

lemma clean_path_abs: "clean_path p \<longleftrightarrow> (\<exists>cs. cs \<noteq> [] \<and> p = abs_path cs \<and> list_all clean_component cs)"
  by (simp add: clean_path_def abs_path_def)

lemma abs_path_inject:
  assumes "list_all clean_component cs" "list_all clean_component ds" "cs \<noteq> []" "ds \<noteq> []"
    and "abs_path cs = abs_path ds"
  shows "cs = ds"
proof -
  have "[] # cs = components (abs_path cs)"
    using components_rooted [OF assms(1,3)] by (simp add: abs_path_def)
  also have "\<dots> = [] # ds"
    unfolding assms(5) using components_rooted [OF assms(2,4)] by (simp add: abs_path_def)
  finally show ?thesis by simp
qed

text \<open>Under a clean directory, a clean path continues its components.\<close>

lemma clean_under:
  assumes "list_all clean_component cs" and "cs \<noteq> []" and "clean_path p"
    and "startswith p (abs_path cs @ ''/'')"
  obtains ds where "p = abs_path (cs @ ds)" "ds \<noteq> []" "list_all clean_component (cs @ ds)"
proof -
  from assms(3) obtain es where es: "es \<noteq> []" "p = abs_path es" "list_all clean_component es"
    by (auto simp: clean_path_abs)
  from assms(4) obtain r where "p = abs_path cs @ ''/'' @ r" by (auto simp: startswith_iff)
  then have "components p = components (abs_path cs @ CHR ''/'' # r)" by simp
  also have "\<dots> = [] # cs @ split_on CHR ''/'' r"
  proof -
    have "split_on CHR ''/'' (join_on CHR ''/'' cs @ CHR ''/'' # r) = cs @ split_on CHR ''/'' r"
      using assms(1,2)
    proof (induction cs)
      case (Cons c cs)
      then have "CHR ''/'' \<notin> set c" by (simp add: clean_component_def)
      with Cons show ?case by (cases "cs = []") (auto simp: split_on_append_sep join_on_Cons)
    qed simp
    then show ?thesis by (simp add: components_def abs_path_def)
  qed
  finally have "es = cs @ split_on CHR ''/'' r"
    using es by (simp add: components_rooted abs_path_def)
  with es that [of "split_on CHR ''/'' r"] show thesis by simp
qed

lemma length_join_on: "list_all clean_component cs \<Longrightarrow> length cs \<le> length (join_on CHR ''/'' cs)"
proof (induction cs)
  case (Cons c cs)
  then have "Suc 0 \<le> length c" by (cases c) (auto simp: clean_component_def)
  with Cons show ?case by (cases "cs = []") (auto simp: join_on_Cons)
qed simp

lemma down_to_enough:
  assumes "list_all clean_component (cs @ ds)" and "cs \<noteq> []" and "length ds < n"
  shows "down_to n (abs_path cs) (abs_path (cs @ ds))
    = Some (map (\<lambda>k. abs_path (cs @ take k ds)) (rev [0..<Suc (length ds)]))"
  using assms
proof (induction ds arbitrary: n rule: rev_induct)
  case Nil
  then show ?case by (cases n) auto
next
  case (snoc d ds)
  from snoc.prems(3) obtain m where n: "n = Suc m" by (cases n) auto
  have "abs_path (cs @ ds @ [d]) \<noteq> abs_path cs"
    using abs_path_inject [of "cs @ ds @ [d]" cs] snoc.prems by auto
  moreover have "dirname (abs_path ((cs @ ds) @ [d])) = abs_path (cs @ ds)"
    using snoc.prems by (intro dirname_abs_path) auto
  moreover have "down_to m (abs_path cs) (abs_path (cs @ ds))
      = Some (map (\<lambda>k. abs_path (cs @ take k ds)) (rev [0..<Suc (length ds)]))"
    using snoc.prems n by (intro snoc.IH) auto
  ultimately show ?case by (simp add: n)
qed

lemma directories_down_to_paths:
  assumes "list_all clean_component cs" "cs \<noteq> []" "clean_path p" "startswith p (abs_path cs @ ''/'')"
  shows "\<exists>ds. p = abs_path (cs @ ds) \<and> ds \<noteq> [] \<and>
    directories_down_to (abs_path cs) p = Some (map (\<lambda>k. abs_path (cs @ take k ds)) (rev [0..<length ds]))"
proof -
  from assms obtain ds where ds: "p = abs_path (cs @ ds)" "ds \<noteq> []" "list_all clean_component (cs @ ds)"
    by (rule clean_under)
  then obtain es d where d: "ds = es @ [d]" by (cases ds rule: rev_cases) auto
  have "dirname p = abs_path (cs @ es)"
    using ds dirname_abs_path [of "cs @ es" d] assms(2) by (simp add: d)
  moreover have "length es < length p"
    using length_join_on [OF ds(3)] assms(2) by (simp add: ds(1) abs_path_def d)
  ultimately have "directories_down_to (abs_path cs) p
      = Some (map (\<lambda>k. abs_path (cs @ take k es)) (rev [0..<Suc (length es)]))"
    using down_to_enough [of cs es "length p"] ds(3) assms(2) by (simp add: directories_down_to_def d)
  with ds show ?thesis by (auto simp: d intro!: exI [of _ "es @ [d]"])
qed

subsection \<open>The outermost build output\<close>

definition strictly_under :: "string \<Rightarrow> string \<Rightarrow> bool" where
  "strictly_under p q \<longleftrightarrow> startswith p (q @ ''/'')"

lemma outermost_set:
  "set kept \<subseteq> set (outermost kept ps) \<and> set (outermost kept ps) \<subseteq> set kept \<union> set ps"
  by (induction kept ps rule: outermost.induct) auto

lemma outermost_covers:
  "p \<in> set ps \<Longrightarrow> p \<in> set (outermost kept ps) \<or> (\<exists>q \<in> set (outermost kept ps). strictly_under p q)"
proof (induction kept ps rule: outermost.induct)
  case (2 kept x ps)
  show ?case
  proof (cases "list_ex (\<lambda>k. startswith x (k @ ''/'')) kept")
    case True
    then obtain k where "k \<in> set kept" "strictly_under x k" by (auto simp: list_ex_iff strictly_under_def)
    with 2 True outermost_set [of kept ps] show ?thesis by auto
  next
    case False
    with 2 outermost_set [of "kept @ [x]" ps] show ?thesis by auto
  qed
qed simp

lemma under_less: "strictly_under p q \<Longrightarrow> q < p"
proof -
  assume "strictly_under p q"
  then obtain r where "p = q @ CHR ''/'' # r" by (auto simp: strictly_under_def startswith_iff)
  then show ?thesis by (induction q arbitrary: p) auto
qed

lemma outermost_apart:
  assumes "sorted (kept @ ps)"
    and "\<forall>p \<in> set kept. \<forall>q \<in> set kept. \<not> strictly_under p q"
  shows "\<forall>p \<in> set (outermost kept ps). \<forall>q \<in> set (outermost kept ps). \<not> strictly_under p q"
  using assms
proof (induction kept ps rule: outermost.induct)
  case (2 kept x ps)
  show ?case
  proof (cases "list_ex (\<lambda>k. startswith x (k @ ''/'')) kept")
    case True
    with 2 show ?thesis by (simp add: sorted_append)
  next
    case False
    then have "\<forall>q \<in> set kept. \<not> strictly_under x q" by (auto simp: list_ex_iff strictly_under_def)
    moreover have "\<not> strictly_under p x" if "p \<in> set kept" for p
    proof
      assume "strictly_under p x"
      then have "x < p" by (rule under_less)
      moreover from "2.prems"(1) that have "p \<le> x" by (auto simp: sorted_append)
      ultimately show False by simp
    qed
    moreover have "\<not> strictly_under x x"
      using under_less [of x x] by blast
    ultimately have apart: "\<forall>p \<in> set (kept @ [x]). \<forall>q \<in> set (kept @ [x]). \<not> strictly_under p q"
      using "2.prems"(2) by auto
    have sorted: "sorted ((kept @ [x]) @ ps)" using "2.prems"(1) by simp
    from "2.IH"(2) [OF False sorted apart] False show ?thesis by simp
  qed
qed simp

subsection \<open>The fuel of a walk\<close>

lemma fetch_children_cong:
  "(\<And>c. c \<in> set cs \<Longrightarrow> d c = d' c) \<Longrightarrow> fetch_children walk source d cs = fetch_children walk source d' cs"
  by (induction cs) (auto split: option.splits)

lemma dirname_shorter:
  assumes "clean_path p"
  shows "length (dirname p) < length p"
proof -
  from assms obtain cs where cs: "cs \<noteq> []" "p = abs_path cs" "list_all clean_component cs"
    by (auto simp: clean_path_abs)
  then obtain es d where d: "cs = es @ [d]" by (cases cs rule: rev_cases) auto
  with cs(3) have dc: "d \<noteq> []" "CHR ''/'' \<notin> set d" by (auto simp: clean_component_def)
  have "basename p = d"
    using dc last_split_snoc [of d "[]"] last_split_snoc [of d "abs_path es"]
    by (cases "es = []") (auto simp: cs(2) d basename_def abs_path_def join_on_snoc)
  with dc have "0 < length (basename p)" by simp
  moreover have "length (dirname p) \<le> length p - length (basename p)"
    using length_dropWhile_le [of "\<lambda>d. d = CHR ''/''" "rev (take (length p - length (basename p)) p)"]
    by (simp add: dirname_def Let_def rstrip_char_def rstrip_by_def)
  moreover have "0 < length p" by (simp add: cs(2) abs_path_def)
  ultimately show ?thesis by linarith
qed

lemma walk_fuel_bound: "e \<in> set (gw_entries walk) \<Longrightarrow> length (ge_path e) < walk_fuel walk"
proof -
  have "x \<in> set xs \<Longrightarrow> x \<le> foldr max xs 0" for x :: nat and xs
    by (induction xs) auto
  then show "e \<in> set (gw_entries walk) \<Longrightarrow> length (ge_path e) < walk_fuel walk"
    by (fastforce simp: walk_fuel_def less_Suc_eq_le)
qed

text \<open>More fuel than \<open>walk_fuel\<close> changes nothing: a walk never runs out of it.\<close>

lemma fetch_walked_fuel:
  assumes "\<forall>e \<in> set (gw_entries walk). clean_path (ge_path e)"
    and "walk_fuel walk \<le> n + length directory" and "walk_fuel walk \<le> m + length directory" and "0 < n" and "0 < m"
  shows "fetch_walked n E b walk source directory local = fetch_walked m E b walk source directory local"
  using assms(2-)
proof (induction n arbitrary: m directory local)
  case 0
  then show ?case by simp
next
  case (Suc n)
  from Suc.prems(4) obtain k where m: "m = Suc k" by (cases m) auto
  have same: "fetch_walked n E b walk source child l = fetch_walked k E b walk source child l"
    if "child \<in> set (children_of walk directory)" "entry_of (gw_entries walk) directory \<noteq> None" for child l
  proof -
    from that(1) obtain e where e: "e \<in> set (gw_entries walk)" "child = ge_path e" "dirname child = directory"
      by (auto simp: children_of_def)
    with assms(1) dirname_shorter have longer: "length directory < length child" by auto
    from walk_fuel_bound [OF e(1)] e(2) have "length child < walk_fuel walk" by simp
    then have "0 < n" "0 < k" using longer Suc.prems m by auto
    with longer Suc.prems m show ?thesis by (intro Suc.IH) auto
  qed
  show ?case
    using fetch_children_cong [of "children_of walk directory"
        "\<lambda>child. fetch_walked n E b walk source child (path_join local (basename child))"
        "\<lambda>child. fetch_walked k E b walk source child (path_join local (basename child))" walk source] same
    by (auto simp: m split: option.splits)
qed

subsection \<open>Properties\<close>

text \<open>
  C23: a plan of \<open>yo cp\<close> has guest paths, all of them inside the roots a copy may touch, and its
  sources are all on one side and the destination on the other.
\<close>

theorem copy_plan_is_confined:
  assumes "resolve_cp_operands b operands cwd = Inr plan"
  shows "cp_guest_paths plan \<noteq> [] \<and> list_all (inside_roots CP_GUEST_ROOTS) (cp_guest_paths plan)
    \<and> list_all (\<lambda>x. operand_is_guest x \<longleftrightarrow> cp_direction plan = From_Guest) (butlast operands)
    \<and> (operand_is_guest (last operands) \<longleftrightarrow> cp_direction plan = To_Guest)"
  using resolve_cp_operands_inside [OF assms] resolve_cp_operands_sides [OF assms]
  by (simp add: list_all_iff)

theorem copy_plan_is_confined_witness:
  "\<exists>plan. resolve_cp_operands sample_box ['':/home/agent/src/../a'', ''here''] None = Inr plan
    \<and> list_all (inside_roots CP_GUEST_ROOTS) (cp_guest_paths plan)"
proof -
  have "case resolve_cp_operands sample_box ['':/home/agent/src/../a'', ''here''] None of Inr p \<Rightarrow> True | Inl e \<Rightarrow> False"
    by code_simp
  then obtain plan where run: "resolve_cp_operands sample_box ['':/home/agent/src/../a'', ''here''] None = Inr plan"
    by (auto split: sum.splits)
  from copy_plan_is_confined [OF run] run show ?thesis by blast
qed

text \<open>
  A guest path escaped for scp is a glob that matches that path alone.
\<close>

lemma escaped_path_is_literal:
  "glob_literal (scp_glob_escape p) = Some p"
  by (rule glob_literal_escape)

text \<open>
  C24: every entry a listing of the guest yields is a normal path under one of the directories
  asked for, and no path appears twice.
\<close>

theorem guest_listing_is_confined:
  assumes "list_guest E b starts tests ls h = (Inr es, t)" and "list_all clean_path starts"
  shows "distinct (map ge_path es)
    \<and> list_all (\<lambda>e. clean_path (ge_path e) \<and> under_some starts (ge_path e)) es"
  using list_guest_Inr [OF assms] by (simp add: list_all_iff)

definition listing_env :: env where
  "listing_env = sample_env\<lparr>proc_ans := (\<lambda>h argv i.
     Finished 0 (''f'' @ [TAB] @ ''644'' @ [TAB] @ ''12.5'' @ [TAB] @ ''/home/agent/a/x'' @ [CHR 0x00]) [])\<rparr>"

theorem guest_listing_is_confined_witness:
  "\<exists>es t. list_guest listing_env sample_box [''/home/agent/a''] find_tests False [] = (Inr es, t)
    \<and> map ge_path es = [''/home/agent/a/x'']
    \<and> list_all (\<lambda>e. clean_path (ge_path e) \<and> under_some [''/home/agent/a''] (ge_path e)) es"
proof -
  have "case fst (list_guest listing_env sample_box [''/home/agent/a''] find_tests False []) of
      Inr es \<Rightarrow> map ge_path es = [''/home/agent/a/x''] | Inl e \<Rightarrow> False"
    by code_simp
  then obtain es t where run: "list_guest listing_env sample_box [''/home/agent/a''] find_tests False [] = (Inr es, t)"
    and one: "map ge_path es = [''/home/agent/a/x'']"
    by (cases "list_guest listing_env sample_box [''/home/agent/a''] find_tests False []") (auto split: sum.splits)
  have "clean_path ''/home/agent/a''"
    unfolding clean_path_def
    by (intro exI [of _ "[''home'', ''agent'', ''a'']"]) (simp add: clean_component_def)
  then have "list_all clean_path [''/home/agent/a'']" by simp
  from guest_listing_is_confined [OF run this]
  have "list_all (\<lambda>e. clean_path (ge_path e) \<and> under_some [''/home/agent/a''] (ge_path e)) es" ..
  with run one show ?thesis by (intro exI [of _ es] exI [of _ t] conjI)
qed

text \<open>
  Batching the operands of scp keeps them all, in order, and no batch but one of a single
  operand is over the budget of a command line.
\<close>

lemma batches_complete_and_bounded:
  "concat (in_batches xs) = xs
   \<and> list_all (\<lambda>g. batch_cost g \<le> SCP_ARGV_BUDGET \<or> length g = 1) (in_batches xs)"
proof -
  have "batch_cost [] = 0" by (simp add: batch_cost_def)
  then show ?thesis
    using batches_from_concat [of "[]" 0 xs] batches_from_budget [of 0 "[]" _ xs]
    by (auto simp: in_batches_def list_all_iff)
qed

text \<open>
  The outermost directories kept of a listing are some of those listed, none of them inside
  another, and every directory listed is one of them or inside one.
\<close>

lemma outermost_directories:
  "set (outermost [] (sort ps)) \<subseteq> set ps
   \<and> list_all (\<lambda>p. list_all (\<lambda>q. \<not> strictly_under p q) (outermost [] (sort ps))) (outermost [] (sort ps))
   \<and> list_all (\<lambda>p. list_ex (\<lambda>q. p = q \<or> strictly_under p q) (outermost [] (sort ps))) ps"
proof -
  have "\<forall>p \<in> set (outermost [] (sort ps)). \<forall>q \<in> set (outermost [] (sort ps)). \<not> strictly_under p q"
    by (rule outermost_apart) simp_all
  moreover have "set (outermost [] (sort ps)) \<subseteq> set ps" using outermost_set [of "[]" "sort ps"] by auto
  moreover have "\<exists>q \<in> set (outermost [] (sort ps)). p = q \<or> strictly_under p q" if "p \<in> set ps" for p
    using that outermost_covers [of p "sort ps" "[]"] by auto
  ultimately show ?thesis by (auto simp: list_all_iff list_ex_iff)
qed



end
