(* ===== verification/Yo_Cli.thy ===== *)
theory Yo_Cli
  imports Yo_Session Yo_Status Yo_Cp Yo_Libvirt_Driver Yo_Lima
begin

text \<open>
  The command line of \<open>cli.py\<close>: the commands with their typed arguments, the driver of the host,
  the checks and repairs a command asks for before it runs, and the process entry point with its
  exit codes. What \<open>argparse\<close> makes of the words is a parameter; the functions it is given as
  \<open>type=\<close> are modelled, and applied here.
\<close>

subsection \<open>Commands\<close>

text \<open>A command with its arguments: \<open>'s\<close> is the type of a size, \<open>'n\<close> of a number.\<close>

datatype ('s, 'n) command =
    Up 's
  | Down
  | Destroy bool                    \<comment> \<open>\<open>--yes\<close>\<close>
  | Status
  | Bootstrap "string option" 's
  | Gc bool bool                    \<comment> \<open>\<open>--yes\<close> and \<open>--deep\<close>\<close>
  | Disk_Grow 'n
  | Ssh "string list"
  | Enter "string option"
  | Cp "string list"
  | Code "string option"
  | Zed "string option"
  | Port 'n
  | Aws_Check
  | Help "string option"

record size_words =
  memory_word :: "string option"
  disk_word :: "string option"
  cpus_word :: "string option"

definition typed_option :: "(string \<Rightarrow> exn + 'a) \<Rightarrow> string option \<Rightarrow> exn + 'a option" where
  "typed_option f word = (case word of None \<Rightarrow> Inr None | Some w \<Rightarrow> map_sum id Some (f w))"

text \<open>\<open>add_size_arguments\<close>\<close>

definition size_arguments :: "env \<Rightarrow> size_words \<Rightarrow> exn + size" where
  "size_arguments E w =
     (case typed_option (box_gib ''--memory'' MIN_MEMORY_GIB) (memory_word w) of Inl e \<Rightarrow> Inl e | Inr memory \<Rightarrow>
      case typed_option (box_gib ''--disk'' MIN_DISK_GIB) (disk_word w) of Inl e \<Rightarrow> Inl e | Inr disk \<Rightarrow>
      case typed_option (box_cpus (env_cpus E)) (cpus_word w) of Inl e \<Rightarrow> Inl e | Inr n \<Rightarrow>
        Inr \<lparr>asked_memory = memory, asked_disk = disk, asked_cpus = n\<rparr>)"

text \<open>The arguments of each command, each through its \<open>type=\<close>.\<close>

fun typed_command :: "env \<Rightarrow> (size_words, string) command \<Rightarrow> exn + (size, nat) command" where
  "typed_command E (Up w) = map_sum id Up (size_arguments E w)"
| "typed_command E Down = Inr Down"
| "typed_command E (Destroy yes) = Inr (Destroy yes)"
| "typed_command E Status = Inr Status"
| "typed_command E (Bootstrap v w) =
     (case typed_option (bootstrap_version E None) v of
        Inl e \<Rightarrow> Inl e
      | Inr ref \<Rightarrow> map_sum id (Bootstrap ref) (size_arguments E w))"
| "typed_command E (Gc yes deep) = Inr (Gc yes deep)"
| "typed_command E (Disk_Grow w) = map_sum id Disk_Grow (whole_gib ''disk-grow size'' w)"
| "typed_command E (Ssh ws) = Inr (Ssh ws)"
| "typed_command E (Enter project) = Inr (Enter project)"
| "typed_command E (Cp paths) = Inr (Cp paths)"
| "typed_command E (Code project) = Inr (Code project)"
| "typed_command E (Zed project) = Inr (Zed project)"
| "typed_command E (Port w) = map_sum id Port (guest_port_number w)"
| "typed_command E Aws_Check = Inr Aws_Check"
| "typed_command E (Help topic) = Inr (Help topic)"

text \<open>
  What \<open>parse_args\<close> makes of the words before the \<open>type=\<close> functions run: it ends the process
  itself (\<open>--help\<close>, \<open>--version\<close>, a usage error), or gives the machine and the command.
\<close>

datatype parsing = Stops int | Words string "(size_words, string) command"

definition USAGE_ERROR :: int where "USAGE_ERROR = 2"

text \<open>\<open>build_parser().parse_args(argv)\<close>: an \<open>ArgumentTypeError\<close> is a usage error, any other exception passes.\<close>

definition parse_args :: "env \<Rightarrow> parsing \<Rightarrow> (int + string \<times> (size, nat) command) io" where
  "parse_args E p =
     (case p of
        Stops code \<Rightarrow> ret (Inl code)
      | Words machine words \<Rightarrow>
          catch
            (bnd (lift (instance_name machine)) (\<lambda>name.
             bnd (lift (typed_command E words)) (\<lambda>c. ret (Inr (name, c)))))
            (\<lambda>e. if exn_class e = Argument_Type
                 then sq (warn ''usage: yo'' (message_texts [message_of e])) (ret (Inl USAGE_ERROR))
                 else raise e))"

subsection \<open>The driver of the host\<close>

definition driver_for :: "string \<Rightarrow> exn + (nat \<Rightarrow> env \<Rightarrow> box \<Rightarrow> driver)" where
  "driver_for platform =
     (if platform = ''darwin'' then Inr lima_driver
      else if platform = ''linux'' then Inr libvirt_driver
      else Inl (YoError ''yo drives the box from macOS or Linux'' [platform]))"

text \<open>\<open>state.set_box(driver, name)\<close>: the machine under its driver's directory of instances.\<close>

definition box_for :: "(nat \<Rightarrow> env \<Rightarrow> box \<Rightarrow> driver) \<Rightarrow> nat \<Rightarrow> env \<Rightarrow> string \<Rightarrow> box" where
  "box_for driver_of n E name =
     \<lparr>instances_dir = drv_instances_dir (driver_of n E \<lparr>instances_dir = [], box_name = name\<rparr>), box_name = name\<rparr>"

subsection \<open>What a command asks for before it runs\<close>

definition needs_driver :: "('s, 'n) command \<Rightarrow> bool" where
  "needs_driver c = (case c of Help _ \<Rightarrow> False | _ \<Rightarrow> True)"

definition logs_in :: "('s, 'n) command \<Rightarrow> bool" where
  "logs_in c = (case c of Up _ \<Rightarrow> False | Down \<Rightarrow> False | Destroy _ \<Rightarrow> False | Status \<Rightarrow> False
     | Bootstrap _ _ \<Rightarrow> False | Port _ \<Rightarrow> False | _ \<Rightarrow> True)"

definition heals :: "('s, 'n) command \<Rightarrow> bool" where
  "heals c = (case c of Ssh _ \<Rightarrow> True | Enter _ \<Rightarrow> True | Cp _ \<Rightarrow> True | Code _ \<Rightarrow> True | Zed _ \<Rightarrow> True | _ \<Rightarrow> False)"

definition heal_before_command :: "env \<Rightarrow> driver \<Rightarrow> box \<Rightarrow> unit io" where
  "heal_before_command E D b =
     catch (vm_services E D b) (\<lambda>e.
       if exn_class e = Unreachable_Box then raise e
       else if is_yo_error e
       then (let m = message_or (''unknown error'', []) e in
             warn ''yo: healing the box's forwards failed, going on:'' (fst m # snd m))
       else raise e)"

subsection \<open>Running a command\<close>

definition cmd_help :: "(string option \<Rightarrow> string) \<Rightarrow> string option \<Rightarrow> unit io" where
  "cmd_help format_help topic = say (rstrip_char CHR 0x0A (format_help topic)) []"

definition run_command :: "nat \<Rightarrow> env \<Rightarrow> place \<Rightarrow> driver \<Rightarrow> box \<Rightarrow> (string option \<Rightarrow> string) \<Rightarrow> (size, nat) command \<Rightarrow> unit io" where
  "run_command n E P D b format_help c =
     (case c of
        Up sz \<Rightarrow> cmd_up n E D b sz
      | Down \<Rightarrow> cmd_down E D b
      | Destroy yes \<Rightarrow> cmd_destroy E D b yes
      | Status \<Rightarrow> cmd_status E D b
      | Bootstrap version sz \<Rightarrow> cmd_bootstrap (place_realpath P) (place_dirname P) n E D b version sz
      | Gc yes deep \<Rightarrow> cmd_gc E b yes deep
      | Disk_Grow gib \<Rightarrow> cmd_disk_grow n E D b gib
      | Ssh ws \<Rightarrow> cmd_ssh E D b ws
      | Enter project \<Rightarrow> cmd_enter E b P project
      | Cp paths \<Rightarrow> cmd_cp E b (place_realpath P) (place_mkdtemp P) (logical_cwd_of P) (place_getcwd P) paths
      | Code project \<Rightarrow> cmd_code E b P project
      | Zed project \<Rightarrow> cmd_zed E b P project
      | Port guest_port \<Rightarrow> cmd_port D guest_port
      | Aws_Check \<Rightarrow> cmd_aws_check E D b
      | Help topic \<Rightarrow> cmd_help format_help topic)"

text \<open>The part of \<open>main\<close> after the arguments are read.\<close>

definition prepare_command :: "env \<Rightarrow> driver \<Rightarrow> box \<Rightarrow> (size, nat) command \<Rightarrow> unit io" where
  "prepare_command E D b c =
     sq (require_tool D)
     (sq (when_do (logs_in c) (require_login_key D))
         (when_do (heals c) (heal_before_command E D b)))"

definition dispatch :: "nat \<Rightarrow> env \<Rightarrow> place \<Rightarrow> (string option \<Rightarrow> string) \<Rightarrow> string \<Rightarrow> (size, nat) command \<Rightarrow> unit io" where
  "dispatch n E P format_help machine c =
     (if \<not> needs_driver c
      then (case c of Help topic \<Rightarrow> cmd_help format_help topic | _ \<Rightarrow> ret ())
      else
        bnd (lift (driver_for (env_platform E))) (\<lambda>driver_of.
        let b = box_for driver_of n E machine; D = driver_of n E b in
        sq (prepare_command E D b c) (run_command n E P D b format_help c)))"

definition main_of :: "nat \<Rightarrow> env \<Rightarrow> place \<Rightarrow> (string option \<Rightarrow> string) \<Rightarrow> parsing \<Rightarrow> int io" where
  "main_of n E P format_help parsed =
     bnd (parse_args E parsed) (\<lambda>args.
     case args of
       Inl code \<Rightarrow> ret code
     | Inr (machine, c) \<Rightarrow> sq (dispatch n E P format_help machine c) (ret 0))"

definition EXIT_INTERRUPTED :: int where "EXIT_INTERRUPTED = 130"
definition EXIT_BROKEN_PIPE :: int where "EXIT_BROKEN_PIPE = 128 + 13"

definition has_message :: "exn \<Rightarrow> bool" where
  "has_message e \<longleftrightarrow> (case exn_message e of None \<Rightarrow> False | Some (what, args) \<Rightarrow> what \<noteq> [] \<or> concat args \<noteq> [])"

text \<open>\<open>entry\<close>: the exit code; an exception it does not name is left to the interpreter.\<close>

definition entry :: "nat \<Rightarrow> env \<Rightarrow> place \<Rightarrow> (string option \<Rightarrow> string) \<Rightarrow> (string list \<Rightarrow> parsing) \<Rightarrow> string list \<Rightarrow> int io" where
  "entry n E P format_help parse argv =
     catch (main_of n E P format_help (parse argv)) (\<lambda>e.
       if is_yo_error e
       then sq (when_do (has_message e) (warn ''yo:'' (message_texts [message_of e]))) (ret (exn_code e))
       else if exn_class e = Keyboard_Interrupt then ret EXIT_INTERRUPTED
       else if exn_class e = Broken_Pipe then ret EXIT_BROKEN_PIPE
       else raise e)"

end
