(* ===== verification/Yo_Program.thy ===== *)
theory Yo_Program
  imports Yo_Cli Yo_Quiet_Status
begin

text \<open>
  The whole program: the footprints of the commands that move files and open sessions, and the
  contract of a host extended to every command, so that what holds of each command holds of a run
  of \<open>yo\<close> with any arguments on either host. The exit code is related to how the command ended.
\<close>

subsection \<open>Footprints of the copies\<close>

lemma logs_scp_transfer [footprint]: "ordinary A \<Longrightarrow> logs_only A (scp_transfer E b sources dest)"
  unfolding scp_transfer_def ssh_options_def
  by (intro footprint ordinary_events logs_only_mono [OF logs_ensure_config ordinary_ssh])

lemma logs_fetch_children:
  "ordinary A \<Longrightarrow> (\<And>c. logs_only A (descend c)) \<Longrightarrow> logs_only A (fetch_children walk source descend cs)"
  by (induction cs) (auto intro!: footprint ordinary_events simp: skipped_note_def split: option.split)

lemma logs_fetch_walked: "ordinary A \<Longrightarrow> logs_only A (fetch_walked n E b walk source directory local)"
proof (induction n arbitrary: directory local)
  case 0
  then show ?case by (simp add: logs_raise)
next
  case (Suc n)
  show ?case
    unfolding fetch_walked.simps
    by (intro footprint ordinary_events logs_fetch_children Suc)
qed

lemma logs_land_moves: "ordinary A \<Longrightarrow> logs_only A (land_moves E staging target n len rs)"
  by (induction rs arbitrary: n) (auto intro!: footprint ordinary_events)

lemma logs_download:
  assumes "ordinary A"
  shows "logs_only A (download_from_guest E b mkdtemp sources dest)"
proof -
  have lists: "logs_only A (list_guest E b starts tests l)" for starts tests l
    unfolding list_guest_def by (intro footprint ordinary_ssh assms)
  have fetch: "logs_only A (fetch_guest_sources E b sources staging)" for staging
    unfolding fetch_guest_sources_def find_build_output_def skipped_note_def Let_def
    by (intro footprint ordinary_events lists logs_fetch_walked assms)
  have staged: "logs_only A (drop_staged E staging)" "logs_only A (remove_staging E staging)"
    "logs_only A (place_staged E staging dest dir kept)" for staging dir kept
    unfolding drop_staged_def remove_staging_def place_staged_def Let_def
    by (intro footprint ordinary_events logs_land_moves assms)+
  show ?thesis
    unfolding download_from_guest_def Let_def by (intro footprint ordinary_events fetch staged assms)
qed

lemma logs_require_agent [footprint]: "ordinary A \<Longrightarrow> logs_only A (require_agent_account E b)"
  unfolding require_agent_account_def destroy_then_bootstrap_command_def Let_def
  by (auto intro!: footprint ordinary_events ordinary_ssh split: account_status.split)

lemma logs_cmd_cp:
  assumes "ordinary A"
  shows "logs_only A (cmd_cp E b realpath mkdtemp lcwd cwd operands)"
proof -
  have turn: "logs_only A (case d of To_Guest \<Rightarrow> m | From_Guest \<Rightarrow> m')" if "logs_only A m" "logs_only A m'" for d m m'
    using that by (cases d) simp_all
  show ?thesis
    unfolding cmd_cp_def Let_def
    by (intro footprint turn ordinary_events ordinary_ssh logs_download assms)
qed

subsection \<open>Footprints of the sessions\<close>

lemma logs_exec_process [footprint]: "Execed argv \<in> A \<Longrightarrow> logs_only A (exec_process E argv)"
  by (rule logs_files)

lemma logs_ssh_config_include [footprint]:
  "ordinary A \<Longrightarrow> logs_only A (ensure_ssh_config_include realpath dir_of E b r)"
  unfolding ensure_ssh_config_include_def ssh_config_reaches_box_def add_ssh_config_include_def Let_def
  by (intro footprint ordinary_events)

lemma logs_case_proc [footprint]:
  "(\<And>code out err. logs_only A (f code out err)) \<Longrightarrow> logs_only A m \<Longrightarrow>
   logs_only A (case ans of Finished code out err \<Rightarrow> f code out err | Not_On_Path \<Rightarrow> m)"
  by (cases ans) simp_all

lemma logs_target_dir [footprint]:
  assumes "ordinary A"
  shows "logs_only A (target_dir E b P project)"
proof -
  have "logs_only A (run_fzf E query projects)" for query projects
    unfolding run_fzf_def fzf_argv_def Let_def by (intro footprint ordinary_events assms)
  then show ?thesis
    unfolding target_dir_def pick_project_def dir_for_cwd_def missing_path_note_def agent_paths_def Let_def
    by (intro footprint ordinary_events ordinary_ssh assms)
qed

lemma logs_sessions:
  assumes "ordinary A"
  shows "logs_only A (cmd_ssh E D b ws)" "logs_only A (cmd_enter E b P project)" "logs_only A (cmd_code E b P project)"
    "logs_only A (cmd_zed E b P project)" "logs_only A (cmd_gc E b yes deep)"
  unfolding cmd_ssh_def cmd_enter_def cmd_code_def cmd_zed_def editor_target_def cmd_gc_def Let_def
  by (intro footprint ordinary_events ordinary_ssh assms)+

lemma logs_ensure_broker:
  "ordinary A \<Longrightarrow> broker_lock E A \<Longrightarrow> logs_only A (keepalive_pid D) \<Longrightarrow> logs_only A (ensure_aws_broker E D b)"
  unfolding ensure_aws_broker_def push_aws_guest_files_def
  by (intro footprint ordinary_events ordinary_ssh)

lemma logs_heal_forward: "ordinary A \<Longrightarrow> logs_only A (heal_reverse_forward E b fwd)"
  unfolding heal_reverse_forward_def forward_is_up_def forward_control_cmd_def
  by (intro footprint ordinary_ssh ordinary_events)

lemma listing_polite: "listing_events E b \<subseteq> polite_events E' b'"
  by (auto simp: listing_events_def polite_events_def is_send_def ssh_events_def)

lemma grows_logs:
  assumes "grows A (status_report E D b)"
  shows "logs_only A (cmd_status E D b)"
proof (rule logs_onlyI)
  fix h r t
  assume "cmd_status E D b h = (r, t)"
  then obtain q ws where "status_report E D b (h, []) = (q, t, ws)"
    by (auto simp: cmd_status_def ret_def raise_def split: prod.splits sum.splits if_splits)
  with assms show "\<exists>es. t = h @ es \<and> set es \<subseteq> A" by (blast dest: growsD)
qed

subsection \<open>The contract of a host, for every command\<close>

locale program_host = reporting_host +
  assumes polite_tool: "logs_only (polite_events E b) (require_tool D)"
    and polite_forward: "\<And>p. logs_only (polite_events E b) (forward_port D p)"
begin

lemma polite_vm_services: "logs_only (polite_events E b) (vm_services E D b)"
  by (intro footprint polite ordinary_polite broker_lock_polite)

lemma polite_prepare: "logs_only (polite_events E b) (prepare_command E D b c)"
  unfolding prepare_command_def heal_before_command_def Let_def
  by (intro footprint polite polite_tool polite_vm_services ordinary_events ordinary_polite)

lemma polite_aws_check: "logs_only (polite_events E b) (cmd_aws_check E D b)"
  unfolding cmd_aws_check_def
  by (intro footprint logs_ensure_broker logs_heal_forward polite ordinary_ssh ordinary_events ordinary_polite broker_lock_polite)

lemma polite_cmd_status: "logs_only (polite_events E b) (cmd_status E D b)"
proof (rule grows_logs)
  have "logs_only (polite_events E b) (account_of E b stage)" for stage
    unfolding account_of_def by (intro footprint ordinary_ssh ordinary_polite)
  then show "grows (polite_events E b) (status_report E D b)"
    unfolding status_report_def by (intro steps grows_status_box)
qed

lemma polite_listing: "logs_only (polite_events E b) (cmd_destroy E D b False)"
  by (rule logs_only_mono [OF logs_destroy_listing [OF polite_removals(1)]]) (simp add: listing_polite)

lemma sealed_command: "keeps (passphrase_sealed E b) (run_command n E P D b format_help c)"
proof -
  note sessions = logs_sessions [OF ordinary_polite]
  show ?thesis
  proof (cases c)
    case (Destroy yes)
    then show ?thesis
      by (cases yes) (simp_all add: run_command_def sealed_destroy polite_listing [THEN polite_keeps])
  next
    case (Port p)
    have "logs_only (polite_events E b) (cmd_port D p)"
      unfolding cmd_port_def by (intro footprint polite_forward ordinary_events ordinary_polite)
    with Port show ?thesis by (simp add: run_command_def polite_keeps)
  qed (simp_all add: run_command_def cmd_help_def sealed_up sealed_down sealed_bootstrap sealed_disk_grow
      polite_cmd_status [THEN polite_keeps] sessions [THEN polite_keeps] polite_aws_check [THEN polite_keeps]
      logs_cmd_cp [OF ordinary_polite, THEN polite_keeps] sealed_say)
qed

lemma sealed_prepared: "keeps (passphrase_sealed E b) (sq (prepare_command E D b c) (run_command n E P D b format_help c))"
  by (intro hoare_rules polite_prepare [THEN polite_keeps] sealed_command)

end

interpretation libvirt_program: program_host "libvirt_driver n E b" E b for n E b
  by unfold_locales (simp_all add: libvirt_driver_def libvirt_base_def footprint ordinary_polite own_locks_polite)

interpretation lima_program: program_host "lima_driver n E b" E b for n E b
  by unfold_locales (simp_all add: lima_driver_def lima_base_def footprint ordinary_polite)

subsection \<open>The program, on either host\<close>

text \<open>The lock is the machine's: where its driver keeps instances does not matter.\<close>

lemma sealed_by_name: "passphrase_sealed E b = passphrase_sealed E \<lparr>instances_dir = [], box_name = box_name b\<rparr>"
  by (simp add: fun_eq_iff passphrase_sealed_def unlock_lock_path_def)

lemma sealed_lines: "keeps (passphrase_sealed E b) (say w a)" "keeps (passphrase_sealed E b) (warn w a)"
  by (intro polite_keeps footprint ordinary_events ordinary_polite)+

lemma sealed_dispatch:
  "keeps (passphrase_sealed E \<lparr>instances_dir = [], box_name = machine\<rparr>) (dispatch n E P format_help machine c)"
proof -
  let ?I = "passphrase_sealed E \<lparr>instances_dir = [], box_name = machine\<rparr>"
  have I: "passphrase_sealed E (box_for d n E machine) = ?I" for d
    by (subst sealed_by_name) (simp add: box_for_def)
  have "keeps ?I (let b = box_for d n E machine; D = d n E b in sq (prepare_command E D b c) (run_command n E P D b format_help c))"
    if "d \<in> {lima_driver, libvirt_driver}" for d
  proof -
    from that have "keeps (passphrase_sealed E (box_for d n E machine))
        (let b = box_for d n E machine; D = d n E b in sq (prepare_command E D b c) (run_command n E P D b format_help c))"
      unfolding Let_def by (auto intro: lima_program.sealed_prepared libvirt_program.sealed_prepared)
    then show ?thesis unfolding I .
  qed
  then show ?thesis
    by (auto simp: dispatch_def driver_for_def cmd_help_def Let_def sealed_lines keeps_ret keeps_raise eff_simps
        split: command.split)
qed

lemma parse_args_machine:
  assumes "parse_args E (Words machine ws) h = (Inr (Inr (name, c)), t)"
  shows "name = machine \<and> instance_name machine = Inr machine \<and> typed_command E ws = Inr c \<and> t = h"
  using assms
  by (cases "instance_name machine"; cases "typed_command E ws")
    (auto simp: parse_args_def catch_def ret_def raise_def lift_def bnd_def instance_name_def split: if_splits prod.splits sum.splits)

lemma sealed_parse_args: "keeps (passphrase_sealed E b) (parse_args E' p)"
proof -
  have "logs_only (polite_events E b) (parse_args E' p)"
    by (cases p) (auto simp: parse_args_def intro!: footprint ordinary_events ordinary_polite)
  then show ?thesis by (rule polite_keeps)
qed

lemma sealed_main: "keeps (passphrase_sealed E \<lparr>instances_dir = [], box_name = machine\<rparr>) (main_of n E P format_help (Words machine ws))"
proof (rule keepsI)
  let ?I = "passphrase_sealed E \<lparr>instances_dir = [], box_name = machine\<rparr>"
  fix h r t
  assume I: "?I h" and run: "main_of n E P format_help (Words machine ws) h = (r, t)"
  obtain q u where q: "parse_args E (Words machine ws) h = (q, u)" by fastforce
  from keepsD [OF sealed_parse_args I q] have u: "?I u" .
  show "?I t"
  proof (cases "\<exists>name c. q = Inr (Inr (name, c))")
    case True
    then obtain name c where "q = Inr (Inr (name, c))" by blast
    with q parse_args_machine have qc: "q = Inr (Inr (machine, c))" by blast
    have "keeps ?I (sq (dispatch n E P format_help machine c) (ret (0 :: int)))"
      by (intro hoare_rules sealed_dispatch)
    moreover have "sq (dispatch n E P format_help machine c) (ret 0) u = (r, t)"
      using run q by (simp add: main_of_def bnd_def qc)
    ultimately show ?thesis using u by (blast dest: keepsD)
  next
    case False
    with run q u show ?thesis
      by (auto simp: main_of_def bnd_def ret_def split: sum.splits)
  qed
qed

lemma sealed_entry:
  "parse argv = Words machine ws \<Longrightarrow>
   keeps (passphrase_sealed E \<lparr>instances_dir = [], box_name = machine\<rparr>) (entry n E P format_help parse argv)"
  by (simp add: entry_def) (intro hoare_rules sealed_main sealed_lines)

subsection \<open>What the arguments may be\<close>

definition valid_size :: "env \<Rightarrow> size \<Rightarrow> bool" where
  "valid_size E sz \<longleftrightarrow>
     pred_option (\<lambda>m. 8 \<le> m) (asked_memory sz) \<and> pred_option (\<lambda>d. 40 \<le> d) (asked_disk sz)
     \<and> pred_option (\<lambda>k. 1 \<le> k \<and> (case env_cpus E of None \<Rightarrow> False | Some host \<Rightarrow> k < host)) (asked_cpus sz)"

definition valid_command :: "env \<Rightarrow> (size, nat) command \<Rightarrow> bool" where
  "valid_command E c =
     (case c of Up sz \<Rightarrow> valid_size E sz
      | Bootstrap version sz \<Rightarrow> valid_size E sz \<and> pred_option (fullmatch GITHUB_FLAKE_RE) version
      | Disk_Grow gib \<Rightarrow> 1 \<le> gib
      | Port p \<Rightarrow> 1 \<le> p \<and> p \<le> 65535
      | _ \<Rightarrow> True)"

lemma typed_option_Inr:
  "typed_option f w = Inr x \<Longrightarrow> (\<And>v y. f v = Inr y \<Longrightarrow> Q y) \<Longrightarrow> pred_option Q x"
  unfolding typed_option_def by (cases w; cases "f (the w)") auto

lemma box_gib_valid: "box_gib label lowest v = Inr m \<Longrightarrow> lowest \<le> m"
  by (auto simp: box_gib_def split: sum.splits if_splits)

lemma box_cpus_valid: "box_cpus n v = Inr k \<Longrightarrow> 1 \<le> k \<and> (case n of None \<Rightarrow> False | Some host \<Rightarrow> k < host)"
  by (auto simp: box_cpus_def host_cpu_count_def split: sum.splits if_splits option.splits)

lemma size_arguments_valid:
  assumes "size_arguments E w = Inr sz"
  shows "valid_size E sz"
proof -
  from assms obtain m d k where
    m: "typed_option (box_gib ''--memory'' MIN_MEMORY_GIB) (memory_word w) = Inr m" and
    d: "typed_option (box_gib ''--disk'' MIN_DISK_GIB) (disk_word w) = Inr d" and
    k: "typed_option (box_cpus (env_cpus E)) (cpus_word w) = Inr k" and
    sz: "sz = \<lparr>asked_memory = m, asked_disk = d, asked_cpus = k\<rparr>"
    by (auto simp: size_arguments_def split: sum.splits)
  have "pred_option (\<lambda>m. 8 \<le> m) m" "pred_option (\<lambda>d. 40 \<le> d) d"
    using typed_option_Inr [OF m] typed_option_Inr [OF d] box_gib_valid
    by (fastforce simp: MIN_MEMORY_GIB_def MIN_DISK_GIB_def)+
  moreover have "pred_option (\<lambda>k. 1 \<le> k \<and> (case env_cpus E of None \<Rightarrow> False | Some host \<Rightarrow> k < host)) k"
    by (rule typed_option_Inr [OF k box_cpus_valid])
  ultimately show ?thesis by (simp add: valid_size_def sz)
qed

lemma typed_command_valid:
  assumes "typed_command E ws = Inr c"
  shows "valid_command E c"
proof -
  have version: "fullmatch GITHUB_FLAKE_RE ref" if "bootstrap_version E None v = Inr ref" for v ref
    using that named_flake_ref_github by (auto simp: bootstrap_version_unset split: sum.splits if_splits)
  show ?thesis
  proof (cases ws)
    case (Bootstrap v w)
    with assms show ?thesis
      by (cases "size_arguments E w")
        (auto simp: valid_command_def size_arguments_valid typed_option_Inr [OF _ version] split: sum.splits)
  next
    case (Up w)
    with assms show ?thesis
      by (cases "size_arguments E w") (auto simp: valid_command_def size_arguments_valid)
  next
    case (Disk_Grow w)
    with assms show ?thesis
      by (cases "whole_gib ''disk-grow size'' w") (auto simp: valid_command_def whole_gib_def split: if_splits)
  next
    case (Port w)
    with assms show ?thesis
      by (cases "guest_port_number w") (auto simp: valid_command_def guest_port_number_def MAX_PORT_def split: if_splits)
  qed (use assms in \<open>auto simp: valid_command_def\<close>)
qed

subsection \<open>Properties\<close>


text \<open>
  C27: what a command is given is in range: the machine's name makes a host name, a box asks for at
  least 8 GiB of memory and 40 GiB of disk and leaves the host a CPU, a guest port is a port, and
  a version is a GitHub flake.
\<close>

theorem parsed_arguments_are_valid:
  assumes "parse_args E (Words machine ws) h = (Inr (Inr (name, c)), t)"
  shows "name = machine \<and> fullmatch HOSTNAME_LABEL_RE (hostname_for machine) \<and> valid_command E c \<and> t = h"
  using parse_args_machine [OF assms] typed_command_valid
  by (auto simp: instance_name_def split: if_splits)

theorem parsed_arguments_are_valid_witness:
  "\<exists>c. fst (parse_args sample_env (Words DEFAULT_INSTANCE (Up \<lparr>memory_word = Some ''16'', disk_word = None, cpus_word = None\<rparr>)) [])
      = Inr (Inr (DEFAULT_INSTANCE, c))
    \<and> valid_command sample_env c"
proof -
  have run: "parse_args sample_env (Words DEFAULT_INSTANCE (Up \<lparr>memory_word = Some ''16'', disk_word = None, cpus_word = None\<rparr>)) []
      = (Inr (Inr (DEFAULT_INSTANCE, Up \<lparr>asked_memory = Some 16, asked_disk = None, asked_cpus = None\<rparr>)), [])"
    by code_simp
  from parsed_arguments_are_valid [OF run] show ?thesis using run by simp
qed

end
