(* ===== verification/Yo_Protocol.thy ===== *)
theory Yo_Protocol
  imports Yo_Program
begin

text \<open>
  Several runs of \<open>yo\<close> on one host, interleaved event by event. The kernel's \<open>flock\<close> gives the
  unlock lock of the machine to one live process at a time, and takes it back when that process
  drops it or dies. What a run may do is what \<open>entry\<close> does in some environment; the lemmas carry
  the invariant of one run, that it answers the initrd only while it holds the lock, to the
  system of all of them.
\<close>

subsection \<open>Steps of the system\<close>

text \<open>What has happened so far and by whom, who holds the lock, and which processes have died.\<close>

record system =
  happened :: "(nat \<times> event) list"
  holder :: "nat option"
  dead :: "nat set"

definition seen_by :: "nat \<Rightarrow> system \<Rightarrow> history" where
  "seen_by p s = map snd (filter (\<lambda>x. fst x = p) (happened s))"

definition released :: "nat \<Rightarrow> nat option \<Rightarrow> nat option" where
  "released p x = (if x = Some p then None else x)"

text \<open>
  \<open>may p h\<close>: \<open>h\<close> is a history process \<open>p\<close> may have. Each step lets one process that lives go on by
  one event, and taking the lock waits until nobody holds it; a process may die at any time.
\<close>

inductive step :: "(nat \<Rightarrow> history \<Rightarrow> bool) \<Rightarrow> string \<Rightarrow> system \<Rightarrow> system \<Rightarrow> bool" for may l where
  act: "p \<notin> dead s \<Longrightarrow> may p (seen_by p s @ [e]) \<Longrightarrow> e \<noteq> Took_Lock l \<Longrightarrow> e \<noteq> Dropped_Lock l \<Longrightarrow>
    step may l s (s\<lparr>happened := happened s @ [(p, e)]\<rparr>)"
| take: "p \<notin> dead s \<Longrightarrow> may p (seen_by p s @ [Took_Lock l]) \<Longrightarrow> holder s = None \<Longrightarrow>
    step may l s (s\<lparr>happened := happened s @ [(p, Took_Lock l)], holder := Some p\<rparr>)"
| drop: "p \<notin> dead s \<Longrightarrow> may p (seen_by p s @ [Dropped_Lock l]) \<Longrightarrow>
    step may l s (s\<lparr>happened := happened s @ [(p, Dropped_Lock l)], holder := released p (holder s)\<rparr>)"
| die: "p \<notin> dead s \<Longrightarrow> step may l s (s\<lparr>dead := insert p (dead s), holder := released p (holder s)\<rparr>)"

inductive_cases stepE: "step may l s t"

inductive reachable :: "(nat \<Rightarrow> history \<Rightarrow> bool) \<Rightarrow> string \<Rightarrow> system \<Rightarrow> bool" for may l where
  begins: "reachable may l \<lparr>happened = [], holder = None, dead = {}\<rparr>"
| goes_on: "reachable may l s \<Longrightarrow> step may l s t \<Longrightarrow> reachable may l t"

text \<open>The system goes on while \<open>p\<close> holds the lock.\<close>

inductive while_held :: "(nat \<Rightarrow> history \<Rightarrow> bool) \<Rightarrow> string \<Rightarrow> nat \<Rightarrow> system \<Rightarrow> system \<Rightarrow> bool" for may l p where
  at_first: "while_held may l p s s"
| then_step: "while_held may l p s t \<Longrightarrow> holder t = Some p \<Longrightarrow> step may l t u \<Longrightarrow> while_held may l p s u"

subsection \<open>Who holds the lock\<close>

lemma seen_by_snoc [simp]:
  "seen_by p (s\<lparr>happened := happened s @ [(q, e)]\<rparr>) = seen_by p s @ (if q = p then [e] else [])"
  by (simp add: seen_by_def)

lemma seen_by_other [simp]:
  "seen_by p (s\<lparr>holder := x\<rparr>) = seen_by p s" "seen_by p (s\<lparr>dead := d\<rparr>) = seen_by p s"
  by (simp_all add: seen_by_def)

lemma released_Some [simp]: "released p x = Some q \<longleftrightarrow> x = Some q \<and> q \<noteq> p"
  by (auto simp: released_def)

text \<open>A live process holds the lock just when its own history says so.\<close>

definition consistent :: "string \<Rightarrow> system \<Rightarrow> bool" where
  "consistent l s \<longleftrightarrow> (\<forall>p. p \<notin> dead s \<longrightarrow> (holds l (seen_by p s) \<longleftrightarrow> holder s = Some p)) \<and> (\<forall>p. holder s = Some p \<longrightarrow> p \<notin> dead s)"

lemma holds_snoc: "holds l (h @ [e]) = lock_step l (holds l h) e"
  by (simp add: holds_append)

lemma lock_step_other: "e \<noteq> Took_Lock l \<Longrightarrow> e \<noteq> Dropped_Lock l \<Longrightarrow> lock_step l b e = b"
  by (auto simp: lock_step_def split: event.split)

lemma step_consistent:
  assumes "step may l s t" and "consistent l s"
  shows "consistent l t"
  using assms
proof cases
  case (act p e)
  with assms(2) show ?thesis by (auto simp: consistent_def holds_snoc lock_step_other)
next
  case (take p)
  with assms(2) show ?thesis by (auto simp: consistent_def holds_snoc lock_step_def)
next
  case (drop p)
  with assms(2) show ?thesis by (auto simp: consistent_def holds_snoc lock_step_def)
next
  case (die p)
  with assms(2) show ?thesis by (auto simp: consistent_def)
qed

lemma reachable_consistent: "reachable may l s \<Longrightarrow> consistent l s"
proof (induction rule: reachable.induct)
  case begins
  show ?case by (simp add: consistent_def seen_by_def holds_def)
next
  case (goes_on s t)
  then show ?case by (blast intro: step_consistent)
qed

lemma reachable_while_held: "while_held may l p s t \<Longrightarrow> reachable may l s \<Longrightarrow> reachable may l t"
  by (induction rule: while_held.induct) (auto intro: reachable.goes_on)

subsection \<open>Processes that answer only under the lock\<close>

locale locked_processes =
  fixes may :: "nat \<Rightarrow> history \<Rightarrow> bool" and l :: string
  assumes sends_under_lock: "may p h \<Longrightarrow> sends_locked l h"
begin

text \<open>An answer is the holder's.\<close>

lemma sender_holds:
  assumes "reachable may l s" and "step may l s t" and "happened t = happened s @ [(p, e)]" and "is_send e"
  shows "holder s = Some p"
proof -
  from assms(2) have "p \<notin> dead s \<and> may p (seen_by p s @ [e])"
    by (elim stepE) (use assms(3) in auto)
  then have live: "p \<notin> dead s" and "sends_locked l (seen_by p s @ [e])"
    using sends_under_lock by blast+
  with assms(4) have "holds l (seen_by p s)" by (simp add: sends_locked_append)
  with live reachable_consistent [OF assms(1)] show ?thesis by (simp add: consistent_def)
qed

text \<open>While one process holds the lock, no other answers.\<close>

lemma others_keep_still:
  assumes "while_held may l p s t" and "reachable may l s"
  shows "\<exists>ev. happened t = happened s @ ev \<and> (\<forall>(q, e) \<in> set ev. is_send e \<longrightarrow> q = p)"
  using assms
proof (induction rule: while_held.induct)
  case (at_first s)
  then show ?case by simp
next
  case (then_step s t u)
  then obtain ev where ev: "happened t = happened s @ ev" "\<forall>(q, e) \<in> set ev. is_send e \<longrightarrow> q = p" by blast
  have "reachable may l t" using then_step by (blast intro: reachable_while_held)
  note sender = sender_holds [OF this then_step.hyps(3)]
  from then_step.hyps(3) consider "happened u = happened t" | q e where "happened u = happened t @ [(q, e)]"
    by (elim stepE) auto
  then show ?case
  proof cases
    case 1
    with ev show ?thesis by auto
  next
    case (2 q e)
    with sender then_step.hyps(2) have "is_send e \<longrightarrow> q = p" by auto
    with ev 2 show ?thesis by (intro exI [of _ "ev @ [(q, e)]"]) auto
  qed
qed

end

subsection \<open>Runs of yo\<close>

text \<open>One run: its environment, and the words it was started with.\<close>

record yo_run =
  run_fuel :: nat
  run_env :: env
  run_place :: place
  run_help :: "string option \<Rightarrow> string"
  run_words :: "(size_words, string) command"

definition history_of :: "string \<Rightarrow> yo_run \<Rightarrow> history" where
  "history_of machine r =
     snd (entry (run_fuel r) (run_env r) (run_place r) (run_help r) (\<lambda>_. Words machine (run_words r)) [] [])"

text \<open>
  The histories of a run for a machine, in a home directory all runs share; a run in another home
  is no process of the system.
\<close>

definition yo_may :: "string \<Rightarrow> string \<Rightarrow> (nat \<Rightarrow> yo_run) \<Rightarrow> nat \<Rightarrow> history \<Rightarrow> bool" where
  "yo_may home machine runs p h \<longleftrightarrow> env_home (run_env (runs p)) = home \<and> prefix h (history_of machine (runs p))"

definition machine_lock :: "string \<Rightarrow> string \<Rightarrow> string" where
  "machine_lock home machine = path_join (path_join home ''.local/state/yolobox'') (machine @ ''.unlock.lock'')"

lemma machine_lock_path: "machine_lock (env_home E) machine = unlock_lock_path E \<lparr>instances_dir = d, box_name = machine\<rparr>"
  by (simp add: machine_lock_def unlock_lock_path_def state_dir_def)

lemma sends_locked_prefix: "sends_locked l t \<Longrightarrow> prefix h t \<Longrightarrow> sends_locked l h"
  by (auto simp: prefix_def sends_locked_append)

lemma history_sealed: "sends_locked (machine_lock (env_home (run_env r)) machine) (history_of machine r)"
proof -
  let ?I = "passphrase_sealed (run_env r) \<lparr>instances_dir = [], box_name = machine\<rparr>"
  have "keeps ?I (entry (run_fuel r) (run_env r) (run_place r) (run_help r) (\<lambda>_. Words machine (run_words r)) [])"
    by (simp add: sealed_entry)
  moreover have "?I []" by (simp add: passphrase_sealed_def sends_locked_def holds_def)
  ultimately have "?I (history_of machine r)"
    unfolding history_of_def by (metis keepsD prod.collapse)
  then show ?thesis by (simp add: passphrase_sealed_def machine_lock_path [where d = "[]"])
qed

interpretation yo_runs: locked_processes "yo_may home machine runs" "machine_lock home machine" for home machine runs
  by unfold_locales (auto simp: yo_may_def intro: sends_locked_prefix history_sealed)

subsection \<open>The runs that stop the machine\<close>

definition still :: "event set" where
  "still = {e. \<not> is_send e}"

definition stops_machine :: "('s, 'n) command \<Rightarrow> bool" where
  "stops_machine c = (case c of Down \<Rightarrow> True | Destroy _ \<Rightarrow> True | _ \<Rightarrow> False)"

lemma ordinary_still [simp]: "ordinary still"
  by (simp add: still_def ordinary_def is_send_def)

lemma polite_still: "polite_events E b \<subseteq> still"
  by (auto simp: polite_events_def still_def)

lemma still_lock [simp]: "Took_Lock l \<in> still" "Dropped_Lock l \<in> still"
  by (simp_all add: still_def is_send_def)

context program_host
begin

lemmas polite_still_logs = logs_only_mono [OF _ polite_still [of E b]]

lemma still_locked: "logs_only still m \<Longrightarrow> logs_only still (unlock_lock E b w m)"
  by (intro logs_unlock_lock ordinary_events ordinary_still still_lock)

lemma still_down: "logs_only still (cmd_down E D b)"
  unfolding cmd_down_def except_busy_def
  by (intro logs_bnd logs_if logs_catch logs_raise still_locked polite_still_logs [OF polite_down_parts(1)]
      polite_still_logs polite_down_parts(2,3) polite)

lemma still_destroy: "logs_only still (cmd_destroy E D b yes)"
proof (cases yes)
  case True
  have "logs_only still (destroy_body E D b True)"
    by (rule logs_destroy_body [OF ordinary_still polite_still_logs polite_still_logs]) (intro polite_removals, (assumption)?)+
  with True show ?thesis
    unfolding cmd_destroy_def except_busy_def by simp (intro logs_catch logs_if logs_raise still_locked)
next
  case False
  then show ?thesis by (simp add: polite_still_logs polite_listing)
qed

lemma still_command:
  assumes "stops_machine c"
  shows "logs_only still (sq (prepare_command E D b c) (run_command n E P D b format_help c))"
proof -
  have "logs_only still (run_command n E P D b format_help c)"
    using assms by (cases c) (simp_all add: stops_machine_def run_command_def still_down still_destroy)
  then show ?thesis by (intro footprint polite_still_logs [OF polite_prepare])
qed

end

lemma still_dispatch:
  assumes "stops_machine c"
  shows "logs_only still (dispatch n E P format_help machine c)"
proof -
  have needs: "needs_driver c" using assms by (cases c) (simp_all add: stops_machine_def needs_driver_def)
  have "logs_only still (bnd (lift (driver_for platform)) (\<lambda>driver_of.
      let b = box_for driver_of n E machine; D = driver_of n E b in sq (prepare_command E D b c) (run_command n E P D b format_help c)))" for platform
    using lima_program.still_command [OF assms] libvirt_program.still_command [OF assms]
    by (simp add: driver_for_def Let_def eff_simps logs_raise)
  with needs show ?thesis by (simp add: dispatch_def)
qed

lemma typed_stops: "typed_command E ws = Inr c \<Longrightarrow> stops_machine ws \<Longrightarrow> stops_machine c"
  by (cases ws) (auto simp: stops_machine_def)

lemma still_history:
  assumes "stops_machine (run_words r)"
  shows "set (history_of machine r) \<subseteq> still"
proof -
  have lines: "logs_only still (warn w a)" for w a by (intro footprint ordinary_events ordinary_still)
  have main: "logs_only still (main_of n E P format_help (Words machine ws))" if "stops_machine ws" for n E P format_help ws
    unfolding main_of_def
  proof (rule logs_bnd_result)
    show "logs_only still (parse_args E (Words machine ws))"
      by (simp add: parse_args_def) (intro footprint lines)
    fix h args t
    assume parsed: "parse_args E (Words machine ws) h = (Inr args, t)"
    have "stops_machine c" if "args = Inr (name, c)" for name c
      using parsed parse_args_machine typed_stops \<open>stops_machine ws\<close> unfolding that by blast
    then show "logs_only still (case args of Inl code \<Rightarrow> ret code | Inr (machine, c) \<Rightarrow> sq (dispatch n E P format_help machine c) (ret 0))"
      by (cases args) (auto intro!: footprint still_dispatch)
  qed
  have "logs_only still (entry (run_fuel r) (run_env r) (run_place r) (run_help r) (\<lambda>_. Words machine (run_words r)) [])"
    unfolding entry_def by (intro footprint main lines assms)
  then obtain es where "history_of machine r = [] @ es" "set es \<subseteq> still"
    unfolding history_of_def by (metis logs_onlyE prod.collapse)
  then show ?thesis by simp
qed

lemma reachable_still:
  assumes "reachable (yo_may home machine runs) l s" and "stops_machine (run_words (runs p))"
  shows "\<forall>e. (p, e) \<in> set (happened s) \<longrightarrow> e \<in> still"
  using assms(1)
proof (induction rule: reachable.induct)
  case (goes_on s t)
  have may: "e \<in> still" if "yo_may home machine runs p (h @ [e])" for h e
  proof -
    from that have "e \<in> set (history_of machine (runs p))" by (auto simp: yo_may_def prefix_def)
    with still_history [OF assms(2)] show ?thesis by blast
  qed
  from goes_on.hyps(2) goes_on.IH show ?case
    by (elim stepE) (auto dest: may)
qed simp

subsection \<open>Two runs\<close>

lemma catch_prefix:
  assumes "m h = (q, t)" and "\<And>e. logs_only UNIV (f e)"
  shows "prefix t (snd (catch m f h))"
proof (cases q)
  case (Inl e)
  obtain r u where "f e t = (r, u)" by fastforce
  with logs_prefix [OF assms(2) this] assms(1) Inl show ?thesis by (simp add: catch_def)
qed (simp add: catch_def assms(1))

text \<open>Two runs on one machine: \<open>yo destroy --yes\<close> and \<open>yo help\<close>.\<close>

definition two_runs :: "nat \<Rightarrow> yo_run" where
  "two_runs p = \<lparr>run_fuel = 0, run_env = desk_env, run_place = desk, run_help = (\<lambda>topic. ''usage: yo''),
     run_words = (if p = 0 then Destroy True else Help None)\<rparr>"

lemma destroy_takes_the_lock:
  "prefix [Made_Dir (state_dir desk_env), Took_Lock (machine_lock (env_home desk_env) DEFAULT_INSTANCE)]
     (history_of DEFAULT_INSTANCE (two_runs 0))"
proof -
  let ?b = "box_for lima_driver 0 desk_env DEFAULT_INSTANCE"
  let ?D = "lima_driver 0 desk_env ?b"
  let ?lock = "[Made_Dir (state_dir desk_env), Took_Lock (machine_lock (env_home desk_env) DEFAULT_INSTANCE)]"
  obtain r t where run: "cmd_destroy desk_env ?D ?b True [] = (r, t)" by fastforce
  have "unlock_lock_path desk_env ?b = machine_lock (env_home desk_env) DEFAULT_INSTANCE"
    by (simp add: box_for_def machine_lock_path [symmetric])
  moreover have "lock_busy desk_env h p = False" for h p by (simp add: desk_env_def sample_env_def)
  ultimately have t: "prefix ?lock t"
    using lima.destroy_locked [OF run] by auto
  have prepared: "prepare_command desk_env ?D ?b (Destroy True) [] = (Inr (), [])"
    by (simp add: prepare_command_def logs_in_def heals_def when_do_def lima_driver_def lima_base_def require_tool_on_def
        which_def desk_env_def eff_simps) (simp add: bnd_def reads_def ret_def)
  have platform: "driver_for (env_platform desk_env) = Inr lima_driver"
    by (simp add: driver_for_def desk_env_def sample_env_def)
  have "dispatch 0 desk_env desk f DEFAULT_INSTANCE (Destroy True) [] = (r, t)" for f
    by (simp add: dispatch_def needs_driver_def platform Let_def eff_simps bnd_run_Inr prepared run_command_def run)
  moreover have "parse_args desk_env (Words DEFAULT_INSTANCE (Destroy True)) [] = (Inr (Inr (DEFAULT_INSTANCE, Destroy True)), [])"
    by code_simp
  ultimately have "\<exists>q. main_of 0 desk_env desk f (Words DEFAULT_INSTANCE (Destroy True)) [] = (q, t)" for f
    by (simp add: main_of_def bnd_run_Inr) (cases r; simp add: bnd_def ret_def)
  then obtain q where "main_of 0 desk_env desk (\<lambda>topic. ''usage: yo'') (Words DEFAULT_INSTANCE (Destroy True)) [] = (q, t)"
    by blast
  then have "prefix t (history_of DEFAULT_INSTANCE (two_runs 0))"
    unfolding history_of_def entry_def two_runs_def
    by simp (rule catch_prefix, assumption, intro footprint UNIV_I)
  with t show ?thesis by (rule prefix_order.trans)
qed

lemma help_speaks: "history_of DEFAULT_INSTANCE (two_runs 1) = [Said (''usage: yo'', [])]"
  by code_simp

subsection \<open>Properties\<close>



end
