(* ===== verification/Yo_Expiration.thy ===== *)
theory Yo_Expiration
  imports Yo_Regex
begin

text \<open>
  The timestamps of \<open>aws-broker\<close>: \<open>EXPIRATION_RE\<close>, \<open>parse_expiration\<close> and the one shape that is
  served, over Python's proleptic Gregorian calendar. A moment keeps the zone it was written in;
  \<open>instant\<close> is the point of time it stands for, in microseconds since the first day of year 1.
  The lemmas show that the calendar's two directions agree and that what is served reads back as
  the same instant, cut to whole seconds.
\<close>

subsection \<open>The calendar\<close>

definition leap_year :: "int \<Rightarrow> bool" where
  "leap_year y \<longleftrightarrow> y mod 4 = 0 \<and> (y mod 100 \<noteq> 0 \<or> y mod 400 = 0)"

definition month_lengths :: "int \<Rightarrow> int list" where
  "month_lengths y = [31, if leap_year y then 29 else 28, 31, 30, 31, 30, 31, 31, 30, 31, 30, 31]"

definition days_before_year :: "int \<Rightarrow> int" where
  "days_before_year y = (let p = y - 1 in 365 * p + p div 4 - p div 100 + p div 400)"

text \<open>The days since the first of January of year 1, and back, as \<open>datetime\<close> counts them.\<close>

definition day_number :: "int \<Rightarrow> nat \<Rightarrow> int \<Rightarrow> int" where
  "day_number y m d = days_before_year y + sum_list (take (m - 1) (month_lengths y)) + (d - 1)"

definition year_and_day :: "int \<Rightarrow> int \<times> int" where
  "year_and_day n =
     (let n400 = n div 146097; a = n mod 146097; n100 = a div 36524; b = a mod 36524;
          n4 = b div 1461; c = b mod 1461; n1 = c div 365; d = c mod 365;
          year = 400 * n400 + 100 * n100 + 4 * n4 + n1 + 1
      in if n100 = 4 \<or> n1 = 4 then (year - 1, 365) else (year, d))"

fun month_and_day :: "int list \<Rightarrow> nat \<Rightarrow> int \<Rightarrow> nat \<times> int" where
  "month_and_day [] m n = (m, n + 1)"
| "month_and_day (l # ls) m n = (if n < l then (m, n + 1) else month_and_day ls (m + 1) (n - l))"

definition date_of_day :: "int \<Rightarrow> int \<times> nat \<times> int" where
  "date_of_day n = (case year_and_day n of (y, k) \<Rightarrow> (y, month_and_day (month_lengths y) 1 k))"

definition valid_date :: "int \<Rightarrow> nat \<Rightarrow> int \<Rightarrow> bool" where
  "valid_date y m d \<longleftrightarrow>
     1 \<le> y \<and> y \<le> 9999 \<and> 1 \<le> m \<and> m \<le> 12 \<and> 1 \<le> d \<and> d \<le> month_lengths y ! (m - 1)"

definition MAX_DAY :: int where "MAX_DAY = 3652058"

subsection \<open>Moments\<close>

record moment =
  mo_year :: int
  mo_month :: nat
  mo_day :: int
  mo_hour :: int
  mo_minute :: int
  mo_second :: int
  mo_micro :: int
  mo_offset :: int        \<comment> \<open>seconds east of UTC\<close>

definition valid_time :: "moment \<Rightarrow> bool" where
  "valid_time t \<longleftrightarrow> 0 \<le> mo_hour t \<and> mo_hour t < 24 \<and> 0 \<le> mo_minute t \<and> mo_minute t < 60
     \<and> 0 \<le> mo_second t \<and> mo_second t < 60 \<and> 0 \<le> mo_micro t \<and> mo_micro t < 1000000
     \<and> \<bar>mo_offset t\<bar> < 86400"

definition valid_moment :: "moment \<Rightarrow> bool" where
  "valid_moment t \<longleftrightarrow> valid_date (mo_year t) (mo_month t) (mo_day t) \<and> valid_time t"

definition instant :: "moment \<Rightarrow> int" where
  "instant t =
     (((day_number (mo_year t) (mo_month t) (mo_day t) * 24 + mo_hour t) * 60 + mo_minute t) * 60 + mo_second t
      - mo_offset t) * 1000000 + mo_micro t"

text \<open>\<open>astimezone(timezone.utc)\<close>; none for its \<open>OverflowError\<close>, a date outside the years 1 to 9999.\<close>

definition utc_of_instant :: "int \<Rightarrow> moment option" where
  "utc_of_instant i =
     (let s = i div 1000000; day = s div 86400; r = s mod 86400 in
      if day < 0 \<or> day > MAX_DAY then None
      else (case date_of_day day of
              (y, m, d) \<Rightarrow> Some \<lparr>mo_year = y, mo_month = m, mo_day = d, mo_hour = r div 3600,
                mo_minute = r div 60 mod 60, mo_second = r mod 60, mo_micro = i mod 1000000, mo_offset = 0\<rparr>))"

definition astimezone_utc :: "moment \<Rightarrow> moment option" where
  "astimezone_utc t = utc_of_instant (instant t)"

text \<open>The last \<open>k\<close> digits of a number, as \<open>strftime\<close> pads them.\<close>

fun pad :: "nat \<Rightarrow> int \<Rightarrow> string" where
  "pad 0 n = []"
| "pad (Suc k) n = pad k (n div 10) @ [char_of (nat (n mod 10) + 48)]"

text \<open>\<open>EXPIRATION_SERVED_FORMAT\<close>\<close>

definition served_expiration :: "moment \<Rightarrow> string" where
  "served_expiration t =
     pad 4 (mo_year t) @ ''-'' @ pad 2 (int (mo_month t)) @ ''-'' @ pad 2 (mo_day t) @ ''T'' @
     pad 2 (mo_hour t) @ '':'' @ pad 2 (mo_minute t) @ '':'' @ pad 2 (mo_second t) @ ''Z''"

subsection \<open>Reading a timestamp\<close>

definition EXPIRATION_RE :: rx where
  "EXPIRATION_RE =
     Seqs [Times 4 (Cls is_digit), Lit ''-'', Times 2 (Cls is_digit), Lit ''-'', Times 2 (Cls is_digit),
           Cls (\<lambda>c. c = CHR ''T'' \<or> c = CHR '' ''),
           Times 2 (Cls is_digit), Lit '':'', Times 2 (Cls is_digit), Lit '':'', Times 2 (Cls is_digit),
           Opt (Cat (Lit ''.'') (Plus (Cls is_digit))),
           Opt (Or (Lit ''Z'')
                   (Seqs [Cls (\<lambda>c. c = CHR ''+'' \<or> c = CHR ''-''), Times 2 (Cls is_digit), Opt (Lit '':''),
                          Times 2 (Cls is_digit)]))]"

text \<open>\<open>m.groups()\<close> of a text the pattern matches; the last two are none where they matched nothing.\<close>

definition expiration_groups :: "string \<Rightarrow> string \<times> string \<times> string option \<times> string option" where
  "expiration_groups s =
     (let r = drop 19 s;
          dotted = startswith r ''.'';
          zone = (if dotted then dropWhile is_digit (tl r) else r)
      in (take 10 s, take 8 (drop 11 s), if dotted then Some (takeWhile is_digit (tl r)) else None,
          if zone = [] then None else Some zone))"

definition ljust :: "nat \<Rightarrow> char \<Rightarrow> string \<Rightarrow> string" where
  "ljust n c s = s @ replicate (n - length s) c"

text \<open>
  \<open>datetime.fromisoformat\<close> on the shape \<open>parse_expiration\<close> builds, digits at their fixed places;
  none for its \<open>ValueError\<close>. The minutes of an offset are not checked apart from their sum.
\<close>

definition number_at :: "string \<Rightarrow> nat \<Rightarrow> nat \<Rightarrow> int" where
  "number_at s i k = foldl (\<lambda>n c. 10 * n + int (digit_value c)) 0 (take k (drop i s))"

definition fromisoformat :: "string \<Rightarrow> moment option" where
  "fromisoformat s =
     (let seconds = 3600 * number_at s 27 2 + 60 * number_at s 30 2;
          t = \<lparr>mo_year = number_at s 0 4, mo_month = nat (number_at s 5 2), mo_day = number_at s 8 2,
               mo_hour = number_at s 11 2, mo_minute = number_at s 14 2, mo_second = number_at s 17 2,
               mo_micro = number_at s 20 6, mo_offset = (if s ! 26 = CHR ''-'' then - seconds else seconds)\<rparr>
      in if valid_moment t then Some t else None)"

definition whole_zone :: "string option \<Rightarrow> string" where
  "whole_zone zone =
     (case zone of
        None \<Rightarrow> ''+00:00''
      | Some z \<Rightarrow> if z = ''Z'' then ''+00:00''
                 else if CHR '':'' \<notin> set z then take 3 z @ '':'' @ drop 3 z else z)"

definition parse_expiration :: "string \<Rightarrow> moment option" where
  "parse_expiration expiration =
     (if \<not> fullmatch EXPIRATION_RE expiration then None
      else (case expiration_groups expiration of
              (day, time, fraction, zone) \<Rightarrow>
                fromisoformat (day @ ''T'' @ time @ ''.'' @
                  ljust 6 CHR ''0'' (take 6 (case fraction of None \<Rightarrow> [] | Some f \<Rightarrow> f)) @ whole_zone zone)))"

subsection \<open>The calendar's two directions\<close>

lemma year_and_day:
  assumes "0 \<le> n" and "year_and_day n = (y, k)"
  shows "days_before_year y + k = n \<and> 0 \<le> k \<and> k < 365 + (if leap_year y then 1 else 0) \<and> 1 \<le> y"
proof -
  define n400 a where "n400 = n div 146097" and "a = n mod 146097"
  define n100 b where "n100 = a div 36524" and "b = a mod 36524"
  define n4 c where "n4 = b div 1461" and "c = b mod 1461"
  define n1 d where "n1 = c div 365" and "d = c mod 365"
  have n: "n = 146097 * n400 + a" "0 \<le> n400" "0 \<le> a" "a < 146097"
    using assms(1) by (simp_all add: n400_def a_def)
  have a: "a = 36524 * n100 + b" "0 \<le> n100" "0 \<le> b" "b < 36524" "n100 \<le> 4"
    using n by (simp_all add: n100_def b_def)
  have b: "b = 1461 * n4 + c" "0 \<le> n4" "0 \<le> c" "c < 1461" "n4 \<le> 24"
    using a by (simp_all add: n4_def c_def)
  have c: "c = 365 * n1 + d" "0 \<le> n1" "0 \<le> d" "d < 365" "n1 \<le> 4"
    using b by (simp_all add: n1_def d_def)
  have yk: "(y, k) = (let year = 400 * n400 + 100 * n100 + 4 * n4 + n1 + 1 in
      if n100 = 4 \<or> n1 = 4 then (year - 1, 365) else (year, d))"
    using assms(2) [symmetric]
    by (simp only: year_and_day_def Let_def n400_def a_def n100_def b_def n4_def c_def n1_def d_def)
  consider "n100 = 4" | "n100 < 4" "n1 = 4" | "n100 < 4" "n1 < 4" using a(5) c(5) by linarith
  then show ?thesis
  proof cases
    case 1
    with n a b c have "b = 0" "n4 = 0" "n1 = 0" by linarith+
    with 1 n a b c yk have "y = 400 * (n400 + 1)" "k = 365" "n = 146097 * n400 + 146096"
      by (simp_all add: Let_def)
    moreover have "(400 * (n400 + 1) - 1) div 4 = 100 * n400 + 99" by (rule int_div_pos_eq [where r = 3]) simp_all
    moreover have "(400 * (n400 + 1) - 1) div 100 = 4 * n400 + 3" by (rule int_div_pos_eq [where r = 99]) simp_all
    moreover have "(400 * (n400 + 1) - 1) div 400 = n400" by (rule int_div_pos_eq [where r = 399]) simp_all
    ultimately show ?thesis using n(2) by (simp add: days_before_year_def Let_def leap_year_def)
  next
    case 2
    with b c have d: "d = 0" "c = 1460" by linarith+
    with a b have n4: "n4 < 24" by linarith
    define p where "p = 400 * n400 + 100 * n100 + 4 * n4 + 3"
    from 2 d yk have "y = p + 1" "k = 365" by (simp_all add: Let_def p_def)
    moreover have "p div 4 = 100 * n400 + 25 * n100 + n4"
      by (rule int_div_pos_eq [where r = 3]) (simp_all add: p_def)
    moreover have "p div 100 = 4 * n400 + n100"
      using b n4 by (intro int_div_pos_eq [where r = "4 * n4 + 3"]) (simp_all add: p_def)
    moreover have "p div 400 = n400"
      using 2 a b n4 by (intro int_div_pos_eq [where r = "100 * n100 + 4 * n4 + 3"]) (simp_all add: p_def)
    moreover have "(p + 1) mod 4 = 0"
      by (rule int_mod_pos_eq [where q = "100 * n400 + 25 * n100 + n4 + 1"]) (simp_all add: p_def)
    moreover have "(p + 1) mod 100 = 4 * n4 + 4"
      using b n4 by (intro int_mod_pos_eq [where q = "4 * n400 + n100"]) (simp_all add: p_def)
    ultimately have "days_before_year y = 365 * p + (100 * n400 + 25 * n100 + n4) - (4 * n400 + n100) + n400"
      "k = 365" "leap_year y" "y = p + 1"
      using n4 b(2) by (simp_all add: days_before_year_def leap_year_def)
    then show ?thesis using n a b c d 2 p_def by simp
  next
    case 3
    define p where "p = 400 * n400 + 100 * n100 + 4 * n4 + n1"
    from 3 yk have "y = p + 1" "k = d" by (simp_all add: Let_def p_def)
    moreover have "p div 4 = 100 * n400 + 25 * n100 + n4"
      using 3 c by (intro int_div_pos_eq [where r = n1]) (simp_all add: p_def)
    moreover have "p div 100 = 4 * n400 + n100"
      using 3 b c by (intro int_div_pos_eq [where r = "4 * n4 + n1"]) (simp_all add: p_def)
    moreover have "p div 400 = n400"
      using 3 a b c by (intro int_div_pos_eq [where r = "100 * n100 + 4 * n4 + n1"]) (simp_all add: p_def)
    ultimately show ?thesis
      using n a b c 3 by (simp add: days_before_year_def Let_def p_def)
  qed
qed

lemma year_bounded:
  assumes "n \<le> MAX_DAY" and "days_before_year y + k = n" and "0 \<le> k"
  shows "y \<le> 9999"
proof (rule ccontr)
  assume "\<not> y \<le> 9999"
  then have "9999 \<le> y - 1" by simp
  define u where "u = (y - 1) div 4"
  have "2499 \<le> u" "24 \<le> (y - 1) div 400" using \<open>9999 \<le> y - 1\<close> by (simp_all add: u_def)
  moreover have "(y - 1) div 100 = u div 25" using zdiv_zmult2_eq [of 25 "y - 1" 4] by (simp add: u_def)
  moreover have "u = 25 * (u div 25) + u mod 25" "0 \<le> u mod 25" "u mod 25 < 25" by simp_all
  then have "2400 \<le> u - u div 25" using \<open>2499 \<le> u\<close> by linarith
  ultimately show False using assms \<open>9999 \<le> y - 1\<close> by (simp add: days_before_year_def Let_def MAX_DAY_def u_def)
qed

lemma month_and_day:
  "0 \<le> n \<Longrightarrow> n < sum_list ls \<Longrightarrow> list_all (\<lambda>l. 0 < l) ls \<Longrightarrow> month_and_day ls m n = (q, d) \<Longrightarrow>
   m \<le> q \<and> q < m + length ls \<and> sum_list (take (q - m) ls) + (d - 1) = n \<and> 1 \<le> d \<and> d \<le> ls ! (q - m)"
proof (induction ls arbitrary: m n)
  case (Cons l ls)
  show ?case
  proof (cases "n < l")
    case True
    with Cons.prems show ?thesis by auto
  next
    case False
    with Cons.prems have "m + 1 \<le> q \<and> q < m + 1 + length ls \<and> sum_list (take (q - (m + 1)) ls) + (d - 1) = n - l
        \<and> 1 \<le> d \<and> d \<le> ls ! (q - (m + 1))"
      by (intro Cons.IH) auto
    moreover from this have "q - m = Suc (q - (m + 1))" by linarith
    ultimately show ?thesis by auto
  qed
qed simp

lemma date_of_day:
  assumes "0 \<le> n" and "n \<le> MAX_DAY" and "date_of_day n = (y, m, d)"
  shows "valid_date y m d \<and> day_number y m d = n"
proof -
  obtain k where yk: "year_and_day n = (y, k)" and md: "month_and_day (month_lengths y) 1 k = (m, d)"
    using assms(3) by (auto simp: date_of_day_def split: prod.splits)
  note y = year_and_day [OF assms(1) yk]
  have "k < sum_list (month_lengths y)" "list_all (\<lambda>l. 0 < l) (month_lengths y)" "length (month_lengths y) = 12"
    using y by (auto simp: month_lengths_def)
  with month_and_day [OF _ _ _ md] y
  have "1 \<le> m \<and> m < 13 \<and> sum_list (take (m - 1) (month_lengths y)) + (d - 1) = k \<and> 1 \<le> d \<and> d \<le> month_lengths y ! (m - 1)"
    by auto
  with y year_bounded [OF assms(2), of y k] show ?thesis
    by (auto simp: valid_date_def day_number_def)
qed

lemma clock_of_seconds:
  fixes r :: int
  assumes "0 \<le> r" and "r < 86400"
  shows "0 \<le> r div 3600" "r div 3600 < 24" "0 \<le> r div 60 mod 60" "r div 60 mod 60 < 60" "0 \<le> r mod 60" "r mod 60 < 60"
    and "(r div 3600 * 60 + r div 60 mod 60) * 60 + r mod 60 = r"
proof -
  have hours: "r div 3600 = r div 60 div 60" using zdiv_zmult2_eq [of 60 r 60] by simp
  then show "(r div 3600 * 60 + r div 60 mod 60) * 60 + r mod 60 = r" by (simp only: div_mult_mod_eq)
  show "0 \<le> r div 3600" using assms(1) by (simp add: pos_imp_zdiv_nonneg_iff)
  have "r div 3600 \<le> 86399 div 3600" using assms(2) by (intro zdiv_mono1) simp_all
  then show "r div 3600 < 24" by simp
qed simp_all

lemma utc_of_instant:
  assumes "utc_of_instant i = Some t"
  shows "valid_moment t \<and> instant t = i \<and> mo_offset t = 0"
proof -
  define s where "s = i div 1000000"
  define r where "r = s mod 86400"
  define day where "day = s div 86400"
  obtain y m d where date: "date_of_day day = (y, m, d)" by (metis prod_cases3)
  from assms have day: "0 \<le> day" "day \<le> MAX_DAY"
    by (auto simp: utc_of_instant_def Let_def s_def day_def split: if_splits)
  have t: "t = \<lparr>mo_year = y, mo_month = m, mo_day = d, mo_hour = r div 3600,
      mo_minute = r div 60 mod 60, mo_second = r mod 60, mo_micro = i mod 1000000, mo_offset = 0\<rparr>"
    using assms day date unfolding utc_of_instant_def Let_def s_def [symmetric] r_def [symmetric] day_def [symmetric]
    by simp
  have "0 \<le> r" "r < 86400" by (simp_all add: r_def)
  note clock = clock_of_seconds [OF this]
  have join: "((d * 24 + h) * 60 + m) * 60 + x = s" if "(h * 60 + m) * 60 + x = r" "d * 86400 + r = s" for d h m x :: int
    using that by simp
  have "day * 86400 + r = s" unfolding day_def r_def by (rule div_mult_mod_eq)
  from join [OF clock(7) this] have "instant t = s * 1000000 + i mod 1000000"
    using date_of_day [OF day date] by (simp add: t instant_def)
  moreover have "s * 1000000 + i mod 1000000 = i" unfolding s_def by (rule div_mult_mod_eq)
  moreover have "valid_time t" using clock by (simp add: t valid_time_def)
  ultimately show ?thesis using date_of_day [OF day date] by (simp add: t valid_moment_def)
qed

subsection \<open>What is served reads back\<close>

definition read_digits :: "int \<Rightarrow> string \<Rightarrow> int" where
  "read_digits n s = foldl (\<lambda>n c. 10 * n + int (digit_value c)) n s"

lemma length_pad [simp]: "length (pad k n) = k"
  by (induction k arbitrary: n) simp_all

lemma digit_facts:
  fixes n :: int
  shows "is_digit (char_of (nat (n mod 10) + 48))" "int (digit_value (char_of (nat (n mod 10) + 48))) = n mod 10"
proof -
  have "nat (n mod 10) < 10" by (simp add: nat_less_iff)
  then show "is_digit (char_of (nat (n mod 10) + 48))" "int (digit_value (char_of (nat (n mod 10) + 48))) = n mod 10"
    by (simp_all add: is_digit_of digit_value_of)
qed

lemma pad_digits: "list_all is_digit (pad k n)"
  by (induction k arbitrary: n) (simp_all add: digit_facts)

lemma read_pad: "0 \<le> n \<Longrightarrow> n < 10 ^ k \<Longrightarrow> read_digits 0 (pad k n) = n"
proof (induction k arbitrary: n)
  case 0
  then show ?case by (simp add: read_digits_def)
next
  case (Suc k)
  then have "read_digits 0 (pad k (n div 10)) = n div 10" by simp
  then show ?case by (simp add: read_digits_def digit_facts)
qed

lemma number_at_read: "s = u @ v @ w \<Longrightarrow> i = length u \<Longrightarrow> k = length v \<Longrightarrow> number_at s i k = read_digits 0 v"
  by (simp add: number_at_def read_digits_def)

lemma month_lengths_31: "1 \<le> m \<Longrightarrow> m \<le> 12 \<Longrightarrow> month_lengths y ! (m - 1) \<le> 31"
proof -
  have "list_all (\<lambda>l. l \<le> 31) (month_lengths y)" "length (month_lengths y) = 12" by (simp_all add: month_lengths_def)
  then show "1 \<le> m \<Longrightarrow> m \<le> 12 \<Longrightarrow> month_lengths y ! (m - 1) \<le> 31" by (simp add: list_all_length)
qed

text \<open>The shape served, with its six numbers.\<close>

lemma served_matches:
  assumes "list_all is_digit y" "length y = 4" and "list_all (\<lambda>x. list_all is_digit x \<and> length x = 2) [m, d, h, i, s]"
  shows "fullmatch EXPIRATION_RE (y @ ''-'' @ m @ ''-'' @ d @ ''T'' @ h @ '':'' @ i @ '':'' @ s @ ''Z'')"
proof -
  have "x \<in> lang r \<Longrightarrow> rest \<in> lang (Seqs (q # qs)) \<Longrightarrow> x @ rest \<in> lang (Seqs (r # q # qs))" for x r rest q qs
    by (simp only: Seqs.simps) (rule lang_CatI)
  note seqs = this
  have end_: "''Z'' \<in> lang (Seqs [Opt (Cat (Lit ''.'') (Plus (Cls is_digit))), Opt (Or (Lit ''Z'')
      (Seqs [Cls (\<lambda>c. c = CHR ''+'' \<or> c = CHR ''-''), Times 2 (Cls is_digit), Opt (Lit '':''), Times 2 (Cls is_digit)]))])"
    unfolding fullmatch_iff [symmetric] by (simp add: Opt_def Plus_def numeral_2_eq_2)
  show ?thesis
    unfolding fullmatch_iff EXPIRATION_RE_def
    using assms by (intro seqs end_) simp_all
qed

lemma served_parses:
  assumes "valid_moment t" and "mo_offset t = 0"
  shows "parse_expiration (served_expiration t) = Some (t\<lparr>mo_micro := 0\<rparr>)"
proof -
  let ?y = "pad 4 (mo_year t)" and ?m = "pad 2 (int (mo_month t))" and ?d = "pad 2 (mo_day t)"
  let ?h = "pad 2 (mo_hour t)" and ?i = "pad 2 (mo_minute t)" and ?s = "pad 2 (mo_second t)"
  let ?text = "?y @ ''-'' @ ?m @ ''-'' @ ?d @ ''T'' @ ?h @ '':'' @ ?i @ '':'' @ ?s @ ''.000000+00:00''"
  have "mo_day t \<le> 31"
    using assms(1) month_lengths_31 [of "mo_month t" "mo_year t"] by (simp add: valid_moment_def valid_date_def)
  note in_range = this assms(1) [unfolded valid_moment_def valid_date_def valid_time_def]
  have "number_at ?text 0 4 = mo_year t"
    using in_range by (subst number_at_read [where u = "[]" and v = ?y]) (auto simp: read_pad)
  moreover have "number_at ?text 5 2 = int (mo_month t)"
    using in_range by (subst number_at_read [where u = "?y @ ''-''" and v = ?m]) (auto simp: read_pad)
  moreover have "number_at ?text 8 2 = mo_day t"
    using in_range by (subst number_at_read [where u = "?y @ ''-'' @ ?m @ ''-''" and v = ?d]) (auto simp: read_pad)
  moreover have "number_at ?text 11 2 = mo_hour t"
    using in_range by (subst number_at_read [where u = "?y @ ''-'' @ ?m @ ''-'' @ ?d @ ''T''" and v = ?h]) (auto simp: read_pad)
  moreover have "number_at ?text 14 2 = mo_minute t"
    using in_range
    by (subst number_at_read [where u = "?y @ ''-'' @ ?m @ ''-'' @ ?d @ ''T'' @ ?h @ '':''" and v = ?i]) (auto simp: read_pad)
  moreover have "number_at ?text 17 2 = mo_second t"
    using in_range
    by (subst number_at_read [where u = "?y @ ''-'' @ ?m @ ''-'' @ ?d @ ''T'' @ ?h @ '':'' @ ?i @ '':''" and v = ?s])
       (auto simp: read_pad)
  moreover
  have "number_at ?text 20 6 = 0" "number_at ?text 27 2 = 0" "number_at ?text 30 2 = 0"
    by (simp_all add: number_at_def digit_value_def)
  moreover have whole: "t\<lparr>mo_micro := 0\<rparr> = \<lparr>mo_year = mo_year t, mo_month = mo_month t, mo_day = mo_day t,
      mo_hour = mo_hour t, mo_minute = mo_minute t, mo_second = mo_second t, mo_micro = 0, mo_offset = 0\<rparr>"
    using assms(2) by simp
  moreover have "valid_moment (t\<lparr>mo_micro := 0\<rparr>)" using assms(1) by (simp add: valid_moment_def valid_time_def)
  ultimately have "fromisoformat ?text = Some (t\<lparr>mo_micro := 0\<rparr>)"
    unfolding whole by (simp add: fromisoformat_def Let_def)
  moreover have "expiration_groups (served_expiration t) =
      (?y @ ''-'' @ ?m @ ''-'' @ ?d, ?h @ '':'' @ ?i @ '':'' @ ?s, None, Some ''Z'')"
    by (simp add: expiration_groups_def served_expiration_def startswith_def)
  moreover have "fullmatch EXPIRATION_RE (served_expiration t)"
    unfolding served_expiration_def by (rule served_matches) (simp_all add: pad_digits)
  moreover have "replicate 6 CHR ''0'' = ''000000''" by (simp add: eval_nat_numeral)
  ultimately show ?thesis by (simp add: parse_expiration_def ljust_def whole_zone_def)
qed

text \<open>A timestamp read, put into UTC and served stands for the same second, and serving is stable.\<close>

lemma served_instant:
  assumes "astimezone_utc t = Some u"
  shows "parse_expiration (served_expiration u) = Some (u\<lparr>mo_micro := 0\<rparr>)"
    and "instant (u\<lparr>mo_micro := 0\<rparr>) = instant t - instant t mod 1000000"
proof -
  from assms have u: "valid_moment u" "instant u = instant t" "mo_offset u = 0"
    using utc_of_instant [of "instant t" u] by (simp_all add: astimezone_utc_def)
  then show "parse_expiration (served_expiration u) = Some (u\<lparr>mo_micro := 0\<rparr>)" by (simp add: served_parses)
  have "0 \<le> mo_micro u" "mo_micro u < 1000000" using u(1) by (simp_all add: valid_moment_def valid_time_def)
  moreover have "instant (u\<lparr>mo_micro := 0\<rparr>) = instant u - mo_micro u" by (simp add: instant_def)
  moreover have "instant u mod 1000000 = mo_micro u mod 1000000" unfolding instant_def by (rule mod_mult_self3)
  ultimately show "instant (u\<lparr>mo_micro := 0\<rparr>) = instant t - instant t mod 1000000" using u(2) by simp
qed

end
