(* ===== verification/Yo_Mint.thy ===== *)
theory Yo_Mint
  imports Yo_Aws Yo_Expiration
begin

text \<open>
  The credentials of \<open>aws-broker\<close>: \<open>export_credentials\<close>, which asks the AWS command line tool and
  judges what it printed, and the class \<open>State\<close>, a profile's cache with its remint window and
  throttle. The lemmas show what a cached set of credentials is, when the tool is called, and that
  what the tool printed as a secret never decides what is logged.
\<close>

definition MINT_TIMEOUT_SECONDS :: nat where "MINT_TIMEOUT_SECONDS = 30"
definition REMINT_WINDOW_SECONDS :: int where "REMINT_WINDOW_SECONDS = 600"

subsection \<open>What the broker asks of its world\<close>

text \<open>
  A run of the tool ends with its exit code and output, overruns \<open>MINT_TIMEOUT_SECONDS\<close>, finds no
  such program, or fails in another way (an \<open>OSError\<close> such as a file that may not be run).
\<close>

datatype aws_answer = Aws_Exits int string string | Aws_Hangs | Aws_Missing | Aws_Fails string

text \<open>
  Answers are functions of the history, as in \<open>Yo_World\<close>: the tool's, \<open>datetime.now(timezone.utc)\<close>
  on the scale of \<open>instant\<close>, and \<open>time.monotonic()\<close>. Reading a clock is an event, so that two
  readings can differ.
\<close>

record aws_world =
  aws_ans :: "history \<Rightarrow> string list \<Rightarrow> aws_answer"
  utc_clock :: "history \<Rightarrow> int"
  mono_clock :: "history \<Rightarrow> rat"

text \<open>The exceptions of the broker's threads.\<close>

datatype fault = Profile_Busy | Overflow_Fault | Value_Fault | Os_Fault string | Head_Too_Large

record creds =
  access_key_id :: string
  secret_access_key :: string
  session_token :: string
  expiration :: string

record profile_state =
  min_remint_interval :: rat
  cached :: "creds option"
  last_mint_attempt :: "rat option"
  last_mint_error :: "message option"

definition new_state :: "rat \<Rightarrow> profile_state" where
  "new_state interval =
     \<lparr>min_remint_interval = interval, cached = None, last_mint_attempt = None, last_mint_error = None\<rparr>"

text \<open>A method of \<open>State\<close> works on its own object and on the history.\<close>

record mint =
  cell :: profile_state
  seen :: history

type_synonym 'a minting = "(mint, fault, 'a) eff"

definition noted :: "event \<Rightarrow> unit minting" where
  "noted e = modifies (\<lambda>s. s\<lparr>seen := seen s @ [e]\<rparr>)"

definition log_event :: "string \<Rightarrow> string list \<Rightarrow> event" where
  "log_event what args = Warned (sanitize what, map sanitize args)"

definition log_line :: "string \<Rightarrow> string list \<Rightarrow> unit minting" where
  "log_line what args = noted (log_event what args)"

definition set_cell :: "(profile_state \<Rightarrow> profile_state) \<Rightarrow> unit minting" where
  "set_cell f = modifies (\<lambda>s. s\<lparr>cell := f (cell s)\<rparr>)"

definition monotonic :: "aws_world \<Rightarrow> rat minting" where
  "monotonic W =
     bnd (reads (\<lambda>s. mono_clock W (seen s))) (\<lambda>t. sq (noted (Did ''time.monotonic'' [])) (ret t))"

definition utc_now :: "aws_world \<Rightarrow> int minting" where
  "utc_now W =
     bnd (reads (\<lambda>s. utc_clock W (seen s))) (\<lambda>t. sq (noted (Did ''datetime.now'' [])) (ret t))"

subsection \<open>Asking for credentials\<close>

definition export_argv :: "string \<Rightarrow> string list" where
  "export_argv profile =
     [''aws'', ''configure'', ''export-credentials'', ''--profile'', profile, ''--format'', ''process'']"

text \<open>
  \<open>not data.get(key)\<close>. A number is false when its digits before an exponent are all 0, and
  \<open>type(data).__name__\<close>.
\<close>

definition json_falsy :: "json option \<Rightarrow> bool" where
  "json_falsy v =
     (case v of
        None \<Rightarrow> True
      | Some JNull \<Rightarrow> True
      | Some (JBool b) \<Rightarrow> \<not> b
      | Some (JNum s) \<Rightarrow> list_all (\<lambda>c. c \<in> {CHR ''-'', CHR ''0'', CHR ''.''}) (takeWhile (\<lambda>c. c \<noteq> CHR ''e'' \<and> c \<noteq> CHR ''E'') s)
      | Some (JStr s) \<Rightarrow> s = []
      | Some (JArr vs) \<Rightarrow> vs = []
      | Some (JObj d) \<Rightarrow> d = [])"

definition json_type_name :: "json \<Rightarrow> string" where
  "json_type_name v =
     (case v of
        JNull \<Rightarrow> ''NoneType''
      | JBool b \<Rightarrow> ''bool''
      | JNum s \<Rightarrow> if list_all (\<lambda>c. is_digit c \<or> c = CHR ''-'') s then ''int'' else ''float''
      | JStr s \<Rightarrow> ''str''
      | JArr vs \<Rightarrow> ''list''
      | JObj d \<Rightarrow> ''dict'')"

text \<open>A field that is a string and not empty, else the empty string.\<close>

definition field_text :: "json \<Rightarrow> string \<Rightarrow> string" where
  "field_text data field = (case json_str (json_get field data) of None \<Rightarrow> [] | Some s \<Rightarrow> s)"

definition CREDENTIAL_FIELDS :: "string list" where
  "CREDENTIAL_FIELDS = [''AccessKeyId'', ''SecretAccessKey'', ''SessionToken'', ''Expiration'']"

definition judge_fields :: "string \<Rightarrow> json \<Rightarrow> fault + (message + creds)" where
  "judge_fields profile data =
     (if json_falsy (json_get ''SessionToken'' data)
      then Inr (Inl (''profile returned no SessionToken, these are long-lived keys'', [profile]))
      else
        (case find (\<lambda>field. field_text data field = []) CREDENTIAL_FIELDS of
           Some field \<Rightarrow>
             Inr (Inl (''export-credentials field is missing or not a non-empty string'', [field]))
         | None \<Rightarrow>
             (case parse_expiration (field_text data ''Expiration'') of
                None \<Rightarrow>
                  Inr (Inl (''export-credentials field Expiration is unusable'', [field_text data ''Expiration'']))
              | Some t \<Rightarrow>
                  (case astimezone_utc t of
                     None \<Rightarrow> Inl Overflow_Fault
                   | Some u \<Rightarrow>
                       Inr (Inr \<lparr>access_key_id = field_text data ''AccessKeyId'',
                                 secret_access_key = field_text data ''SecretAccessKey'',
                                 session_token = field_text data ''SessionToken'',
                                 expiration = served_expiration u\<rparr>)))))"

definition first_text :: "string list \<Rightarrow> string" where
  "first_text ts = (case find (\<lambda>t. t \<noteq> []) ts of None \<Rightarrow> [] | Some t \<Rightarrow> t)"

definition judge_export :: "string \<Rightarrow> aws_answer \<Rightarrow> fault + (message + creds)" where
  "judge_export profile answer =
     (case answer of
        Aws_Hangs \<Rightarrow> Inr (Inl (''export-credentials timed out after'', [show_nat MINT_TIMEOUT_SECONDS]))
      | Aws_Missing \<Rightarrow> Inr (Inl (''aws is not on PATH'', []))
      | Aws_Fails reason \<Rightarrow> Inl (Os_Fault reason)
      | Aws_Exits code out err \<Rightarrow>
          (let stdout = decode_replace out; stderr = decode_replace err in
           if code \<noteq> 0
           then Inr (Inl (''export-credentials failed'',
                          [profile, first_text [strip stderr, strip stdout, ''exit '' @ show_int code]]))
           else
             (case json_loads stdout of
                None \<Rightarrow> Inr (Inl (''unparseable export-credentials output'', []))
              | Some (JObj d) \<Rightarrow> judge_fields profile (JObj d)
              | Some v \<Rightarrow> Inr (Inl (''export-credentials output is not an object'', [json_type_name v])))))"

definition export_credentials :: "aws_world \<Rightarrow> string \<Rightarrow> (message + creds) minting" where
  "export_credentials W profile =
     bnd (reads (\<lambda>s. aws_ans W (seen s) (export_argv profile))) (\<lambda>answer.
     sq (noted (Ran (export_argv profile) None)) (lift (judge_export profile answer)))"

subsection \<open>A profile's cache\<close>

text \<open>\<open>seconds_to_expiry\<close>, in microseconds.\<close>

definition time_to_expiry :: "aws_world \<Rightarrow> string \<Rightarrow> int minting" where
  "time_to_expiry W text =
     (case parse_expiration text of
        None \<Rightarrow> raise Value_Fault
      | Some t \<Rightarrow> bnd (utc_now W) (\<lambda>now. ret (instant t - now)))"

definition remint_locked :: "aws_world \<Rightarrow> string \<Rightarrow> unit minting" where
  "remint_locked W profile =
     sq (log_line ''minting credentials'' [profile])
     (bnd (export_credentials W profile) (\<lambda>result.
      bnd (monotonic W) (\<lambda>t.
      sq (set_cell (\<lambda>c. c\<lparr>last_mint_attempt := Some t\<rparr>))
      (case result of
         Inl err \<Rightarrow>
           sq (set_cell (\<lambda>c. c\<lparr>last_mint_error := Some err\<rparr>))
              (log_line ''mint failed'' (profile # fst err # snd err))
       | Inr minted \<Rightarrow>
           sq (set_cell (\<lambda>c. c\<lparr>cached := Some minted, last_mint_error := None\<rparr>))
              (log_line ''minted, expires'' [profile, expiration minted])))))"

definition needs_remint :: "aws_world \<Rightarrow> creds option \<Rightarrow> bool minting" where
  "needs_remint W c =
     (case c of
        None \<Rightarrow> ret True
      | Some held \<Rightarrow>
          bnd (time_to_expiry W (expiration held)) (\<lambda>left. ret (left < REMINT_WINDOW_SECONDS * 1000000)))"

definition throttled :: "aws_world \<Rightarrow> profile_state \<Rightarrow> bool minting" where
  "throttled W c =
     (case last_mint_attempt c of
        None \<Rightarrow> ret False
      | Some attempt \<Rightarrow> bnd (monotonic W) (\<lambda>t. ret (t - attempt < min_remint_interval c)))"

definition usable :: "aws_world \<Rightarrow> creds option \<Rightarrow> creds option minting" where
  "usable W c =
     (case c of
        None \<Rightarrow> ret None
      | Some held \<Rightarrow>
          bnd (time_to_expiry W (expiration held)) (\<lambda>left. ret (if left \<le> 0 then None else Some held)))"

text \<open>\<open>State.get\<close> under the profile's lock, and with what became of the wait for that lock.\<close>

definition get_locked :: "aws_world \<Rightarrow> string \<Rightarrow> creds option minting" where
  "get_locked W profile =
     bnd (reads cell) (\<lambda>c.
     bnd (needs_remint W (cached c)) (\<lambda>needs.
     bnd (throttled W c) (\<lambda>wait.
     sq (when_do (needs \<and> \<not> wait) (remint_locked W profile))
     (bnd (reads (\<lambda>s. cached (cell s))) (usable W)))))"

definition state_get :: "aws_world \<Rightarrow> string \<Rightarrow> bool \<Rightarrow> creds option minting" where
  "state_get W profile acquired = (if acquired then get_locked W profile else raise Profile_Busy)"

subsection \<open>What is cached\<close>

text \<open>
  Credentials fit to be served: three texts that are not empty, so never a pair of long-lived keys,
  and an expiration in the served shape, in UTC.
\<close>

definition servable :: "creds \<Rightarrow> bool" where
  "servable c \<longleftrightarrow> access_key_id c \<noteq> [] \<and> secret_access_key c \<noteq> [] \<and> session_token c \<noteq> []
     \<and> (\<exists>u. valid_moment u \<and> mo_offset u = 0 \<and> expiration c = served_expiration u)"

definition cell_ok :: "profile_state \<Rightarrow> bool" where
  "cell_ok p \<longleftrightarrow> (\<forall>c. cached p = Some c \<longrightarrow> servable c)"

lemma cell_ok_new [simp]: "cell_ok (new_state i)"
  by (simp add: cell_ok_def new_state_def)

lemma judge_fields_servable:
  assumes "judge_fields profile data = Inr (Inr c)"
  shows "servable c"
proof -
  from assms have "find (\<lambda>field. field_text data field = []) CREDENTIAL_FIELDS = None"
    by (auto simp: judge_fields_def split: if_splits option.splits)
  then have texts: "\<forall>f \<in> set CREDENTIAL_FIELDS. field_text data f \<noteq> []" by (simp add: find_None_iff)
  with assms obtain t u where t: "astimezone_utc t = Some u"
    and c: "c = \<lparr>access_key_id = field_text data ''AccessKeyId'', secret_access_key = field_text data ''SecretAccessKey'',
      session_token = field_text data ''SessionToken'', expiration = served_expiration u\<rparr>"
    by (auto simp: judge_fields_def split: if_splits option.splits)
  from t have "valid_moment u \<and> mo_offset u = 0"
    using utc_of_instant [of "instant t" u] by (simp add: astimezone_utc_def)
  with texts show ?thesis by (auto simp: c servable_def CREDENTIAL_FIELDS_def)
qed

lemma judge_export_servable: "judge_export profile answer = Inr (Inr c) \<Longrightarrow> servable c"
  by (auto simp: judge_export_def Let_def judge_fields_servable split: aws_answer.splits if_splits option.splits json.splits)

lemma judge_fields_Inl: "judge_fields profile data = Inl f \<Longrightarrow> f = Overflow_Fault"
  by (auto simp: judge_fields_def split: if_splits option.splits)

lemma judge_export_Inl: "judge_export profile answer = Inl f \<Longrightarrow> f = Overflow_Fault \<or> (\<exists>reason. f = Os_Fault reason)"
  by (auto simp: judge_export_def Let_def dest!: judge_fields_Inl split: aws_answer.splits if_splits option.splits json.splits)

text \<open>An expiration that was served parses, so the cache can always be judged.\<close>

lemma servable_parses:
  assumes "servable c"
  obtains u where "parse_expiration (expiration c) = Some u" "mo_micro u = 0" "mo_offset u = 0"
  using assms served_parses by (fastforce simp: servable_def)

subsection \<open>Runs of a mint\<close>

lemma noted_run: "noted e s = (Inr (), s\<lparr>seen := seen s @ [e]\<rparr>)"
  and log_line_run: "log_line w a s = (Inr (), s\<lparr>seen := seen s @ [log_event w a]\<rparr>)"
  and set_cell_run: "set_cell f s = (Inr (), s\<lparr>cell := f (cell s)\<rparr>)"
  by (simp_all add: noted_def log_line_def set_cell_def eff_defs)

lemma monotonic_run: "monotonic W s = (Inr (mono_clock W (seen s)), s\<lparr>seen := seen s @ [Did ''time.monotonic'' []]\<rparr>)"
  and utc_now_run: "utc_now W s = (Inr (utc_clock W (seen s)), s\<lparr>seen := seen s @ [Did ''datetime.now'' []]\<rparr>)"
  by (simp_all add: monotonic_def utc_now_def noted_run bnd_def reads_def ret_def)

lemma time_to_expiry_run:
  "parse_expiration text = Some u \<Longrightarrow> time_to_expiry W text s =
     (Inr (instant u - utc_clock W (seen s)), s\<lparr>seen := seen s @ [Did ''datetime.now'' []]\<rparr>)"
  by (simp add: time_to_expiry_def utc_now_run bnd_def ret_def)

lemma export_run:
  "export_credentials W profile s =
     (judge_export profile (aws_ans W (seen s) (export_argv profile)), s\<lparr>seen := seen s @ [Ran (export_argv profile) None]\<rparr>)"
  by (simp add: export_credentials_def noted_run bnd_def reads_def lift_def)

lemmas mint_runs = noted_run log_line_run set_cell_run monotonic_run utc_now_run export_run

text \<open>What the tool answers a remint begun in \<open>s\<close>, judged.\<close>

definition outcome :: "aws_world \<Rightarrow> string \<Rightarrow> mint \<Rightarrow> fault + (message + creds)" where
  "outcome W profile s =
     judge_export profile (aws_ans W (seen s @ [log_event ''minting credentials'' [profile]]) (export_argv profile))"

text \<open>A remint: what it does for each of the three outcomes of an export.\<close>

lemma remint_fault:
  assumes "outcome W profile s = Inl f"
  shows "remint_locked W profile s =
    (Inl f, s\<lparr>seen := seen s @ [log_event ''minting credentials'' [profile], Ran (export_argv profile) None]\<rparr>)"
  using assms by (simp add: remint_locked_def bnd_def mint_runs outcome_def)

lemma remint_refused:
  assumes "outcome W profile s = Inr (Inl err)"
    and "h = seen s @ [log_event ''minting credentials'' [profile], Ran (export_argv profile) None]"
  shows "remint_locked W profile s =
    (Inr (), \<lparr>cell = (cell s)\<lparr>last_mint_attempt := Some (mono_clock W h), last_mint_error := Some err\<rparr>,
              seen = h @ [Did ''time.monotonic'' [], log_event ''mint failed'' (profile # fst err # snd err)]\<rparr>)"
  using assms by (cases s) (simp add: remint_locked_def bnd_def mint_runs outcome_def)

lemma remint_minted:
  assumes "outcome W profile s = Inr (Inr c)"
    and "h = seen s @ [log_event ''minting credentials'' [profile], Ran (export_argv profile) None]"
  shows "remint_locked W profile s =
    (Inr (), \<lparr>cell = (cell s)\<lparr>cached := Some c, last_mint_attempt := Some (mono_clock W h), last_mint_error := None\<rparr>,
              seen = h @ [Did ''time.monotonic'' [], log_event ''minted, expires'' [profile, expiration c]]\<rparr>)"
  using assms by (cases s) (simp add: remint_locked_def bnd_def mint_runs outcome_def)

lemma remint_cases:
  obtains (fault) f where "outcome W profile s = Inl f"
  | (refused) err where "outcome W profile s = Inr (Inl err)"
  | (minted) c where "outcome W profile s = Inr (Inr c)"
  by (metis sum.exhaust)

subsection \<open>The cache stays servable\<close>

lemma keeps_noted [hoare_rules]: "keeps (\<lambda>s. cell_ok (cell s)) (noted e)"
  and keeps_log_line [hoare_rules]: "keeps (\<lambda>s. cell_ok (cell s)) (log_line w a)"
  and keeps_monotonic [hoare_rules]: "keeps (\<lambda>s. cell_ok (cell s)) (monotonic W)"
  and keeps_time_to_expiry [hoare_rules]: "keeps (\<lambda>s. cell_ok (cell s)) (time_to_expiry W text)"
  by (auto intro!: keepsI simp: mint_runs time_to_expiry_def bnd_def ret_def raise_def split: option.splits)

lemma keeps_remint [hoare_rules]: "keeps (\<lambda>s. cell_ok (cell s)) (remint_locked W profile)"
proof (rule keepsI)
  fix s r t
  assume ok: "cell_ok (cell s)" and run: "remint_locked W profile s = (r, t)"
  show "cell_ok (cell t)"
  proof (cases rule: remint_cases [of W profile s])
    case (fault f)
    from remint_fault [OF this] ok run show ?thesis by auto
  next
    case (refused err)
    from remint_refused [OF this refl] ok run show ?thesis by (auto simp: cell_ok_def)
  next
    case (minted c)
    from remint_minted [OF this refl] judge_export_servable [OF minted [unfolded outcome_def]] run show ?thesis by (auto simp: cell_ok_def)
  qed
qed

lemma keeps_get [hoare_rules]: "keeps (\<lambda>s. cell_ok (cell s)) (get_locked W profile)"
  unfolding get_locked_def needs_remint_def throttled_def usable_def by (intro hoare_rules)
subsection \<open>What a get does\<close>

text \<open>
  \<open>expires_at\<close> is the instant a cached set of credentials lapses. \<open>looked\<close> is the state after the
  clock readings a get begins with, and \<open>mint_due\<close> what they decide: the tool is called when what is
  cached is gone or lapses within the window, and the last attempt is old enough.
\<close>

definition expires_at :: "creds \<Rightarrow> int" where
  "expires_at c = instant (the (parse_expiration (expiration c)))"

definition looked_once :: "mint \<Rightarrow> mint" where
  "looked_once s = s\<lparr>seen := seen s @ (case cached (cell s) of None \<Rightarrow> [] | Some _ \<Rightarrow> [Did ''datetime.now'' []])\<rparr>"

definition looked :: "mint \<Rightarrow> mint" where
  "looked s = s\<lparr>seen := seen (looked_once s) @
     (case last_mint_attempt (cell s) of None \<Rightarrow> [] | Some _ \<Rightarrow> [Did ''time.monotonic'' []])\<rparr>"

definition lapses_soon :: "aws_world \<Rightarrow> mint \<Rightarrow> bool" where
  "lapses_soon W s =
     (case cached (cell s) of None \<Rightarrow> True | Some held \<Rightarrow> expires_at held - utc_clock W (seen s) < 600 * 1000000)"

definition rested :: "aws_world \<Rightarrow> mint \<Rightarrow> bool" where
  "rested W s =
     (case last_mint_attempt (cell s) of
        None \<Rightarrow> True
      | Some a \<Rightarrow> min_remint_interval (cell s) \<le> mono_clock W (seen (looked_once s)) - a)"

definition mint_due :: "aws_world \<Rightarrow> mint \<Rightarrow> bool" where
  "mint_due W s \<longleftrightarrow> lapses_soon W s \<and> rested W s"

definition still_good :: "aws_world \<Rightarrow> creds option \<Rightarrow> history \<Rightarrow> creds option" where
  "still_good W c h =
     (case c of None \<Rightarrow> None | Some held \<Rightarrow> if expires_at held \<le> utc_clock W h then None else Some held)"

lemma cell_looked [simp]: "cell (looked s) = cell s" "cell (looked_once s) = cell s"
  by (simp_all add: looked_def looked_once_def)

lemma expiry_run:
  "servable c \<Longrightarrow> time_to_expiry W (expiration c) s =
     (Inr (expires_at c - utc_clock W (seen s)), s\<lparr>seen := seen s @ [Did ''datetime.now'' []]\<rparr>)"
  by (metis expires_at_def option.sel servable_parses time_to_expiry_run)

lemma needs_run:
  assumes "cell_ok (cell s)"
  shows "needs_remint W (cached (cell s)) s = (Inr (lapses_soon W s), looked_once s)"
  using assms
  by (auto simp: needs_remint_def lapses_soon_def looked_once_def cell_ok_def expiry_run bnd_def ret_def
      REMINT_WINDOW_SECONDS_def split: option.split)

lemma throttled_run: "throttled W (cell s) (looked_once s) = (Inr (\<not> rested W s), looked s)"
  by (auto simp: throttled_def rested_def looked_def monotonic_run bnd_def ret_def looked_once_def split: option.split)

lemma usable_run:
  assumes "cell_ok (cell s)"
  shows "fst (usable W (cached (cell s)) s) = Inr (still_good W (cached (cell s)) (seen s))"
    and "cell (snd (usable W (cached (cell s)) s)) = cell s"
    and "cached (cell s) = Some c \<Longrightarrow> seen (snd (usable W (cached (cell s)) s)) = seen s @ [Did ''datetime.now'' []]"
    and "cached (cell s) = None \<Longrightarrow> seen (snd (usable W (cached (cell s)) s)) = seen s"
  using assms by (auto simp: usable_def still_good_def cell_ok_def expiry_run bnd_def ret_def split: option.split)

abbreviation use_cache :: "aws_world \<Rightarrow> creds option minting" where
  "use_cache W \<equiv> bnd (reads (\<lambda>s. cached (cell s))) (usable W)"

lemma use_cache_run: "use_cache W s = usable W (cached (cell s)) s"
  by (simp add: bnd_def reads_def)

lemma get_locked_run:
  assumes "cell_ok (cell s)"
  shows "get_locked W profile s =
    (if mint_due W s then sq (remint_locked W profile) (use_cache W) (looked s) else use_cache W (looked s))"
proof -
  have first: "bnd (needs_remint W (cached (cell s))) f s = f (lapses_soon W s) (looked_once s)"
    for f :: "bool \<Rightarrow> creds option minting"
    by (rule bnd_run_Inr, rule needs_run, rule assms)
  have second: "bnd (throttled W (cell s)) f (looked_once s) = f (\<not> rested W s) (looked s)"
    for f :: "bool \<Rightarrow> creds option minting"
    by (rule bnd_run_Inr, rule throttled_run)
  have "get_locked W profile s =
      bnd (needs_remint W (cached (cell s))) (\<lambda>needs. bnd (throttled W (cell s)) (\<lambda>wait.
        sq (when_do (needs \<and> \<not> wait) (remint_locked W profile)) (use_cache W))) s"
    by (simp add: get_locked_def bnd_def reads_def)
  also have "\<dots> = sq (when_do (mint_due W s) (remint_locked W profile)) (use_cache W) (looked s)"
    unfolding first second by (simp add: mint_due_def)
  finally show ?thesis by (simp add: when_do_def eff_simps)
qed

lemma get_quiet:
  assumes "cell_ok (cell s)" and "\<not> mint_due W s"
  shows "fst (get_locked W profile s) = Inr (still_good W (cached (cell s)) (seen (looked s)))"
    and "cell (snd (get_locked W profile s)) = cell s"
  using assms usable_run(1,2) [where s = "looked s" and W = W] by (simp_all add: get_locked_run use_cache_run)

lemma get_fault:
  assumes "cell_ok (cell s)" and "mint_due W s" and "outcome W profile (looked s) = Inl f"
  shows "get_locked W profile s = (Inl f, (looked s)\<lparr>seen := seen (looked s) @
    [log_event ''minting credentials'' [profile], Ran (export_argv profile) None]\<rparr>)"
proof -
  have "sq (remint_locked W profile) (use_cache W) (looked s) = (Inl f, (looked s)\<lparr>seen := seen (looked s) @
      [log_event ''minting credentials'' [profile], Ran (export_argv profile) None]\<rparr>)"
    by (rule bnd_run_Inl, rule remint_fault, rule assms(3))
  with assms(1,2) show ?thesis by (simp add: get_locked_run)
qed

lemma get_refused:
  assumes "cell_ok (cell s)" and "mint_due W s" and "outcome W profile (looked s) = Inr (Inl err)"
    and "get_locked W profile s = (r, t)"
  shows "\<exists>h. r = Inr (still_good W (cached (cell s)) h) \<and> cached (cell t) = cached (cell s)
    \<and> last_mint_error (cell t) = Some err \<and> (\<exists>k. last_mint_attempt (cell t) = Some (mono_clock W k)) \<and> prefix (seen (looked s)) h"
proof -
  let ?k = "seen (looked s) @ [log_event ''minting credentials'' [profile], Ran (export_argv profile) None]"
  let ?u = "\<lparr>cell = (cell s)\<lparr>last_mint_attempt := Some (mono_clock W ?k), last_mint_error := Some err\<rparr>,
    seen = ?k @ [Did ''time.monotonic'' [], log_event ''mint failed'' (profile # fst err # snd err)]\<rparr>"
  have after: "sq (remint_locked W profile) f (looked s) = f ?u" for f :: "creds option minting"
    by (rule bnd_run_Inr) (use remint_refused [OF assms(3) refl] in simp)
  have "get_locked W profile s = use_cache W ?u"
    using assms(1,2) after by (simp add: get_locked_run)
  moreover have "cell_ok (cell ?u)" using assms(1) by (simp add: cell_ok_def)
  moreover have "usable W (cached (cell ?u)) ?u = (r, t)"
    using assms(4) unfolding calculation(1) use_cache_run .
  ultimately have "r = Inr (still_good W (cached (cell s)) (seen ?u))" "cell t = cell ?u"
    using usable_run(1,2) [where s = ?u and W = W] by (simp_all only: fst_conv snd_conv mint.simps) simp_all
  moreover have "prefix (seen (looked s)) (seen ?u)" by (simp add: prefix_def)
  ultimately show ?thesis by - (rule exI [of _ "seen ?u"], auto)
qed

lemma get_minted:
  assumes "cell_ok (cell s)" and "mint_due W s" and "outcome W profile (looked s) = Inr (Inr c)"
    and "get_locked W profile s = (r, t)"
  shows "\<exists>h. r = Inr (still_good W (Some c) h) \<and> cached (cell t) = Some c \<and> last_mint_error (cell t) = None
    \<and> (\<exists>k. last_mint_attempt (cell t) = Some (mono_clock W k)) \<and> prefix (seen (looked s)) h"
proof -
  let ?k = "seen (looked s) @ [log_event ''minting credentials'' [profile], Ran (export_argv profile) None]"
  let ?u = "\<lparr>cell = (cell s)\<lparr>cached := Some c, last_mint_attempt := Some (mono_clock W ?k), last_mint_error := None\<rparr>,
    seen = ?k @ [Did ''time.monotonic'' [], log_event ''minted, expires'' [profile, expiration c]]\<rparr>"
  have after: "sq (remint_locked W profile) f (looked s) = f ?u" for f :: "creds option minting"
    by (rule bnd_run_Inr) (use remint_minted [OF assms(3) refl] in simp)
  have "get_locked W profile s = use_cache W ?u"
    using assms(1,2) after by (simp add: get_locked_run)
  moreover have "cell_ok (cell ?u)"
    using judge_export_servable [OF assms(3) [unfolded outcome_def]] by (simp add: cell_ok_def)
  moreover have "usable W (cached (cell ?u)) ?u = (r, t)"
    using assms(4) unfolding calculation(1) use_cache_run .
  ultimately have "r = Inr (still_good W (Some c) (seen ?u))" "cell t = cell ?u"
    using usable_run(1,2) [where s = ?u and W = W] by (simp_all only: fst_conv snd_conv mint.simps) simp_all
  moreover have "prefix (seen (looked s)) (seen ?u)" by (simp add: prefix_def)
  ultimately show ?thesis by - (rule exI [of _ "seen ?u"], auto)
qed
lemma get_ends_with_use:
  assumes "cell_ok (cell s)" and "get_locked W profile s = (Inr x, t)"
  obtains u where "cell_ok (cell u)" "use_cache W u = (Inr x, t)" "prefix (seen s) (seen u)"
proof (cases "mint_due W s")
  case False
  have "prefix (seen s) (seen (looked s))" by (auto simp: looked_def looked_once_def prefix_def)
  with that [of "looked s"] assms False show ?thesis by (simp add: get_locked_run)
next
  case True
  with assms have "sq (remint_locked W profile) (use_cache W) (looked s) = (Inr x, t)" by (simp add: get_locked_run)
  then obtain v u where u: "remint_locked W profile (looked s) = (Inr v, u)" "use_cache W u = (Inr x, t)"
    by (rule bnd_InrE)
  have "cell_ok (cell (looked s))" using assms(1) by simp
  with keepsD [OF keeps_remint _ u(1)] have "cell_ok (cell u)" by simp
  moreover have "prefix (seen (looked s)) (seen u)"
  proof (cases rule: remint_cases [of W profile "looked s"])
    case (fault f)
    from remint_fault [OF this] u(1) show ?thesis by auto
  next
    case (refused err)
    from remint_refused [OF this refl] u(1) show ?thesis by auto
  next
    case (minted c)
    from remint_minted [OF this refl] u(1) show ?thesis by auto
  qed
  moreover have "prefix (seen s) (seen (looked s))" by (auto simp: looked_def looked_once_def prefix_def)
  ultimately show ?thesis using that u(2) by (metis prefix_order.trans)
qed

lemma get_returns_fresh:
  assumes "cell_ok (cell s)" and "get_locked W profile s = (Inr (Some c), t)"
  shows "servable c \<and> (\<exists>h. prefix (seen s) h \<and> seen t = h @ [Did ''datetime.now'' []] \<and> utc_clock W h < expires_at c)"
proof -
  from get_ends_with_use [OF assms] obtain u
    where u: "cell_ok (cell u)" "use_cache W u = (Inr (Some c), t)" "prefix (seen s) (seen u)" by blast
  have run: "usable W (cached (cell u)) u = (Inr (Some c), t)" using u(2) by (simp add: use_cache_run)
  with usable_run(1) [OF u(1), of W] have good: "still_good W (cached (cell u)) (seen u) = Some c" by simp
  then have held: "cached (cell u) = Some c" "utc_clock W (seen u) < expires_at c"
    by (auto simp: still_good_def split: option.splits if_splits)
  from usable_run(3) [OF u(1) held(1), of W] run have "seen t = seen u @ [Did ''datetime.now'' []]" by simp
  moreover have "servable c" using u(1) held(1) by (simp add: cell_ok_def)
  ultimately show ?thesis using u(3) held(2) by blast
qed

text \<open>A get that raises is a mint that did: nothing of the attempt is recorded.\<close>

lemma get_raises:
  assumes "cell_ok (cell s)" and "get_locked W profile s = (Inl f, t)"
  shows "mint_due W s \<and> outcome W profile (looked s) = Inl f \<and> cell t = cell s"
proof -
  have due: "mint_due W s" 
  proof (rule ccontr)
    assume "\<not> mint_due W s"
    from get_quiet(1) [OF assms(1) this, of profile] assms(2) show False by simp
  qed
  moreover from assms have out: "outcome W profile (looked s) = Inl f"
    using get_refused [OF assms(1) due _ assms(2)] get_minted [OF assms(1) due _ assms(2)] get_fault [OF assms(1) due]
    by (cases rule: remint_cases [of W profile "looked s"]) auto
  ultimately show ?thesis using get_fault [OF assms(1) due out] assms(2) by auto
qed

subsection \<open>Secrets do not decide what is logged\<close>

text \<open>
  Two answers of the tool are alike when they differ at most in the texts of the three secret
  fields. \<open>twins\<close> are two states that differ at most in the secrets they have cached, and two runs
  are \<open>in_step\<close> when from twins they return related results, raise the same and leave twins.
\<close>

definition SECRET_FIELDS :: "string list" where
  "SECRET_FIELDS = [''AccessKeyId'', ''SecretAccessKey'', ''SessionToken'']"

definition alike_objects :: "json \<Rightarrow> json \<Rightarrow> bool" where
  "alike_objects d e \<longleftrightarrow> list_all (\<lambda>f. (field_text d f = []) = (field_text e f = [])) SECRET_FIELDS
     \<and> json_falsy (json_get ''SessionToken'' d) = json_falsy (json_get ''SessionToken'' e)
     \<and> field_text d ''Expiration'' = field_text e ''Expiration''"

definition alike_output :: "json option \<Rightarrow> json option \<Rightarrow> bool" where
  "alike_output x y =
     (case (x, y) of (Some (JObj d), Some (JObj e)) \<Rightarrow> alike_objects (JObj d) (JObj e) | _ \<Rightarrow> x = y)"

definition alike :: "aws_answer \<Rightarrow> aws_answer \<Rightarrow> bool" where
  "alike a b =
     (case (a, b) of
        (Aws_Exits m out err, Aws_Exits n out' err') \<Rightarrow>
          m = n \<and> (if m = 0 then alike_output (json_loads (decode_replace out)) (json_loads (decode_replace out'))
                   else out = out' \<and> err = err')
      | _ \<Rightarrow> a = b)"

definition veil :: "creds \<Rightarrow> creds" where
  "veil c = c\<lparr>access_key_id := [], secret_access_key := [], session_token := []\<rparr>"

definition veil_cell :: "profile_state \<Rightarrow> profile_state" where
  "veil_cell p = p\<lparr>cached := map_option veil (cached p)\<rparr>"

definition twins :: "mint \<Rightarrow> mint \<Rightarrow> bool" where
  "twins s t \<longleftrightarrow> seen s = seen t \<and> veil_cell (cell s) = veil_cell (cell t)"

definition in_step :: "('a \<Rightarrow> 'b \<Rightarrow> bool) \<Rightarrow> 'a minting \<Rightarrow> 'b minting \<Rightarrow> bool" where
  "in_step R m n \<longleftrightarrow> (\<forall>s t. twins s t \<longrightarrow>
     rel_sum (=) R (fst (m s)) (fst (n t)) \<and> twins (snd (m s)) (snd (n t)))"

lemma in_step_bnd:
  assumes "in_step R m n" and "\<And>x y. R x y \<Longrightarrow> in_step Q (f x) (g y)"
  shows "in_step Q (bnd m f) (bnd n g)"
  unfolding in_step_def
proof (intro allI impI)
  fix s t assume "twins s t"
  with assms(1) have "rel_sum (=) R (fst (m s)) (fst (n t))" and twin: "twins (snd (m s)) (snd (n t))"
    by (simp_all add: in_step_def)
  then show "rel_sum (=) Q (fst (bnd m f s)) (fst (bnd n g t)) \<and> twins (snd (bnd m f s)) (snd (bnd n g t))"
  proof (cases rule: rel_sum.cases)
    case (2 x y)
    with assms(2) [OF 2(3)] twin show ?thesis
      by (cases "m s"; cases "n t") (simp add: bnd_def in_step_def)
  qed (cases "m s"; cases "n t"; simp add: bnd_def)
qed

lemma veil_cell_eq: "veil_cell p = veil_cell q \<longleftrightarrow>
    min_remint_interval p = min_remint_interval q \<and> map_option veil (cached p) = map_option veil (cached q)
    \<and> last_mint_attempt p = last_mint_attempt q \<and> last_mint_error p = last_mint_error q"
  by (cases p; cases q) (auto simp: veil_cell_def)

lemma in_step_ret: "R x y \<Longrightarrow> in_step R (ret x) (ret y)"
  and in_step_raise: "in_step R (raise z) (raise z)"
  and in_step_noted: "in_step (=) (noted e) (noted e)"
  and in_step_log: "in_step (=) (log_line w a) (log_line w a)"
  and in_step_reads: "(\<And>s t. twins s t \<Longrightarrow> R (f s) (g t)) \<Longrightarrow> in_step R (reads f) (reads g)"
  and in_step_set: "(\<And>p q. veil_cell p = veil_cell q \<Longrightarrow> veil_cell (k p) = veil_cell (l q)) \<Longrightarrow> in_step (=) (set_cell k) (set_cell l)"
  by (auto simp: in_step_def mint_runs eff_defs twins_def)

lemma in_step_lift: "rel_sum (=) R r q \<Longrightarrow> in_step R (lift r) (lift q)"
  by (cases r; cases q) (auto simp: in_step_def lift_def)

lemma in_step_when: "b = c \<Longrightarrow> in_step (=) m n \<Longrightarrow> in_step (=) (when_do b m) (when_do c n)"
  by (simp add: when_do_def in_step_ret)

lemma veil_expiration: "veil c = veil d \<Longrightarrow> expiration c = expiration d"
  by (cases c; cases d) (simp add: veil_def)

lemma judge_alike:
  assumes "alike a b"
  shows "rel_sum (=) (rel_sum (=) (\<lambda>c d. veil c = veil d)) (judge_export profile a) (judge_export profile b)"
proof -
  have same: "rel_sum (=) (rel_sum (=) (\<lambda>c d. veil c = veil d)) x x" for x :: "fault + (message + creds)"
    by (intro sum.rel_refl) simp_all
  have objects: "rel_sum (=) (rel_sum (=) (\<lambda>c d. veil c = veil d)) (judge_fields profile d) (judge_fields profile e)"
    if "alike_objects d e" for d e
  proof -
    have "find (\<lambda>f. field_text d f = []) CREDENTIAL_FIELDS = find (\<lambda>f. field_text e f = []) CREDENTIAL_FIELDS"
      using that by (auto simp: alike_objects_def SECRET_FIELDS_def CREDENTIAL_FIELDS_def)
    with that show ?thesis
      by (auto simp: alike_objects_def judge_fields_def veil_def split: option.split)
  qed
  show ?thesis
    using assms same objects
    by (auto simp: alike_def alike_output_def judge_export_def Let_def split: aws_answer.splits if_splits option.splits json.splits)
qed

definition twin_worlds :: "aws_world \<Rightarrow> aws_world \<Rightarrow> bool" where
  "twin_worlds V W \<longleftrightarrow> utc_clock V = utc_clock W \<and> mono_clock V = mono_clock W
     \<and> (\<forall>h argv. alike (aws_ans V h argv) (aws_ans W h argv))"

lemma twin_clocks:
  assumes "twin_worlds V W"
  shows "in_step (=) (utc_now V) (utc_now W)" and "in_step (=) (monotonic V) (monotonic W)"
  using assms unfolding utc_now_def monotonic_def
  by (auto intro!: in_step_bnd [where R = "(=)"] in_step_reads in_step_noted in_step_ret simp: twins_def twin_worlds_def)

lemma twin_expiry:
  assumes "twin_worlds V W" and "veil c = veil d"
  shows "in_step (=) (time_to_expiry V (expiration c)) (time_to_expiry W (expiration d))"
  unfolding time_to_expiry_def veil_expiration [OF assms(2)]
  by (auto intro!: in_step_bnd [OF twin_clocks(1) [OF assms(1)]] in_step_ret in_step_raise split: option.split)

lemma twin_export:
  assumes "twin_worlds V W"
  shows "in_step (rel_sum (=) (\<lambda>c d. veil c = veil d)) (export_credentials V profile) (export_credentials W profile)"
  unfolding export_credentials_def
proof (rule in_step_bnd [where R = alike])
  show "in_step alike (reads (\<lambda>s. aws_ans V (seen s) (export_argv profile))) (reads (\<lambda>s. aws_ans W (seen s) (export_argv profile)))"
    using assms by (intro in_step_reads) (simp add: twins_def twin_worlds_def)
qed (rule in_step_bnd [OF in_step_noted], intro in_step_lift judge_alike)

text \<open>What a remint does with a judged export.\<close>

lemma twin_verdict:
  assumes "rel_sum (=) (\<lambda>c d. veil c = veil d) x y"
  shows "in_step (=)
      (case x of Inl err \<Rightarrow> sq (set_cell (\<lambda>c. c\<lparr>last_mint_error := Some err\<rparr>)) (log_line ''mint failed'' (profile # fst err # snd err))
       | Inr minted \<Rightarrow> sq (set_cell (\<lambda>c. c\<lparr>cached := Some minted, last_mint_error := None\<rparr>)) (log_line ''minted, expires'' [profile, expiration minted]))
      (case y of Inl err \<Rightarrow> sq (set_cell (\<lambda>c. c\<lparr>last_mint_error := Some err\<rparr>)) (log_line ''mint failed'' (profile # fst err # snd err))
       | Inr minted \<Rightarrow> sq (set_cell (\<lambda>c. c\<lparr>cached := Some minted, last_mint_error := None\<rparr>)) (log_line ''minted, expires'' [profile, expiration minted]))"
  using assms
proof (cases rule: rel_sum.cases)
  case (2 c d)
  then have "expiration c = expiration d" by (intro veil_expiration)
  with 2 show ?thesis by (auto intro!: in_step_bnd [OF in_step_set] in_step_log simp: veil_cell_eq)
qed (auto intro!: in_step_bnd [OF in_step_set] in_step_log simp: veil_cell_eq)

lemma twin_remint:
  assumes "twin_worlds V W"
  shows "in_step (=) (remint_locked V profile) (remint_locked W profile)"
  unfolding remint_locked_def
  by (intro in_step_bnd [OF in_step_log] in_step_bnd [OF twin_export [OF assms]] in_step_bnd [OF twin_clocks(2) [OF assms]]
      in_step_bnd [OF in_step_set] twin_verdict) (auto simp: veil_cell_eq)

lemma twin_use:
  assumes "twin_worlds V W"
  shows "in_step (rel_option (\<lambda>c d. veil c = veil d)) (use_cache V) (use_cache W)"
proof (rule in_step_bnd)
  show "in_step (rel_option (\<lambda>c d. veil c = veil d)) (reads (\<lambda>s. cached (cell s))) (reads (\<lambda>s. cached (cell s)))"
  proof (rule in_step_reads)
    show "rel_option (\<lambda>c d. veil c = veil d) (cached (cell s)) (cached (cell t))" if "twins s t" for s t
      using that by (cases "cached (cell s)"; cases "cached (cell t)") (auto simp: twins_def veil_cell_eq)
  qed
next
  fix x y assume "rel_option (\<lambda>c d. veil c = veil d) x y"
  then show "in_step (rel_option (\<lambda>c d. veil c = veil d)) (usable V x) (usable W y)"
    by (cases rule: option.rel_cases)
       (auto simp: usable_def intro!: in_step_ret in_step_bnd [OF twin_expiry [OF assms]])
qed

lemma twin_get:
  assumes "twin_worlds V W"
  shows "in_step (rel_option (\<lambda>c d. veil c = veil d)) (get_locked V profile) (get_locked W profile)"
  unfolding get_locked_def
proof (rule in_step_bnd [OF in_step_reads [where R = "\<lambda>p q. veil_cell p = veil_cell q"]])
  fix p q assume pq: "veil_cell p = veil_cell q"
  have needs: "in_step (=) (needs_remint V (cached p)) (needs_remint W (cached q))"
    using pq by (cases "cached p"; cases "cached q")
      (auto simp: veil_cell_eq needs_remint_def intro!: in_step_ret in_step_bnd [OF twin_expiry [OF assms]])
  have same: "last_mint_attempt p = last_mint_attempt q" "min_remint_interval p = min_remint_interval q"
    using pq by (simp_all add: veil_cell_eq)
  have wait: "in_step (=) (throttled V p) (throttled W q)"
    unfolding throttled_def same
    by (auto intro!: in_step_ret in_step_bnd [OF twin_clocks(2) [OF assms]] split: option.split)
  show "in_step (rel_option (\<lambda>c d. veil c = veil d))
      (bnd (needs_remint V (cached p)) (\<lambda>needs. bnd (throttled V p) (\<lambda>wait.
         sq (when_do (needs \<and> \<not> wait) (remint_locked V profile)) (use_cache V))))
      (bnd (needs_remint W (cached q)) (\<lambda>needs. bnd (throttled W q) (\<lambda>wait.
         sq (when_do (needs \<and> \<not> wait) (remint_locked W profile)) (use_cache W))))"
    by (rule in_step_bnd [OF needs], rule in_step_bnd [OF wait],
        rule in_step_bnd [OF in_step_when [OF _ twin_remint [OF assms]]]) (auto intro: twin_use [OF assms])
qed (simp add: twins_def)

subsection \<open>When the tool is called\<close>

lemma looked_extends: "\<exists>es. seen (looked s) = seen s @ es \<and> Ran a i \<notin> set es"
  by (auto simp: looked_def looked_once_def split: option.split)

lemma remint_calls:
  assumes "remint_locked W profile s = (r, u)"
  shows "\<exists>es. seen u = seen s @ [log_event ''minting credentials'' [profile], Ran (export_argv profile) None] @ es"
proof (cases rule: remint_cases [of W profile s])
  case (fault f)
  from remint_fault [OF this] assms show ?thesis by auto
next
  case (refused err)
  from remint_refused [OF this refl] assms show ?thesis by auto
next
  case (minted c)
  from remint_minted [OF this refl] assms show ?thesis by auto
qed

lemma use_extends:
  assumes "cell_ok (cell u)" and "use_cache W u = (r, t)"
  shows "\<exists>es. seen t = seen u @ es \<and> Ran a i \<notin> set es"
proof -
  have "usable W (cached (cell u)) u = (r, t)" using assms(2) by (simp add: use_cache_run)
  with usable_run(3,4) [OF assms(1), where W = W] show ?thesis by (cases "cached (cell u)") auto
qed

lemma tool_called_iff_due:
  assumes "cell_ok (cell s)" and "get_locked W profile s = (r, t)"
  shows "Ran (export_argv profile) None \<in> set (drop (length (seen s)) (seen t)) \<longleftrightarrow> mint_due W s"
proof -
  obtain es where es: "seen (looked s) = seen s @ es" "Ran (export_argv profile) None \<notin> set es"
    using looked_extends by blast
  have ok: "cell_ok (cell (looked s))" using assms(1) by simp
  show ?thesis
  proof (cases "mint_due W s")
    case False
    with assms have "use_cache W (looked s) = (r, t)" by (simp add: get_locked_run)
    with use_extends [OF ok] False es show ?thesis by fastforce
  next
    case True
    with assms have run: "sq (remint_locked W profile) (use_cache W) (looked s) = (r, t)" by (simp add: get_locked_run)
    obtain q u where u: "remint_locked W profile (looked s) = (q, u)" by fastforce
    from remint_calls [OF this] es
    have called: "Ran (export_argv profile) None \<in> set (drop (length (seen s)) (seen u))" by auto
    moreover have "length (seen s) \<le> length (seen u)" using remint_calls [OF u] es by auto
    moreover have "\<exists>es. seen t = seen u @ es"
    proof (cases q)
      case (Inl f)
      with run u show ?thesis by (simp add: bnd_def)
    next
      case (Inr x)
      with run u have "use_cache W u = (r, t)" by (simp add: bnd_def)
      moreover have "cell_ok (cell u)" using keepsD [OF keeps_remint ok u] .
      ultimately show ?thesis using use_extends by blast
    qed
    ultimately show ?thesis using True by auto
  qed
qed

text \<open>One get after another, whatever each returns or raises.\<close>

primrec gets :: "aws_world \<Rightarrow> string \<Rightarrow> nat \<Rightarrow> mint \<Rightarrow> mint" where
  "gets W profile 0 s = s"
| "gets W profile (Suc n) s = snd (get_locked W profile (gets W profile n s))"

definition mints_of :: "string \<Rightarrow> history \<Rightarrow> nat" where
  "mints_of profile h = length (filter (\<lambda>e. e = Ran (export_argv profile) None) h)"

lemma gets_cell_ok: "cell_ok (cell s) \<Longrightarrow> cell_ok (cell (gets W profile n s))"
  by (induction n) (auto intro: keepsD [OF keeps_get] simp: prod_eq_iff)

subsection \<open>Properties\<close>

text \<open>A world with one answer of the tool, at nine o'clock of a day; its monotonic clock counts events.\<close>

definition quoted :: "string \<Rightarrow> string" where
  "quoted s = CHR 0x22 # s @ [CHR 0x22]"

definition printed :: "string \<Rightarrow> string \<Rightarrow> string \<Rightarrow> string \<Rightarrow> aws_answer" where
  "printed key secret token expires =
     Aws_Exits 0 (''{'' @ quoted ''AccessKeyId'' @ '': '' @ quoted key @ '', '' @ quoted ''SecretAccessKey'' @ '': '' @ quoted secret
       @ '', '' @ quoted ''SessionToken'' @ '': '' @ quoted token @ '', '' @ quoted ''Expiration'' @ '': '' @ quoted expires @ ''}'') []"

definition nine_o_clock :: "aws_answer \<Rightarrow> aws_world" where
  "nine_o_clock answer = \<lparr>aws_ans = (\<lambda>h argv. answer),
     utc_clock = (\<lambda>h. (day_number 2024 2 29 * 86400 + 9 * 3600) * 1000000), mono_clock = (\<lambda>h. of_nat (length h))\<rparr>"

text \<open>
  C14: whatever was served before, a get asks the tool for new credentials exactly when what it
  holds is gone or lapses within ten minutes and the last recorded attempt is at least the interval ago.
\<close>

theorem tool_called_exactly_when_due:
  assumes "get_locked W profile (gets W profile n \<lparr>cell = new_state interval, seen = []\<rparr>) = (r, t)"
    and "s = gets W profile n \<lparr>cell = new_state interval, seen = []\<rparr>"
  shows "Ran (export_argv profile) None \<in> set (drop (length (seen s)) (seen t)) \<longleftrightarrow> lapses_soon W s \<and> rested W s"
proof -
  have "cell_ok (cell s)" using assms(2) by (simp add: gets_cell_ok)
  with assms show ?thesis using tool_called_iff_due [of s W profile r t] by (simp add: mint_due_def)
qed

theorem tool_called_exactly_when_due_witness:
  "Ran (export_argv ''dev'') None \<in> set (seen (snd (get_locked (nine_o_clock Aws_Missing) ''dev'' \<lparr>cell = new_state 5, seen = []\<rparr>)))"
proof -
  let ?W = "nine_o_clock Aws_Missing" and ?s = "\<lparr>cell = new_state 5, seen = []\<rparr>"
  obtain r t where run: "get_locked ?W ''dev'' (gets ?W ''dev'' 0 ?s) = (r, t)" by fastforce
  have "lapses_soon ?W ?s \<and> rested ?W ?s" by (simp add: lapses_soon_def rested_def new_state_def)
  with tool_called_exactly_when_due [OF run refl] run show ?thesis by simp
qed

text \<open>
  A mint that fails keeps what was cached: the get still serves it as long as it has not
  lapsed, and remembers the error.
\<close>

lemma failed_mint_serves_the_cache:
  assumes "cell_ok (cell s)" and "cached (cell s) = Some held" and "mint_due W s"
    and "outcome W profile (looked s) = Inr (Inl err)" and "get_locked W profile s = (r, t)"
  shows "\<exists>h. prefix (seen s) h \<and> r = Inr (if expires_at held \<le> utc_clock W h then None else Some held)
    \<and> cached (cell t) = Some held \<and> last_mint_error (cell t) = Some err"
proof -
  from get_refused [OF assms(1,3,4,5)] obtain h
    where "r = Inr (still_good W (cached (cell s)) h)" "cached (cell t) = cached (cell s)"
      "last_mint_error (cell t) = Some err" "prefix (seen (looked s)) h" by blast
  moreover have "prefix (seen s) (seen (looked s))" by (auto simp: looked_def looked_once_def)
  ultimately show ?thesis using assms(2) by (auto simp: still_good_def intro: prefix_order.trans)
qed

definition lapsing :: creds where
  "lapsing = \<lparr>access_key_id = ''AKIA'', secret_access_key = ''s3cret'', session_token = ''t0ken'',
     expiration = ''2024-02-29T09:05:00Z''\<rparr>"

definition lapsing_state :: mint where
  "lapsing_state = \<lparr>cell = (new_state 5)\<lparr>cached := Some lapsing\<rparr>, seen = []\<rparr>"

lemma lapsing_servable: "servable lapsing"
proof -
  let ?u = "\<lparr>mo_year = 2024, mo_month = 2, mo_day = 29, mo_hour = 9, mo_minute = 5, mo_second = 0, mo_micro = 0, mo_offset = 0\<rparr>"
  have "valid_moment ?u" "served_expiration ?u = expiration lapsing" by code_simp+
  then show ?thesis by (auto simp: servable_def lapsing_def intro: exI [of _ ?u])
qed

theorem failed_mint_serves_the_cache_witness:
  "\<exists>t. get_locked (nine_o_clock Aws_Missing) ''dev'' lapsing_state = (Inr (Some lapsing), t)
    \<and> last_mint_error (cell t) = Some (''aws is not on PATH'', [])"
proof -
  let ?W = "nine_o_clock Aws_Missing"
  obtain r t where run: "get_locked ?W ''dev'' lapsing_state = (r, t)" by fastforce
  have ok: "cell_ok (cell lapsing_state)" "cached (cell lapsing_state) = Some lapsing"
    by (simp_all add: cell_ok_def lapsing_state_def lapsing_servable)
  have due: "mint_due ?W lapsing_state" by code_simp
  have out: "outcome ?W ''dev'' (looked lapsing_state) = Inr (Inl (''aws is not on PATH'', []))"
    by (simp add: outcome_def nine_o_clock_def judge_export_def)
  have "\<not> expires_at lapsing \<le> (day_number 2024 2 29 * 86400 + 9 * 3600) * 1000000" by code_simp
  then have clock: "\<not> expires_at lapsing \<le> utc_clock ?W h" for h by (simp add: nine_o_clock_def)
  from failed_mint_serves_the_cache [OF ok due out run] clock run show ?thesis by auto
qed

text \<open>
  C29: an export that raises, which \<open>export_credentials\<close> is documented never to do, is not
  throttled: no attempt is recorded, so \<open>n\<close> requests run the tool \<open>n\<close> times whatever the interval.
\<close>

theorem raising_mint_is_not_throttled:
  assumes "\<And>h. judge_export profile (aws_ans W h (export_argv profile)) = Inl f"
  shows "mints_of profile (seen (gets W profile n \<lparr>cell = new_state interval, seen = []\<rparr>)) = n"
proof -
  let ?s = "\<lambda>n. gets W profile n \<lparr>cell = new_state interval, seen = []\<rparr>"
  have "cell (?s n) = new_state interval \<and> mints_of profile (seen (?s n)) = n" for n
  proof (induction n)
    case (Suc n)
    then have cell: "cell (?s n) = new_state interval" by simp
    then have due: "mint_due W (?s n)" by (simp add: mint_due_def lapses_soon_def rested_def new_state_def)
    have out: "outcome W profile (looked (?s n)) = Inl f" using assms by (simp add: outcome_def)
    have "cell_ok (cell (?s n))" using cell by simp
    from get_fault [OF this due out] Suc cell show ?case
      by (simp add: mints_of_def looked_def looked_once_def new_state_def log_event_def)
  qed (simp add: mints_of_def)
  then show ?thesis by simp
qed

theorem raising_mint_is_not_throttled_witness:
  "mints_of ''dev'' (seen (gets (nine_o_clock (printed ''AKIA'' ''s3cret'' ''t0ken'' ''0001-01-01T00:00:00+05:00'')) ''dev'' 3
     \<lparr>cell = new_state 5, seen = []\<rparr>)) = 3"
proof (rule raising_mint_is_not_throttled)
  have "judge_export ''dev'' (printed ''AKIA'' ''s3cret'' ''t0ken'' ''0001-01-01T00:00:00+05:00'') = Inl Overflow_Fault"
    by code_simp
  then show "judge_export ''dev'' (aws_ans (nine_o_clock (printed ''AKIA'' ''s3cret'' ''t0ken'' ''0001-01-01T00:00:00+05:00'')) h
      (export_argv ''dev'')) = Inl Overflow_Fault" for h
    by (simp add: nine_o_clock_def)
qed





end
