(* ===== verification/Yo_Json_Text.thy ===== *)
theory Yo_Json_Text
  imports Yo_Json Yo_World
begin

text \<open>
  Python's \<open>json.dumps\<close> with its defaults, the counterpart of \<open>Yo_Json\<close>: what it writes
  \<open>json_loads\<close> reads back, with the members of an object in the reverse order (\<open>Yo_Json\<close> keeps the
  latest first). It holds for values whose numbers are integers and whose keys are distinct.
\<close>

subsection \<open>Writing\<close>

definition json_escape :: "char \<Rightarrow> string" where
  "json_escape c =
     (let n = (of_char c :: nat) in
      if c = CHR 0x22 then [CHR 0x5C, CHR 0x22]
      else if c = CHR 0x5C then [CHR 0x5C, CHR 0x5C]
      else if n = 10 then [CHR 0x5C, CHR ''n'']
      else if n = 13 then [CHR 0x5C, CHR ''r'']
      else if n = 9 then [CHR 0x5C, CHR ''t'']
      else if n = 12 then [CHR 0x5C, CHR ''f'']
      else if n = 8 then [CHR 0x5C, CHR ''b'']
      else if 32 \<le> n \<and> n < 127 then [c]
      else [CHR 0x5C, CHR ''u'', CHR ''0'', CHR ''0'', low_hex (n div 16), low_hex (n mod 16)])"

definition json_quote :: "string \<Rightarrow> string" where
  "json_quote s = CHR 0x22 # concat (map json_escape s) @ [CHR 0x22]"

fun json_dumps :: "json \<Rightarrow> string" where
  "json_dumps JNull = ''null''"
| "json_dumps (JBool b) = (if b then ''true'' else ''false'')"
| "json_dumps (JNum s) = s"
| "json_dumps (JStr s) = json_quote s"
| "json_dumps (JArr vs) = ''['' @ join_with '', '' (map json_dumps vs) @ '']''"
| "json_dumps (JObj ms) = ''{'' @ join_with '', '' (map (\<lambda>(k, v). json_quote k @ '': '' @ json_dumps v) ms) @ ''}''"

text \<open>The value read back, and the values it holds for.\<close>

fun reread :: "json \<Rightarrow> json" where
  "reread (JArr vs) = JArr (map reread vs)"
| "reread (JObj ms) = JObj (rev (map (\<lambda>(k, v). (k, reread v)) ms))"
| "reread v = v"

fun writable :: "json \<Rightarrow> bool" where
  "writable (JNum s) = (\<exists>i. s = show_int i)"
| "writable (JArr vs) = list_all writable vs"
| "writable (JObj ms) = (distinct (map fst ms) \<and> list_all (\<lambda>(k, v). writable v) ms)"
| "writable v = True"

subsection \<open>Reading back\<close>

lemma hex_value_low: "n < 16 \<Longrightarrow> hex_value (low_hex n) = Some n"
  by (auto simp: hex_value_def low_hex_def is_digit_def Let_def)

lemma hex_value_zero: "hex_value CHR ''0'' = Some 0"
  by (simp add: hex_value_def is_digit_def)

lemma json_string_escape: "json_string (json_escape c @ r) = map_option (\<lambda>(t, q). (c # t, q)) (json_string r)"
proof -
  let ?n = "of_char c :: nat"
  have byte: "?n < 256" by simp
  then have digits: "?n div 16 < 16" "?n mod 16 < 16" by (simp_all add: less_mult_imp_div_less)
  have code: "code_point (16 * (?n div 16) + ?n mod 16) = c" by (simp add: code_point_def)
  have named: "?n = of_char d \<Longrightarrow> c = d" for d by simp
  have controls: "?n = 10 \<Longrightarrow> c = CHR 0x0A" "?n = 13 \<Longrightarrow> c = CHR 0x0D" "?n = 9 \<Longrightarrow> c = CHR 0x09"
    "?n = 12 \<Longrightarrow> c = CHR 0x0C" "?n = 8 \<Longrightarrow> c = CHR 0x08"
    by (rule named, simp)+
  consider "c = CHR 0x22" | "c = CHR 0x5C" | "?n = 10" | "?n = 13" | "?n = 9" | "?n = 12" | "?n = 8"
    | "c \<noteq> CHR 0x22" "c \<noteq> CHR 0x5C" "32 \<le> ?n" "?n < 127"
    | "c \<noteq> CHR 0x22" "c \<noteq> CHR 0x5C" "?n \<notin> {10, 13, 9, 12, 8}" "\<not> (32 \<le> ?n \<and> ?n < 127)" by auto
  then show ?thesis
  proof cases
    case 9
    then have "json_escape c = [CHR 0x5C, CHR ''u'', CHR ''0'', CHR ''0'', low_hex (?n div 16), low_hex (?n mod 16)]"
      by (auto simp: json_escape_def Let_def)
    then show ?thesis
      using code by (simp add: hex_value_low [OF digits(1)] hex_value_low [OF digits(2)] hex_value_zero split: option.split prod.split)
  qed (use controls in \<open>auto simp: json_escape_def Let_def simple_escape_def split: option.splits\<close>)
qed

lemma json_string_quote: "json_string (concat (map json_escape s) @ CHR 0x22 # r) = Some (s, r)"
  by (induction s) (simp_all add: json_string_escape del: json_string.simps(2), simp)

text \<open>What may follow a value inside another, or at the end.\<close>

definition delimited :: "string \<Rightarrow> bool" where
  "delimited r \<longleftrightarrow> r = [] \<or> hd r \<in> {CHR '','', CHR '']'', CHR ''}''}"

lemma delimited_simps [simp]: "delimited []" "delimited (CHR '','' # r)" "delimited (CHR '']'' # r)" "delimited (CHR ''}'' # r)"
  by (simp_all add: delimited_def)

lemma delimited_no_digit: "delimited r \<Longrightarrow> takeWhile is_digit r = [] \<and> dropWhile is_digit r = r"
  by (cases r) (auto simp: delimited_def is_digit_def)

lemma show_nat_head: "0 < n \<Longrightarrow> hd (show_nat n) \<noteq> CHR ''0''"
proof (induction n rule: show_nat.induct)
  case (1 n)
  show ?case
  proof (cases "n < 10")
    case True
    with "1.prems" show ?thesis by (auto simp: show_nat.simps [of n] dest!: arg_cong [where f = "of_char :: char \<Rightarrow> nat"])
  next
    case False
    with 1 show_nat_digits [of "n div 10"] show ?thesis by (simp add: show_nat.simps [of n])
  qed
qed

lemma show_nat_zero: "show_nat 0 = ''0''"
  by (simp add: show_nat.simps) code_simp

text \<open>The digits of a number: a leading zero stands alone.\<close>

lemma show_nat_shape:
  obtains c t where "show_nat n = c # t" "is_digit c" "list_all is_digit t" "c = CHR ''0'' \<longrightarrow> t = []" "c \<noteq> CHR ''-''"
proof -
  obtain c t where ct: "show_nat n = c # t" using show_nat_digits [of n] by (cases "show_nat n") auto
  then have "is_digit c" "list_all is_digit t" using show_nat_digits [of n] by simp_all
  moreover from this have "c \<noteq> CHR ''-''" by (auto simp: is_digit_def)
  moreover have "c = CHR ''0'' \<longrightarrow> t = []" using ct show_nat_head [of n] show_nat_zero by (cases "n = 0") auto
  ultimately show ?thesis using that ct by blast
qed

lemma json_number_digits:
  assumes "delimited r" and "is_digit c" and "list_all is_digit t" and "c = CHR ''0'' \<longrightarrow> t = []" and "c \<noteq> CHR ''-''"
  shows "json_number (c # t @ r) = Some (c # t, r)" and "json_number (CHR ''-'' # c # t @ r) = Some (CHR ''-'' # c # t, r)"
proof -
  have tail: "json_fraction r = ([], r)" "json_exponent r = ([], r)"
    using assms(1) by (cases r; auto simp: json_fraction_def json_exponent_def delimited_def)+
  have digits: "takeWhile is_digit (t @ r) = t"
    using delimited_no_digit [OF assms(1)] assms(3) by (simp add: takeWhile_append2 list_all_iff)
  show "json_number (c # t @ r) = Some (c # t, r)" "json_number (CHR ''-'' # c # t @ r) = Some (CHR ''-'' # c # t, r)"
    using assms(2,4,5) by (auto simp: json_number_def Let_def tail digits)
qed

lemma json_number_int: "delimited r \<Longrightarrow> json_number (show_int i @ r) = Some (show_int i, r)"
proof -
  assume r: "delimited r"
  obtain c t where "show_nat (nat \<bar>i\<bar>) = c # t" "is_digit c" "list_all is_digit t" "c = CHR ''0'' \<longrightarrow> t = []" "c \<noteq> CHR ''-''"
    by (rule show_nat_shape)
  with json_number_digits [OF r this(2-5)] show ?thesis by (cases "i < 0") (simp_all add: show_int_def)
qed

text \<open>The first character of what is written.\<close>

lemma dumps_head: "writable v \<Longrightarrow> \<exists>c t. json_dumps v = c # t \<and> \<not> json_ws c \<and> c \<noteq> CHR '']''"
proof (cases v)
  case (JNum s)
  assume "writable v"
  with JNum obtain i where s: "s = show_int i" by auto
  obtain c t where ct: "show_nat (nat \<bar>i\<bar>) = c # t" using show_nat_digits by (metis list.exhaust)
  have "is_digit c" using show_nat_digits [of "nat \<bar>i\<bar>"] ct by simp
  then have "\<not> json_ws c" "c \<noteq> CHR '']''" by (auto simp: json_ws_def is_digit_def)
  with JNum s ct show ?thesis by (cases "i < 0") (auto simp: show_int_def json_ws_def)
qed (auto simp: json_ws_def json_quote_def)

lemma skip_ws_dumps: "writable v \<Longrightarrow> skip_ws (json_dumps v @ r) = json_dumps v @ r"
  using dumps_head [of v] by (auto simp: skip_ws_def)

lemma skip_ws_simps [simp]:
  "skip_ws (CHR '','' # r) = CHR '','' # r" "skip_ws (CHR '']'' # r) = CHR '']'' # r" "skip_ws (CHR ''}'' # r) = CHR ''}'' # r"
  "skip_ws (CHR '':'' # r) = CHR '':'' # r" "skip_ws (CHR '' '' # r) = skip_ws r" "skip_ws (CHR 0x22 # r) = CHR 0x22 # r"
  by (simp_all add: skip_ws_def json_ws_def)

text \<open>\<open>rereads v\<close>: before any delimiter, some fuel reads \<open>v\<close> back.\<close>

definition rereads :: "json \<Rightarrow> bool" where
  "rereads v \<longleftrightarrow> (\<forall>r. delimited r \<longrightarrow> (\<exists>n. json_value n (json_dumps v @ r) = Some (reread v, r)))"

lemma rereadsE:
  assumes "rereads v" and "delimited r"
  obtains n where "json_value n (json_dumps v @ r) = Some (reread v, r)"
  using assms by (auto simp: rereads_def)

lemma dict_set_new: "k \<notin> set (map fst d) \<Longrightarrow> dict_set k v d = (k, v) # d"
  by (auto simp: dict_set_def filter_id_conv intro: rev_image_eqI)

lemma json_items_dumps:
  assumes "vs \<noteq> []" and "\<forall>v \<in> set vs. writable v \<and> rereads v"
  shows "\<exists>n. json_items n (join_with '', '' (map json_dumps vs) @ CHR '']'' # r) = Some (map reread vs, r)"
  using assms
proof (induction vs rule: induct_list012)
  case (2 v)
  then obtain n where "json_value n (json_dumps v @ CHR '']'' # r) = Some (reread v, CHR '']'' # r)"
    unfolding rereads_def by (metis delimited_simps(3) list.set_intros(1))
  then have "json_items (Suc n) (json_dumps v @ CHR '']'' # r) = Some ([reread v], r)" by simp
  then show ?case by (auto intro: exI [of _ "Suc n"])
next
  case (3 v w vs)
  let ?rest = "join_with '', '' (map json_dumps (w # vs)) @ CHR '']'' # r"
  from 3 obtain n where n: "json_items n ?rest = Some (map reread (w # vs), r)" by auto
  obtain m where m: "json_value m (json_dumps v @ '', '' @ ?rest) = Some (reread v, '', '' @ ?rest)"
    by (rule rereadsE [of v "'', '' @ ?rest"]) (use 3(4) in simp_all)
  have "skip_ws ?rest = ?rest" using 3(4) skip_ws_dumps [of w] by (cases vs) auto
  moreover from json_fuel(1) [OF m, of n] json_fuel(2) [OF n, of m]
  have "json_value (m + n) (json_dumps v @ '', '' @ ?rest) = Some (reread v, '', '' @ ?rest)"
    "json_items (m + n) ?rest = Some (map reread (w # vs), r)" by (simp_all add: add.commute)
  ultimately have "json_items (Suc (m + n)) (json_dumps v @ '', '' @ ?rest) = Some (map reread (v # w # vs), r)"
    by simp
  then show ?case by (auto intro: exI [of _ "Suc (m + n)"])
qed simp

definition json_member :: "string \<times> json \<Rightarrow> string" where
  "json_member m = json_quote (fst m) @ '': '' @ json_dumps (snd m)"

lemma json_members_dumps:
  assumes "ms \<noteq> []" and "\<forall>m \<in> set ms. writable (snd m) \<and> rereads (snd m)"
    and "distinct (map fst ms)" and "set (map fst ms) \<inter> set (map fst d) = {}"
  shows "\<exists>n. json_members n d (join_with '', '' (map json_member ms) @ CHR ''}'' # r)
    = Some (rev (map (\<lambda>m. (fst m, reread (snd m))) ms) @ d, r)"
  using assms
proof (induction ms arbitrary: d rule: induct_list012)
  case (2 m)
  then obtain n where "json_value n (json_dumps (snd m) @ CHR ''}'' # r) = Some (reread (snd m), CHR ''}'' # r)"
    unfolding rereads_def by (metis delimited_simps(4) list.set_intros(1))
  moreover have "dict_set (fst m) (reread (snd m)) d = (fst m, reread (snd m)) # d"
    using 2 by (intro dict_set_new) auto
  ultimately have "json_members (Suc n) d (json_member m @ CHR ''}'' # r) = Some ((fst m, reread (snd m)) # d, r)"
    using 2 skip_ws_dumps [of "snd m"] by (simp add: json_member_def json_quote_def json_string_quote)
  then show ?case by (auto intro: exI [of _ "Suc n"])
next
  case (3 m k ms)
  let ?rest = "join_with '', '' (map json_member (k # ms)) @ CHR ''}'' # r" and ?d = "(fst m, reread (snd m)) # d"
  have "set (map fst (k # ms)) \<inter> set (map fst ?d) = {}" "distinct (map fst (k # ms))" using 3(5,6) by auto
  then have "\<exists>n. json_members n ?d ?rest = Some (rev (map (\<lambda>m. (fst m, reread (snd m))) (k # ms)) @ ?d, r)"
    using 3(4) by (intro 3(2)) simp_all
  then obtain n where n: "json_members n ?d ?rest = Some (rev (map (\<lambda>m. (fst m, reread (snd m))) (k # ms)) @ ?d, r)" ..
  obtain q where q: "json_value q (json_dumps (snd m) @ '', '' @ ?rest) = Some (reread (snd m), '', '' @ ?rest)"
    by (rule rereadsE [of "snd m" "'', '' @ ?rest"]) (use 3(4) in simp_all)
  have "skip_ws ?rest = ?rest" by (cases ms) (simp_all add: json_member_def json_quote_def)
  moreover have "dict_set (fst m) (reread (snd m)) d = ?d" using 3(6) by (intro dict_set_new) auto
  moreover from json_fuel(1) [OF q, of n] json_fuel(3) [OF n, of q]
  have "json_value (q + n) (json_dumps (snd m) @ '', '' @ ?rest) = Some (reread (snd m), '', '' @ ?rest)"
    "json_members (q + n) ?d ?rest = Some (rev (map (\<lambda>m. (fst m, reread (snd m))) (k # ms)) @ ?d, r)"
    by (simp_all add: add.commute)
  ultimately have "json_members (Suc (q + n)) d (json_member m @ '', '' @ ?rest)
      = Some (rev (map (\<lambda>m. (fst m, reread (snd m))) (m # k # ms)) @ d, r)"
    using 3(4) skip_ws_dumps [of "snd m"] by (simp add: json_member_def json_quote_def json_string_quote)
  then show ?case by (auto intro: exI [of _ "Suc (q + n)"])
qed simp

text \<open>The start of a number is none of another value.\<close>

lemma show_int_shape:
  obtains c t where "show_int i = c # t" "c \<notin> {CHR 0x22, CHR ''['', CHR ''{'', CHR ''n'', CHR ''t'', CHR ''f'', CHR ''N'', CHR ''I''}"
    "c = CHR ''-'' \<longrightarrow> (\<exists>d u. t = d # u \<and> d \<noteq> CHR ''I'')"
proof -
  obtain c t where ct: "show_nat (nat \<bar>i\<bar>) = c # t" "is_digit c" by (rule show_nat_shape)
  have "c \<notin> {CHR 0x22, CHR ''['', CHR ''{'', CHR ''n'', CHR ''t'', CHR ''f'', CHR ''N'', CHR ''I'', CHR ''-''}"
    using ct(2) by (auto simp: is_digit_def)
  with ct(1) show ?thesis by (cases "i < 0") (auto simp: show_int_def intro: that)
qed

lemma json_word_int: "json_word json_words (show_int i @ r) = None"
proof -
  obtain c t where ct: "show_int i = c # t" "c \<notin> {CHR 0x22, CHR ''['', CHR ''{'', CHR ''n'', CHR ''t'', CHR ''f'', CHR ''N'', CHR ''I''}"
    "c = CHR ''-'' \<longrightarrow> (\<exists>d u. t = d # u \<and> d \<noteq> CHR ''I'')" by (rule show_int_shape)
  show ?thesis
  proof (cases "c = CHR ''-''")
    case True
    with ct(1,3) obtain d u where "show_int i = CHR ''-'' # d # u" "d \<noteq> CHR ''I''" by blast
    then show ?thesis by (simp add: json_words_def startswith_def)
  next
    case False
    then have "CHR ''n'' \<noteq> c" "CHR ''t'' \<noteq> c" "CHR ''f'' \<noteq> c" "CHR ''N'' \<noteq> c" "CHR ''I'' \<noteq> c" "CHR ''-'' \<noteq> c"
      using ct(2) by auto
    with ct(1) show ?thesis by (simp add: json_words_def startswith_def)
  qed
qed

lemma dumps_rereads: "writable v \<Longrightarrow> rereads v"
proof (induction v rule: json_dumps.induct)
  case (3 s)
  then obtain i where s: "s = show_int i" by auto
  obtain c t where ct: "show_int i = c # t" "c \<notin> {CHR 0x22, CHR ''['', CHR ''{''}" by (rule show_int_shape) auto
  have "json_value (Suc 0) (show_int i @ r) = Some (JNum (show_int i), r)" if "delimited r" for r
    using json_number_int [OF that, of i] json_word_int [of i r] ct by simp
  then show ?case unfolding rereads_def s json_dumps.simps reread.simps by blast
next
  case (5 vs)
  then have vs: "\<forall>v \<in> set vs. writable v \<and> rereads v" by (auto simp: list_all_iff)
  show ?case
  proof (cases vs)
    case Nil
    show ?thesis unfolding Nil rereads_def by (auto intro: exI [of _ "Suc 0"])
  next
    case (Cons w ws)
    show ?thesis
      unfolding rereads_def
    proof (intro allI impI)
      fix r :: string
      let ?text = "join_with '', '' (map json_dumps vs) @ CHR '']'' # r"
      obtain n where n: "json_items n ?text = Some (map reread vs, r)" using json_items_dumps [OF _ vs] Cons by blast
      have "skip_ws ?text = ?text" using vs skip_ws_dumps [of w] Cons by (cases ws) auto
      moreover obtain c t where "?text = c # t" "c \<noteq> CHR '']''" using vs dumps_head [of w] Cons by (cases ws) auto
      ultimately have "json_value (Suc n) (json_dumps (JArr vs) @ r) = Some (reread (JArr vs), r)" using n by simp
      then show "\<exists>n. json_value n (json_dumps (JArr vs) @ r) = Some (reread (JArr vs), r)" by blast
    qed
  qed
next
  case (6 ms)
  then have ms: "\<forall>m \<in> set ms. writable (snd m) \<and> rereads (snd m)" "distinct (map fst ms)" by (auto simp: list_all_iff)
  have written: "json_dumps (JObj ms) = ''{'' @ join_with '', '' (map json_member ms) @ ''}''"
  proof -
    have "json_member = (\<lambda>(k, v). json_quote k @ '': '' @ json_dumps v)" by (auto simp: json_member_def)
    then show ?thesis by simp
  qed
  show ?case
  proof (cases ms)
    case Nil
    show ?thesis unfolding Nil rereads_def by (auto intro: exI [of _ "Suc 0"])
  next
    case (Cons k ks)
    show ?thesis
      unfolding rereads_def
    proof (intro allI impI)
      fix r :: string
      let ?text = "join_with '', '' (map json_member ms) @ CHR ''}'' # r"
      obtain n where n: "json_members n [] ?text = Some (rev (map (\<lambda>m. (fst m, reread (snd m))) ms), r)"
        using json_members_dumps [OF _ ms(1,2), of "[]"] Cons by auto
      have "skip_ws ?text = ?text" using Cons by (cases ks) (simp_all add: json_member_def json_quote_def)
      moreover obtain t where "?text = CHR 0x22 # t" using Cons by (cases ks) (simp_all add: json_member_def json_quote_def)
      ultimately have "json_value (Suc n) (json_dumps (JObj ms) @ r) = Some (reread (JObj ms), r)"
        using n unfolding written by (simp add: case_prod_beta)
      then show "\<exists>n. json_value n (json_dumps (JObj ms) @ r) = Some (reread (JObj ms), r)" by blast
    qed
  qed
qed (auto simp: rereads_def json_quote_def json_string_quote json_words_def startswith_def after_def intro!: exI [of _ "Suc 0"])

lemma dumps_loads: "writable v \<Longrightarrow> json_loads (json_dumps v) = Some (reread v)"
proof -
  assume v: "writable v"
  from dumps_rereads [OF v] obtain n where "json_value n (json_dumps v @ []) = Some (reread v, [])"
    unfolding rereads_def using delimited_simps(1) by blast
  from json_fuel(1) [OF this, of "2 * length (json_dumps v) + 2"]
  have "json_value (2 * length (json_dumps v) + 2 + n) (json_dumps v) = Some (reread v, [])"
    by (simp add: add.commute add.left_commute)
  moreover have "skip_ws (json_dumps v) = json_dumps v" using skip_ws_dumps [OF v, of "[]"] by simp
  ultimately have "json_value (2 * length (json_dumps v) + 2) (skip_ws (json_dumps v)) = Some (reread v, [])"
    using json_loads_fuel [of "json_dumps v" n] by simp
  then show ?thesis by (simp add: json_loads_def skip_ws_def)
qed

end
