(* ===== verification/Yo_Broker.thy ===== *)
theory Yo_Broker
  imports Yo_Mint Yo_Json_Text Yo_Session
begin

text \<open>
  The HTTP side of \<open>aws-broker\<close>: how much of a request it reads, which reply a path gets, and the
  bounds on connections and on requests for credentials. \<open>Yo_Broker_Process\<close> has its start and end.
  What \<open>http.server\<close> makes of a request head is modelled as far as the handlers depend on it.
\<close>

definition MAX_CONCURRENT_REQUESTS :: nat where "MAX_CONCURRENT_REQUESTS = 32"
definition MAX_CONNECTIONS :: nat where "MAX_CONNECTIONS = 64"
definition MAX_CONTROL_CONNECTIONS :: nat where "MAX_CONTROL_CONNECTIONS = 8"
definition MAX_REQUEST_HEAD_BYTES :: nat where "MAX_REQUEST_HEAD_BYTES = 8192"
definition CREDENTIAL_PROCESS_VERSION :: int where "CREDENTIAL_PROCESS_VERSION = 1"
definition LOGGED_PATH_MAX :: nat where "LOGGED_PATH_MAX = 256"

definition clip :: "string \<Rightarrow> string" where
  "clip txt =
     (if length txt \<le> LOGGED_PATH_MAX then txt
      else take LOGGED_PATH_MAX txt @ ''...('' @ show_nat (length txt - LOGGED_PATH_MAX) @ '' more)'')"

subsection \<open>The head of a request\<close>

text \<open>What is still to come on the connection, and how much of it may be handed out.\<close>

record capped =
  incoming :: string
  remaining :: int

definition first_line :: "string \<Rightarrow> string" where
  "first_line s = takeWhile (\<lambda>c. c \<noteq> CHR 0x0A) s @ (if CHR 0x0A \<in> set s then [CHR 0x0A] else [])"

text \<open>\<open>CappedReader.readline\<close>\<close>

definition capped_readline :: "int \<Rightarrow> (capped, fault, string) eff" where
  "capped_readline wanted r =
     (let n = (if wanted < 0 \<or> wanted > remaining r + 1 then remaining r + 1 else wanted);
          line = take (nat n) (first_line (incoming r));
          s = \<lparr>incoming = drop (length line) (incoming r), remaining = remaining r - int (length line)\<rparr>
      in if remaining s < 0 then (Inl Head_Too_Large, s) else (Inr line, s))"

text \<open>
  The headers of \<open>http.client\<close>: lines up to an empty one or the end, none when one is longer than
  64 KiB or there are more than a hundred.
\<close>

definition blank_line :: "string \<Rightarrow> bool" where
  "blank_line l \<longleftrightarrow> l \<in> {[CHR 0x0D, CHR 0x0A], [CHR 0x0A], []}"

fun read_headers :: "nat \<Rightarrow> (capped, fault, string list option) eff" where
  "read_headers n =
     bnd (capped_readline 65537) (\<lambda>line.
     if length line > 65536 \<or> n = 0 then ret None
     else if blank_line line then ret (Some [line])
     else bnd (read_headers (n - 1)) (\<lambda>more. ret (map_option (\<lambda>ls. line # ls) more)))"

declare read_headers.simps [simp del]

text \<open>
  \<open>BaseHTTPRequestHandler.parse_request\<close> on a request line: nothing is answered to a blank one,
  the library answers a bad one with a status of its own, else there is a method and a path.
\<close>

datatype asked = Hung_Up | Refused nat | Asks string string

definition version_of :: "string \<Rightarrow> nat option" where
  "version_of v =
     (let parts = split_on CHR ''.'' (after ''HTTP/'' v) in
      if startswith v ''HTTP/'' \<and> length parts = 2
         \<and> list_all (\<lambda>p. p \<noteq> [] \<and> list_all is_digit p \<and> length p \<le> 10) parts
      then Some (decimal (hd parts)) else None)"

definition request_line :: "string \<Rightarrow> asked" where
  "request_line line =
     (let ws = split_words (rstrip_by (\<lambda>c. c = CHR 0x0D \<or> c = CHR 0x0A) line) in
      if ws = [] then Hung_Up
      else if 3 \<le> length ws \<and> version_of (last ws) = None then Refused 400
      else if 3 \<le> length ws \<and> 2 \<le> the (version_of (last ws)) then Refused 505
      else if length ws < 2 \<or> 3 < length ws then Refused 400
      else if length ws = 2 \<and> hd ws \<noteq> ''GET'' then Refused 400
      else
        (let path = ws ! 1 in
         Asks (hd ws) (if startswith path ''//'' then CHR ''/'' # lstrip_by (\<lambda>c. c = CHR ''/'') path else path)))"

text \<open>\<open>handle_one_request\<close> up to its call of the method: only \<open>do_GET\<close> exists.\<close>

definition read_request :: "(capped, fault, asked) eff" where
  "read_request =
     bnd (capped_readline 65537) (\<lambda>line.
     if line = [] then ret Hung_Up
     else if length line > 65536 then ret (Refused 414)
     else
       (case request_line line of
          Asks verb path \<Rightarrow>
            bnd (read_headers 100) (\<lambda>headers.
            ret (if headers = None then Refused 431 else if verb \<noteq> ''GET'' then Refused 501 else Asks verb path))
        | a \<Rightarrow> ret a))"

text \<open>\<open>setup\<close>: what a connection's handler gets to read of what a client sends.\<close>

definition received :: "string \<Rightarrow> (fault + asked) \<times> capped" where
  "received s = read_request \<lparr>incoming = s, remaining = int MAX_REQUEST_HEAD_BYTES\<rparr>"

subsection \<open>Replies\<close>

record reply =
  status :: nat
  content_type :: string
  body :: string

definition json_reply :: "nat \<Rightarrow> json \<Rightarrow> reply" where
  "json_reply code payload = \<lparr>status = code, content_type = ''application/json'', body = json_dumps payload\<rparr>"

definition text_reply :: "nat \<Rightarrow> string \<Rightarrow> reply" where
  "text_reply code txt = \<lparr>status = code, content_type = ''text/plain'', body = txt\<rparr>"

text \<open>\<open>_send\<close>: the headers of the broker's own, and the body's bytes.\<close>

definition sent :: "reply \<Rightarrow> nat \<times> (string \<times> string) list \<times> string" where
  "sent r =
     (status r, [(''Content-Type'', content_type r), (''Content-Length'', show_nat (length (utf8 (body r))))], utf8 (body r))"

definition mint_failed_body :: "string \<Rightarrow> string" where
  "mint_failed_body profile =
     ''mint failed: run `aws sso login --profile '' @ profile @ ''` on the Mac; the detail is in broker.log'' @ NL"

definition BUSY_BODY :: string where "BUSY_BODY = ''broker busy; retry'' @ NL"
definition REQUEST_FAILED_BODY :: string where "REQUEST_FAILED_BODY = ''request failed; the detail is in broker.log'' @ NL"
definition CREDS_PATH_PREFIX :: string where "CREDS_PATH_PREFIX = ''/creds/''"

definition creds_profile :: "string \<Rightarrow> string option" where
  "creds_profile path = (if startswith path CREDS_PATH_PREFIX then Some (after CREDS_PATH_PREFIX path) else None)"

text \<open>
  What the threads of a broker share: its two pids, a \<open>State\<close> for each profile of \<open>--allow\<close>, the
  free places of the two semaphores of the guest socket, and the history.
\<close>

record broker =
  own_pid :: int
  watch_pid :: int
  states :: "(string \<times> profile_state) list"
  free_slots :: nat
  free_connections :: nat
  saturated :: bool
  past :: history

type_synonym 'a serving = "(broker, fault, 'a) eff"

definition serve_log :: "string \<Rightarrow> string list \<Rightarrow> unit serving" where
  "serve_log what args = modifies (\<lambda>b. b\<lparr>past := past b @ [log_event what args]\<rparr>)"

definition health_json :: "broker \<Rightarrow> json" where
  "health_json b =
     JObj [(''pid'', JNum (show_int (own_pid b))), (''watch_pid'', JNum (show_int (watch_pid b))),
           (''allow'', JArr (map JStr (sorted_names (map fst (states b)))))]"

text \<open>\<open>HealthHandler._route\<close>\<close>

definition health_route :: "string \<Rightarrow> reply serving" where
  "health_route path =
     reads (\<lambda>b. if path = ''/health'' then json_reply 200 (health_json b) else text_reply 404 [])"

definition creds_json :: "creds \<Rightarrow> json" where
  "creds_json c =
     JObj [(''Version'', JNum (show_int CREDENTIAL_PROCESS_VERSION)), (''AccessKeyId'', JStr (access_key_id c)),
           (''SecretAccessKey'', JStr (secret_access_key c)), (''SessionToken'', JStr (session_token c)),
           (''Expiration'', JStr (expiration c))]"

text \<open>A method of a profile's \<open>State\<close>, run on the shared one.\<close>

definition on_profile :: "string \<Rightarrow> profile_state \<Rightarrow> 'a minting \<Rightarrow> 'a serving" where
  "on_profile profile c m =
     (\<lambda>b. case m \<lparr>cell = c, seen = past b\<rparr> of
            (r, t) \<Rightarrow> (r, b\<lparr>states := AList.update profile (cell t) (states b), past := seen t\<rparr>))"

definition forbidden_body :: "string \<Rightarrow> string list \<Rightarrow> string" where
  "forbidden_body profile names =
     ''profile '' @ [CHR 0x27] @ profile @ [CHR 0x27] @ '' is not allowlisted; allowed: '' @
     (let allowed = join_with '', '' (sorted_names names) in if allowed = [] then ''(none)'' else allowed) @ NL"

definition last_error_texts :: "profile_state option \<Rightarrow> string list" where
  "last_error_texts c =
     (case c of
        None \<Rightarrow> [''none available'']
      | Some p \<Rightarrow> (case last_mint_error p of None \<Rightarrow> [''none available''] | Some err \<Rightarrow> fst err # snd err))"

text \<open>\<open>GuestHandler._creds_route\<close>, with what became of the wait for the profile's lock.\<close>

definition creds_route :: "aws_world \<Rightarrow> string \<Rightarrow> bool \<Rightarrow> reply serving" where
  "creds_route W profile acquired =
     bnd (reads states) (\<lambda>ss.
     case map_of ss profile of
       None \<Rightarrow> ret (text_reply 403 (forbidden_body profile (map fst ss)))
     | Some c \<Rightarrow>
         catch
           (bnd (on_profile profile c (state_get W profile acquired)) (\<lambda>got.
            case got of
              None \<Rightarrow>
                bnd (reads (\<lambda>b. last_error_texts (map_of (states b) profile))) (\<lambda>why.
                sq (serve_log ''no credentials'' (profile # why))
                   (ret (text_reply 500 (mint_failed_body profile))))
            | Some held \<Rightarrow> ret (json_reply 200 (creds_json held))))
           (\<lambda>f. if f = Profile_Busy
                then sq (serve_log ''another request holds the profile lock; replying 503'' [profile])
                        (ret (text_reply 503 BUSY_BODY))
                else raise f))"

text \<open>\<open>_guarded\<close>: an exception of a route becomes a 500.\<close>

definition guarded :: "string \<Rightarrow> reply serving \<Rightarrow> string \<Rightarrow> reply serving" where
  "guarded path route failure_body =
     catch route (\<lambda>f. sq (serve_log ''request failed'' [clip path]) (ret (text_reply 500 failure_body)))"

definition creds_failure_body :: "string \<Rightarrow> string" where
  "creds_failure_body profile = (if profile \<noteq> [] then mint_failed_body profile else REQUEST_FAILED_BODY)"

definition health_get :: "string \<Rightarrow> reply serving" where
  "health_get path = guarded path (health_route path) REQUEST_FAILED_BODY"

definition guest_get :: "aws_world \<Rightarrow> string \<Rightarrow> bool \<Rightarrow> reply serving" where
  "guest_get W path acquired =
     (case creds_profile path of
        None \<Rightarrow> health_get path
      | Some profile \<Rightarrow>
          bnd (reads free_slots) (\<lambda>free.
          if free > 0
          then sq (modifies (\<lambda>b. b\<lparr>free_slots := free_slots b - 1\<rparr>))
                  (finally_do (guarded path (creds_route W profile acquired) (creds_failure_body profile))
                              (\<lambda>b. b\<lparr>free_slots := free_slots b + 1\<rparr>))
          else sq (serve_log ''too many concurrent requests; replying 503'' [])
                  (ret (text_reply 503 BUSY_BODY))))"

subsection \<open>Connections\<close>

text \<open>
  \<open>process_request\<close>, run by the accept loop: whether a thread took the connection over. \<open>starts\<close>
  says whether a thread could be started; when not, the place is given back.
\<close>

definition process_request :: "bool \<Rightarrow> broker \<Rightarrow> bool \<times> broker" where
  "process_request starts b =
     (if free_connections b = 0
      then (False, if saturated b then b
                   else b\<lparr>saturated := True,
                          past := past b @ [log_event ''too many open connections; closing new ones until some finish'' []]\<rparr>)
      else if starts then (True, b\<lparr>free_connections := free_connections b - 1, saturated := False\<rparr>)
      else (False, b\<lparr>saturated := False, past := past b @ [log_event ''request failed'' []]\<rparr>))"

text \<open>The end of \<open>process_request_thread\<close>, however the handler ended.\<close>

definition connection_over :: "broker \<Rightarrow> broker" where
  "connection_over b = b\<lparr>free_connections := free_connections b + 1\<rparr>"

text \<open>
  \<open>handle\<close>'s deadline. \<open>_deadline_passed\<close> and the handler's end run under one lock, so the timer
  closes only a connection whose handler is still at work; \<open>failure\<close> is why the shutdown fails.
\<close>

record deadline =
  finished :: bool
  out_of_time :: bool
  shut :: bool

definition deadline_passed :: "string option \<Rightarrow> deadline \<Rightarrow> event list \<times> deadline" where
  "deadline_passed failure d =
     (if finished d then ([], d)
      else (log_event ''request deadline passed; closing the connection'' [] #
              (case failure of None \<Rightarrow> [] | Some reason \<Rightarrow> [log_event ''closing the connection failed'' [reason]]),
            d\<lparr>out_of_time := True, shut := (failure = None)\<rparr>))"

definition handler_done :: "deadline \<Rightarrow> deadline" where
  "handler_done d = d\<lparr>finished := True\<rparr>"

text \<open>What \<open>handle\<close> makes of the exception its base class ended with: none passes unless it is unexpected.\<close>

definition handle_end :: "deadline \<Rightarrow> fault option \<Rightarrow> event list \<times> fault option" where
  "handle_end d raised =
     (case raised of
        Some Head_Too_Large \<Rightarrow> ([log_event ''request head over its limit; closing'' [show_nat MAX_REQUEST_HEAD_BYTES]], None)
      | Some (Os_Fault reason) \<Rightarrow> ([], if out_of_time d then None else Some (Os_Fault reason))
      | _ \<Rightarrow> ([], raised))"

definition start_states :: "rat \<Rightarrow> string list \<Rightarrow> (string \<times> profile_state) list" where
  "start_states interval allow = map (\<lambda>p. (p, new_state interval)) (fromkeys allow)"

definition start_broker :: "int \<Rightarrow> int \<Rightarrow> rat \<Rightarrow> string list \<Rightarrow> broker" where
  "start_broker pid watched interval allow =
     \<lparr>own_pid = pid, watch_pid = watched, states = start_states interval allow,
      free_slots = MAX_CONCURRENT_REQUESTS, free_connections = MAX_CONNECTIONS, saturated = False, past = []\<rparr>"

subsection \<open>The cap is exact\<close>

text \<open>
  \<open>transparent m\<close>: against a reader that may hand out everything, a capped one differs only when the
  part read is longer than the cap, and then it refuses.
\<close>

definition used :: "string \<Rightarrow> capped \<Rightarrow> int" where
  "used s t = int (length s) - int (length (incoming t))"

definition transparent :: "(capped, fault, 'a) eff \<Rightarrow> bool" where
  "transparent m \<longleftrightarrow> (\<forall>s full cap. int (length s) \<le> full \<longrightarrow> 0 \<le> cap \<longrightarrow>
     (\<exists>x t. m \<lparr>incoming = s, remaining = full\<rparr> = (Inr x, t) \<and> 0 \<le> used s t \<and> remaining t = full - used s t
        \<and> (if used s t \<le> cap
           then m \<lparr>incoming = s, remaining = cap\<rparr> = (Inr x, \<lparr>incoming = incoming t, remaining = cap - used s t\<rparr>)
           else fst (m \<lparr>incoming = s, remaining = cap\<rparr>) = Inl Head_Too_Large)))"

lemma transparent_ret: "transparent (ret x)"
  by (simp add: transparent_def ret_def used_def)

lemma first_line_length: "length (first_line s) \<le> length s"
proof (cases "CHR 0x0A \<in> set s")
  case True
  then have "dropWhile (\<lambda>c. c \<noteq> CHR 0x0A) s \<noteq> []" by auto
  then have "0 < length (dropWhile (\<lambda>c. c \<noteq> CHR 0x0A) s)" by simp
  moreover have "length s = length (takeWhile (\<lambda>c. c \<noteq> CHR 0x0A) s) + length (dropWhile (\<lambda>c. c \<noteq> CHR 0x0A) s)"
    by (metis length_append takeWhile_dropWhile_id)
  ultimately have "Suc (length (takeWhile (\<lambda>c. c \<noteq> CHR 0x0A) s)) \<le> length s" by linarith
  with True show ?thesis by (simp add: first_line_def)
qed (simp add: first_line_def length_takeWhile_le)

lemma transparent_readline: "0 < w \<Longrightarrow> transparent (capped_readline w)"
  unfolding transparent_def
proof (intro allI impI)
  fix s :: string and full cap :: int
  assume w: "0 < w" and full: "int (length s) \<le> full" and cap: "0 \<le> cap"
  let ?line = "take (nat w) (first_line s)"
  let ?t = "\<lparr>incoming = drop (length ?line) s, remaining = full - int (length ?line)\<rparr>"
  have short: "length ?line \<le> length s" using first_line_length [of s] by simp
  have whole: "take (nat (if w < 0 \<or> w > full + 1 then full + 1 else w)) (first_line s) = ?line"
    using w full first_line_length [of s] by auto
  have "capped_readline w \<lparr>incoming = s, remaining = full\<rparr> = (Inr ?line, ?t)"
    unfolding capped_readline_def Let_def capped.simps whole using short full by simp
  moreover have used: "used s ?t = int (length ?line)" using short by (simp add: used_def)
  moreover have "if int (length ?line) \<le> cap
      then capped_readline w \<lparr>incoming = s, remaining = cap\<rparr> = (Inr ?line, \<lparr>incoming = incoming ?t, remaining = cap - int (length ?line)\<rparr>)
      else fst (capped_readline w \<lparr>incoming = s, remaining = cap\<rparr>) = Inl Head_Too_Large"
  proof (cases "int (length ?line) \<le> cap")
    case True
    then have "take (nat (if w < 0 \<or> w > cap + 1 then cap + 1 else w)) (first_line s) = ?line"
      using w cap by (auto simp: min_def split: if_splits)
    then show ?thesis
      using True unfolding capped_readline_def Let_def capped.simps by (simp only: if_True) simp
  next
    case False
    then have "cap < int (length (take (nat (if w < 0 \<or> w > cap + 1 then cap + 1 else w)) (first_line s)))"
      using w cap by (auto simp: min_def split: if_splits)
    then have over: "cap - int (length (take (nat (if w < 0 \<or> w > cap + 1 then cap + 1 else w)) (first_line s))) < 0" by linarith
    show ?thesis
      unfolding capped_readline_def Let_def capped.simps by (simp only: over False if_True if_False fst_conv)
  qed
  ultimately show "\<exists>x t. capped_readline w \<lparr>incoming = s, remaining = full\<rparr> = (Inr x, t) \<and> 0 \<le> used s t \<and> remaining t = full - used s t
      \<and> (if used s t \<le> cap
         then capped_readline w \<lparr>incoming = s, remaining = cap\<rparr> = (Inr x, \<lparr>incoming = incoming t, remaining = cap - used s t\<rparr>)
         else fst (capped_readline w \<lparr>incoming = s, remaining = cap\<rparr>) = Inl Head_Too_Large)"
    by (intro exI [of _ ?line] exI [of _ ?t]) simp
qed

lemma transparent_bnd:
  assumes "transparent m" and "\<And>x. transparent (f x)"
  shows "transparent (bnd m f)"
  unfolding transparent_def
proof (intro allI impI)
  fix s :: string and full cap :: int
  assume full: "int (length s) \<le> full" and cap: "0 \<le> cap"
  from assms(1) full cap obtain x t where t: "m \<lparr>incoming = s, remaining = full\<rparr> = (Inr x, t)" "0 \<le> used s t"
    "remaining t = full - used s t" "if used s t \<le> cap
       then m \<lparr>incoming = s, remaining = cap\<rparr> = (Inr x, \<lparr>incoming = incoming t, remaining = cap - used s t\<rparr>)
       else fst (m \<lparr>incoming = s, remaining = cap\<rparr>) = Inl Head_Too_Large"
    unfolding transparent_def by meson
  have "int (length (incoming t)) \<le> remaining t" using t(3) full by (simp add: used_def)
  moreover define k where "k = max 0 (cap - used s t)"
  ultimately obtain y u where u: "f x \<lparr>incoming = incoming t, remaining = remaining t\<rparr> = (Inr y, u)"
      "0 \<le> used (incoming t) u" "remaining u = remaining t - used (incoming t) u"
    and capped: "if used (incoming t) u \<le> k
       then f x \<lparr>incoming = incoming t, remaining = k\<rparr> = (Inr y, \<lparr>incoming = incoming u, remaining = k - used (incoming t) u\<rparr>)
       else fst (f x \<lparr>incoming = incoming t, remaining = k\<rparr>) = Inl Head_Too_Large"
    using assms(2) [unfolded transparent_def, rule_format, of "incoming t" "remaining t" k x] by (metis max.cobounded1)
  have sum: "used s u = used s t + used (incoming t) u" by (simp add: used_def)
  have "f x t = (Inr y, u)" using u(1) by (cases t) simp
  then have "bnd m f \<lparr>incoming = s, remaining = full\<rparr> = (Inr y, u)" using t(1) by (simp add: bnd_def)
  moreover have "if used s u \<le> cap
      then bnd m f \<lparr>incoming = s, remaining = cap\<rparr> = (Inr y, \<lparr>incoming = incoming u, remaining = cap - used s u\<rparr>)
      else fst (bnd m f \<lparr>incoming = s, remaining = cap\<rparr>) = Inl Head_Too_Large"
  proof (cases "used s t \<le> cap")
    case True
    with t(4) have "bnd m f \<lparr>incoming = s, remaining = cap\<rparr> = f x \<lparr>incoming = incoming t, remaining = cap - used s t\<rparr>"
      by (simp add: bnd_def)
    moreover have "k = cap - used s t" using True by (simp add: k_def)
    ultimately show ?thesis using capped sum by (auto split: if_splits)
  next
    case False
    with t(4) have "fst (bnd m f \<lparr>incoming = s, remaining = cap\<rparr>) = Inl Head_Too_Large"
      by (auto simp: bnd_def split: prod.splits)
    with False u(2) sum show ?thesis by simp
  qed
  ultimately show "\<exists>x t. bnd m f \<lparr>incoming = s, remaining = full\<rparr> = (Inr x, t) \<and> 0 \<le> used s t \<and> remaining t = full - used s t
      \<and> (if used s t \<le> cap
         then bnd m f \<lparr>incoming = s, remaining = cap\<rparr> = (Inr x, \<lparr>incoming = incoming t, remaining = cap - used s t\<rparr>)
         else fst (bnd m f \<lparr>incoming = s, remaining = cap\<rparr>) = Inl Head_Too_Large)"
    using t(2,3) u(2,3) sum by (intro exI [of _ y] exI [of _ u]) simp
qed

lemma transparent_headers: "transparent (read_headers n)"
proof (induction n)
  case 0
  show ?case
    unfolding read_headers.simps [of 0] by (intro transparent_bnd transparent_readline) (auto intro: transparent_ret)
next
  case (Suc n)
  then show ?case
    unfolding read_headers.simps [of "Suc n"]
    by (intro transparent_bnd transparent_readline) (auto intro!: transparent_ret transparent_bnd)
qed

lemma transparent_request: "transparent read_request"
  unfolding read_request_def
  by (intro transparent_bnd transparent_readline)
     (auto intro!: transparent_ret transparent_bnd transparent_headers split: asked.split)

subsection \<open>Requests side by side\<close>

text \<open>
  The threads of the guest socket, one for each open connection: still reading its request; holding
  a place among the \<open>/creds/\<close> requests, first to wait for its profile's lock and then with it; or with
  its reply. A step lets one thread, or the accept loop, go on. Reading may end without a reply, and
  a wait for the lock ends with it or, while another thread has it, with the time that is allowed.
\<close>

datatype phase = Reading | Slotted string string | Minting string string | Replied string reply

type_synonym serving_system = "broker \<times> phase list"

definition give_slot :: "broker \<Rightarrow> broker" where
  "give_slot b = b\<lparr>free_slots := free_slots b + 1\<rparr>"

inductive serve_step :: "aws_world \<Rightarrow> serving_system \<Rightarrow> serving_system \<Rightarrow> bool" for W where
  connect: "process_request starts b = (taken, b') \<Longrightarrow>
    serve_step W (b, ts) (b', if taken then ts @ [Reading] else ts)"
| ask_health: "creds_profile path = None \<Longrightarrow> health_get path b = (Inr r, b') \<Longrightarrow>
    serve_step W (b, xs @ Reading # ys) (b', xs @ Replied path r # ys)"
| turn_away: "creds_profile path = Some p \<Longrightarrow> free_slots b = 0 \<Longrightarrow> guest_get W path acquired b = (Inr r, b') \<Longrightarrow>
    serve_step W (b, xs @ Reading # ys) (b', xs @ Replied path r # ys)"
| take_slot: "creds_profile path = Some p \<Longrightarrow> 0 < free_slots b \<Longrightarrow>
    serve_step W (b, xs @ Reading # ys) (b\<lparr>free_slots := free_slots b - 1\<rparr>, xs @ Slotted path p # ys)"
| take_lock: "p \<in> set (map fst (states b)) \<Longrightarrow> \<forall>q. Minting q p \<notin> set (xs @ ys) \<Longrightarrow>
    serve_step W (b, xs @ Slotted path p # ys) (b, xs @ Minting path p # ys)"
| no_lock: "p \<notin> set (map fst (states b)) \<or> (\<exists>q. Minting q p \<in> set (xs @ ys)) \<Longrightarrow>
    guarded path (creds_route W p False) (creds_failure_body p) b = (Inr r, b') \<Longrightarrow>
    serve_step W (b, xs @ Slotted path p # ys) (give_slot b', xs @ Replied path r # ys)"
| mint: "guarded path (creds_route W p True) (creds_failure_body p) b = (Inr r, b') \<Longrightarrow>
    serve_step W (b, xs @ Minting path p # ys) (give_slot b', xs @ Replied path r # ys)"
| hang_up: "serve_step W (b, xs @ Reading # ys) (connection_over b, xs @ ys)"
| close: "serve_step W (b, xs @ Replied path r # ys) (connection_over b, xs @ ys)"

inductive serves :: "aws_world \<Rightarrow> broker \<Rightarrow> serving_system \<Rightarrow> bool" for W b\<^sub>0 where
  opens: "serves W b\<^sub>0 (b\<^sub>0, [])"
| goes_on: "serves W b\<^sub>0 s \<Longrightarrow> serve_step W s t \<Longrightarrow> serves W b\<^sub>0 t"

inductive_cases serve_stepE: "serve_step W s t"

subsection \<open>What a request leaves of the shared state\<close>

lemma update_keys: "k \<in> set (map fst al) \<Longrightarrow> map fst (AList.update k v al) = map fst al"
  by (induction al) auto

lemma set_update: "set (AList.update k v al) \<subseteq> insert (k, v) (set al)"
  by (induction al) auto

text \<open>
  \<open>same_shape\<close>: between two states of a broker, all but the cells and the history is the same, and the
  history has grown.
\<close>

definition same_shape :: "broker \<Rightarrow> broker \<Rightarrow> bool" where
  "same_shape b c \<longleftrightarrow> own_pid c = own_pid b \<and> watch_pid c = watch_pid b \<and> map fst (states c) = map fst (states b)
     \<and> free_slots c = free_slots b \<and> free_connections c = free_connections b \<and> prefix (past b) (past c)"

definition cells_ok :: "broker \<Rightarrow> bool" where
  "cells_ok b \<longleftrightarrow> (\<forall>(p, c) \<in> set (states b). cell_ok c)"

lemma same_shape_refl [simp]: "same_shape b b"
  by (simp add: same_shape_def)

lemma same_shape_trans: "same_shape a b \<Longrightarrow> same_shape b c \<Longrightarrow> same_shape a c"
  by (auto simp: same_shape_def intro: prefix_order.trans)

lemma same_shape_log: "same_shape b (b\<lparr>past := past b @ es\<rparr>)"
  by (simp add: same_shape_def)

lemma get_grows: "get_locked W profile s = (r, t) \<Longrightarrow> cell_ok (cell s) \<Longrightarrow> prefix (seen s) (seen t)"
proof (cases r)
  case (Inl f)
  assume "get_locked W profile s = (r, t)" "cell_ok (cell s)"
  moreover obtain es where "seen (looked s) = seen s @ es" using looked_extends by blast
  ultimately show ?thesis using Inl get_raises [of s W profile f t] get_fault [of s W profile f] by auto
next
  case (Inr x)
  assume run: "get_locked W profile s = (r, t)" and ok: "cell_ok (cell s)"
  with Inr obtain u where u: "cell_ok (cell u)" "use_cache W u = (Inr x, t)" "prefix (seen s) (seen u)"
    by (blast elim: get_ends_with_use)
  from use_extends [OF u(1,2)] obtain es where "seen t = seen u @ es" by blast
  with u(3) show ?thesis by (simp add: prefix_order.trans)
qed

text \<open>What \<open>State.get\<close> does to the shared state, and what it returns.\<close>

lemma on_profile_get:
  assumes "cells_ok b" and "map_of (states b) profile = Some c"
    and "on_profile profile c (state_get W profile acquired) b = (r, b')"
  shows "same_shape b b' \<and> cells_ok b'
    \<and> (\<forall>held. r = Inr (Some held) \<longrightarrow> acquired \<and> servable held \<and> (\<exists>h. prefix h (past b') \<and> utc_clock W h < expires_at held))"
proof -
  from assms(1,2) have ok: "cell_ok c" by (auto simp: cells_ok_def dest: map_of_SomeD)
  have key: "profile \<in> set (map fst (states b))"
    using map_of_SomeD [OF assms(2)] by force
  let ?s = "\<lparr>cell = c, seen = past b\<rparr>"
  obtain t where run: "state_get W profile acquired ?s = (r, t)"
    and b': "b' = b\<lparr>states := AList.update profile (cell t) (states b), past := seen t\<rparr>"
    using assms(3) by (auto simp: on_profile_def split: prod.splits)
  have t: "cell_ok (cell t)" "prefix (past b) (seen t)"
  proof -
    show "cell_ok (cell t)"
      using run ok keepsD [OF keeps_get, of ?s W profile r t]
      by (cases acquired) (auto simp: state_get_def raise_def)
    show "prefix (past b) (seen t)"
      using run ok get_grows [of W profile ?s r t] by (cases acquired) (auto simp: state_get_def raise_def)
  qed
  have "same_shape b b'" using t(2) update_keys [OF key] by (simp add: b' same_shape_def)
  moreover have "cells_ok b'"
    using assms(1) t(1) set_update [of profile "cell t" "states b"] by (fastforce simp: b' cells_ok_def)
  moreover have "acquired \<and> servable held \<and> (\<exists>h. prefix h (past b') \<and> utc_clock W h < expires_at held)"
    if "r = Inr (Some held)" for held
  proof -
    from run that have acquired by (auto simp: state_get_def raise_def split: if_splits)
    with run that have "get_locked W profile ?s = (Inr (Some held), t)" by (simp add: state_get_def)
    with get_returns_fresh [of ?s W profile held t] ok \<open>acquired\<close> show ?thesis by (auto simp: b' prefix_def)
  qed
  ultimately show ?thesis by blast
qed

text \<open>
  A reply to a request for credentials: with status 200 it is the JSON of credentials fit to serve,
  that had not lapsed by a reading of the clock, to a thread that had the lock of an allowed profile.
\<close>

definition good_creds_reply :: "aws_world \<Rightarrow> broker \<Rightarrow> string \<Rightarrow> reply \<Rightarrow> bool" where
  "good_creds_reply W b profile r \<longleftrightarrow> status r = 200 \<longrightarrow> profile \<in> set (map fst (states b))
     \<and> (\<exists>held h. servable held \<and> r = json_reply 200 (creds_json held) \<and> prefix h (past b) \<and> utc_clock W h < expires_at held)"

lemma serve_log_run: "serve_log w a b = (Inr (), b\<lparr>past := past b @ [log_event w a]\<rparr>)"
  by (simp add: serve_log_def modifies_def)

lemma cells_ok_past [simp]: "cells_ok (b\<lparr>past := h\<rparr>) = cells_ok b"
  by (simp add: cells_ok_def)

lemma creds_route_run:
  assumes "cells_ok b" and "creds_route W profile acquired b = (q, b')"
  shows "same_shape b b' \<and> cells_ok b' \<and> (\<forall>r. q = Inr r \<longrightarrow> good_creds_reply W b' profile r)"
proof (cases "map_of (states b) profile")
  case None
  with assms show ?thesis
    by (auto simp: creds_route_def bnd_def reads_def ret_def good_creds_reply_def text_reply_def)
next
  case (Some c)
  obtain r u where u: "on_profile profile c (state_get W profile acquired) b = (r, u)" by fastforce
  note got = on_profile_get [OF assms(1) Some u]
  have key: "profile \<in> set (map fst (states u))"
    using map_of_SomeD [OF Some] got by (force simp: same_shape_def)
  show ?thesis
  proof (cases r)
    case (Inl f)
    with assms(2) Some u got same_shape_log [of u] show ?thesis
      by (auto simp: creds_route_def bnd_def reads_def catch_def serve_log_run ret_def raise_def good_creds_reply_def
          text_reply_def split: if_splits intro: same_shape_trans)
  next
    case (Inr x)
    show ?thesis
    proof (cases x)
      case None
      with Inr assms(2) Some u got same_shape_log [of u] show ?thesis
        by (auto simp: creds_route_def bnd_def reads_def catch_def serve_log_run ret_def good_creds_reply_def
            text_reply_def intro: same_shape_trans)
    next
      case (Some held)
      with Inr assms(2) \<open>map_of (states b) profile = Some c\<close> u have "q = Inr (json_reply 200 (creds_json held))" "b' = u"
        by (simp_all add: creds_route_def bnd_def reads_def catch_def ret_def)
      with Some Inr got key show ?thesis by (auto simp: good_creds_reply_def)
    qed
  qed
qed

lemma good_creds_later:
  "good_creds_reply W b profile r \<Longrightarrow> same_shape b c \<Longrightarrow> good_creds_reply W c profile r"
  unfolding good_creds_reply_def same_shape_def by (metis prefix_order.trans)

lemma guarded_creds_run:
  assumes "cells_ok b" and "guarded path (creds_route W profile acquired) fb b = (q, b')"
  shows "same_shape b b' \<and> cells_ok b' \<and> (\<exists>r. q = Inr r \<and> good_creds_reply W b' profile r)"
proof -
  obtain p u where u: "creds_route W profile acquired b = (p, u)" by fastforce
  from creds_route_run [OF assms(1) u] assms(2) u same_shape_log [of u] show ?thesis
    by (cases p) (auto simp: guarded_def catch_def bnd_def serve_log_run ret_def good_creds_reply_def text_reply_def
        intro: same_shape_trans)
qed

lemma health_get_run:
  "health_get path b = (Inr (if path = ''/health'' then json_reply 200 (health_json b) else text_reply 404 []), b)"
  by (simp add: health_get_def guarded_def health_route_def catch_def reads_def)

subsection \<open>The invariant of the guest socket\<close>

definition in_slot :: "phase \<Rightarrow> bool" where
  "in_slot x = (case x of Slotted _ _ \<Rightarrow> True | Minting _ _ \<Rightarrow> True | _ \<Rightarrow> False)"

definition mints_for :: "string \<Rightarrow> phase \<Rightarrow> bool" where
  "mints_for p x = (case x of Minting _ q \<Rightarrow> q = p | _ \<Rightarrow> False)"

definition well_named :: "phase \<Rightarrow> bool" where
  "well_named x =
     (case x of Slotted q p \<Rightarrow> creds_profile q = Some p | Minting q p \<Rightarrow> creds_profile q = Some p | _ \<Rightarrow> True)"

lemma phase_simps [simp]:
  "well_named Reading" "well_named (Slotted q p) \<longleftrightarrow> creds_profile q = Some p"
  "well_named (Minting q p) \<longleftrightarrow> creds_profile q = Some p" "well_named (Replied q r)"
  "\<not> in_slot Reading" "in_slot (Slotted q p)" "in_slot (Minting q p)" "\<not> in_slot (Replied q r)"
  "\<not> mints_for p Reading" "\<not> mints_for p (Slotted q p')" "mints_for p (Minting q p') \<longleftrightarrow> p' = p" "\<not> mints_for p (Replied q r)"
  by (simp_all add: in_slot_def mints_for_def well_named_def)

definition good_reply :: "aws_world \<Rightarrow> broker \<Rightarrow> string \<Rightarrow> reply \<Rightarrow> bool" where
  "good_reply W b path r =
     (case creds_profile path of
        Some p \<Rightarrow> good_creds_reply W b p r
      | None \<Rightarrow> r = (if path = ''/health'' then json_reply 200 (health_json b) else text_reply 404 []))"

definition serving_ok :: "aws_world \<Rightarrow> broker \<Rightarrow> serving_system \<Rightarrow> bool" where
  "serving_ok W b\<^sub>0 s \<longleftrightarrow> (case s of (b, ts) \<Rightarrow>
     free_connections b + length ts = free_connections b\<^sub>0
     \<and> free_slots b + length (filter in_slot ts) = free_slots b\<^sub>0
     \<and> (\<forall>p. length (filter (mints_for p) ts) \<le> 1)
     \<and> own_pid b = own_pid b\<^sub>0 \<and> watch_pid b = watch_pid b\<^sub>0 \<and> map fst (states b) = map fst (states b\<^sub>0)
     \<and> cells_ok b \<and> list_all well_named ts \<and> (\<forall>path r. Replied path r \<in> set ts \<longrightarrow> good_reply W b path r))"

lemma health_json_same: "same_shape b c \<Longrightarrow> health_json c = health_json b"
  by (simp add: same_shape_def health_json_def)

lemma good_reply_later: "good_reply W b path r \<Longrightarrow> same_shape b c \<Longrightarrow> good_reply W c path r"
  by (auto simp: good_reply_def health_json_same good_creds_later split: option.splits)

text \<open>Changing the counters of a state keeps what its replies are.\<close>

lemma good_reply_counters [simp]:
  "good_reply W (b\<lparr>free_slots := n\<rparr>) path r = good_reply W b path r"
  "good_reply W (b\<lparr>free_connections := n\<rparr>) path r = good_reply W b path r"
  "good_reply W (b\<lparr>saturated := z\<rparr>) path r = good_reply W b path r"
  by (simp_all add: good_reply_def good_creds_reply_def health_json_def cong: option.case_cong)

lemma cells_ok_counters [simp]:
  "cells_ok (b\<lparr>free_slots := n\<rparr>) = cells_ok b" "cells_ok (b\<lparr>free_connections := n\<rparr>) = cells_ok b"
  "cells_ok (b\<lparr>saturated := z\<rparr>) = cells_ok b"
  by (simp_all add: cells_ok_def)

lemma process_request_run:
  assumes "process_request starts b = (taken, c)"
  shows "own_pid c = own_pid b \<and> watch_pid c = watch_pid b \<and> states c = states b \<and> free_slots c = free_slots b
    \<and> prefix (past b) (past c) \<and> free_connections c + (if taken then 1 else 0) = free_connections b"
  using assms by (auto simp: process_request_def split: if_splits)

lemma no_minting: "\<forall>q. Minting q p \<notin> set ts \<Longrightarrow> filter (mints_for p) ts = []"
  by (auto simp: filter_empty_conv mints_for_def split: phase.split)

text \<open>A thread that gets its reply, from a state of the same shape.\<close>

lemma replied_ok:
  assumes "serving_ok W b\<^sub>0 (b, xs @ x # ys)" and "same_shape b c" and "cells_ok c" and "good_reply W c path r"
    and "x = Reading \<or> in_slot x"
    and "d = (if in_slot x then give_slot c else c)"
  shows "serving_ok W b\<^sub>0 (d, xs @ Replied path r # ys)"
proof -
  have shape: "free_connections c = free_connections b" "free_slots c = free_slots b" "own_pid c = own_pid b"
    "watch_pid c = watch_pid b" "map fst (states c) = map fst (states b)"
    using assms(2) by (simp_all add: same_shape_def)
  have mints: "length (filter (mints_for p) (xs @ Replied path r # ys)) \<le> length (filter (mints_for p) (xs @ x # ys))" for p
    by simp
  from assms(1) have old: "\<forall>p. length (filter (mints_for p) (xs @ x # ys)) \<le> 1"
    "\<forall>path r. Replied path r \<in> set (xs @ x # ys) \<longrightarrow> good_reply W b path r"
    by (simp_all add: serving_ok_def)
  have "\<forall>p. length (filter (mints_for p) (xs @ Replied path r # ys)) \<le> 1" using mints old(1) by (meson order_trans)
  moreover have "\<forall>p s. Replied p s \<in> set (xs @ Replied path r # ys) \<longrightarrow> good_reply W c p s"
    using old(2) assms(2,4) by (auto intro: good_reply_later)
  ultimately show ?thesis
    using assms(1,3,5,6) shape by (cases "in_slot x") (auto simp: serving_ok_def give_slot_def)
qed

lemma step_serving_ok:
  assumes "serve_step W s t" and "serving_ok W b\<^sub>0 s"
  shows "serving_ok W b\<^sub>0 t"
  using assms
proof cases
  case (connect starts b taken b' ts)
  from process_request_run [OF connect(3)] have b': "own_pid b' = own_pid b" "watch_pid b' = watch_pid b" "states b' = states b"
    "free_slots b' = free_slots b" "free_connections b' + (if taken then 1 else 0) = free_connections b" "same_shape b b' \<or> taken"
    by (auto simp: same_shape_def)
  have "good_reply W b' path r" if "good_reply W b path r" for path r
  proof -
    have "same_shape b (b'\<lparr>free_connections := free_connections b\<rparr>)"
      using process_request_run [OF connect(3)] by (simp add: same_shape_def)
    from good_reply_later [OF that this] show ?thesis by simp
  qed
  with b' assms(2) connect(1,2) show ?thesis by (auto simp: serving_ok_def cells_ok_def)
next
  case (ask_health path b r b' xs ys)
  from ask_health(4) have "b' = b" "r = (if path = ''/health'' then json_reply 200 (health_json b) else text_reply 404 [])"
    by (simp_all add: health_get_run)
  with ask_health(1-3) assms(2) show ?thesis
    using replied_ok [of W b\<^sub>0 b xs Reading ys b path r b] by (simp add: good_reply_def serving_ok_def)
next
  case (turn_away path p b acquired r b' xs ys)
  from turn_away(3,4,5) have run: "r = text_reply 503 BUSY_BODY" "b' = b\<lparr>past := past b @ [log_event ''too many concurrent requests; replying 503'' []]\<rparr>"
    by (auto simp: guest_get_def bnd_def reads_def serve_log_run ret_def)
  have "good_reply W b' path r" using turn_away(3) by (simp add: run good_reply_def good_creds_reply_def text_reply_def)
  moreover have "cells_ok b'" using assms(2) turn_away(1) by (simp add: run serving_ok_def)
  ultimately show ?thesis
    using turn_away(1,2) assms(2) replied_ok [of W b\<^sub>0 b xs Reading ys b' path r b'] same_shape_log [of b] by (simp add: run)
next
  case (take_slot path p b xs ys)
  with assms(2) show ?thesis by (auto simp: serving_ok_def)
next
  case (take_lock p b xs ys path)
  from no_minting [OF take_lock(4)] have none: "filter (mints_for p) (xs @ ys) = []" .
  have "length (filter (mints_for q) (xs @ Minting path p # ys)) \<le> 1" for q
    using assms(2) take_lock(1) none by (cases "q = p") (auto simp: serving_ok_def)
  with take_lock assms(2) show ?thesis by (auto simp: serving_ok_def)
next
  case (no_lock p b xs ys path r b')
  have "cells_ok b" using assms(2) no_lock(1) by (simp add: serving_ok_def)
  from guarded_creds_run [OF this no_lock(4)] have "same_shape b b'" "cells_ok b'" "good_creds_reply W b' p r" by auto
  with no_lock(1,2) assms(2) show ?thesis
    using replied_ok [of W b\<^sub>0 b xs "Slotted path p" ys b' path r "give_slot b'"]
    by (simp add: good_reply_def serving_ok_def)
next
  case (mint path p b r b' xs ys)
  have "cells_ok b" using assms(2) mint(1) by (simp add: serving_ok_def)
  from guarded_creds_run [OF this mint(3)] have "same_shape b b'" "cells_ok b'" "good_creds_reply W b' p r" by auto
  with mint(1,2) assms(2) show ?thesis
    using replied_ok [of W b\<^sub>0 b xs "Minting path p" ys b' path r "give_slot b'"]
    by (simp add: good_reply_def serving_ok_def)
next
  case (hang_up b xs ys)
  with assms(2) show ?thesis by (auto simp: serving_ok_def connection_over_def)
next
  case (close b xs path r ys)
  with assms(2) show ?thesis by (auto simp: serving_ok_def connection_over_def)
qed

lemma states_start [simp]: "map fst (start_states interval allow) = fromkeys allow"
  by (simp add: start_states_def comp_def)

lemma start_serving_ok: "serving_ok W (start_broker pid watched interval allow) (start_broker pid watched interval allow, [])"
  by (auto simp: serving_ok_def start_broker_def cells_ok_def start_states_def)

lemma serves_ok: "serves W b\<^sub>0 s \<Longrightarrow> serving_ok W b\<^sub>0 (b\<^sub>0, []) \<Longrightarrow> serving_ok W b\<^sub>0 s"
  by (induction rule: serves.induct) (auto intro: step_serving_ok)

lemmas serves_start = serves_ok [OF _ start_serving_ok]

subsection \<open>A request alone\<close>

lemma guarded_total: "\<exists>r c. guarded path route fb b = (Inr r, c)"
  by (cases "route b") (auto simp: guarded_def catch_def bnd_def serve_log_run ret_def split: sum.split)

lemma creds_route_unknown:
  "p \<notin> set (map fst (states b)) \<Longrightarrow> creds_route W p True b = creds_route W p False b"
proof -
  assume "p \<notin> set (map fst (states b))"
  then have "map_of (states b) p = None" by (simp add: map_of_eq_None_iff)
  then show ?thesis by (simp add: creds_route_def bnd_def reads_def)
qed

lemma guest_get_slot:
  assumes "creds_profile path = Some p" and "0 < free_slots b"
    and "guarded path (creds_route W p True) (creds_failure_body p) (b\<lparr>free_slots := free_slots b - 1\<rparr>) = (Inr r, c)"
  shows "guest_get W path True b = (Inr r, give_slot c)"
  using assms by (simp add: guest_get_def bnd_def reads_def modifies_def finally_do_def give_slot_def)

lemma lone_run:
  "\<exists>r c. guest_get W path True b = (Inr r, c) \<and> (serve_step W)\<^sup>*\<^sup>* (b, [Reading]) (c, [Replied path r])"
proof (cases "creds_profile path")
  case None
  obtain r where run: "health_get path b = (Inr r, b)" by (simp add: health_get_run)
  with serve_step.ask_health [OF None run, of W "[]" "[]"] None show ?thesis by (auto simp: guest_get_def)
next
  case (Some p)
  show ?thesis
  proof (cases "free_slots b = 0")
    case True
    obtain r c where run: "guest_get W path True b = (Inr r, c)"
      using Some True by (auto simp: guest_get_def bnd_def reads_def serve_log_run ret_def)
    with serve_step.turn_away [OF Some True run, of "[]" "[]"] show ?thesis by auto
  next
    case False
    let ?b = "b\<lparr>free_slots := free_slots b - 1\<rparr>"
    obtain r c where run: "guarded path (creds_route W p True) (creds_failure_body p) ?b = (Inr r, c)"
      using guarded_total by blast
    have first: "serve_step W (b, [Reading]) (?b, [Slotted path p])"
      using serve_step.take_slot [OF Some, of b W "[]" "[]"] False by simp
    moreover have "(serve_step W)\<^sup>*\<^sup>* (?b, [Slotted path p]) (give_slot c, [Replied path r])"
    proof (cases "p \<in> set (map fst (states ?b))")
      case True
      have "serve_step W (?b, [Slotted path p]) (?b, [Minting path p])"
        using serve_step.take_lock [OF True, of "[]" "[]" W path] by simp
      moreover have "serve_step W (?b, [Minting path p]) (give_slot c, [Replied path r])"
        using serve_step.mint [OF run, of "[]" "[]"] by simp
      ultimately show ?thesis by (meson converse_rtranclp_into_rtranclp r_into_rtranclp)
    next
      case unknown: False
      from run creds_route_unknown [OF unknown, of W]
      have "guarded path (creds_route W p False) (creds_failure_body p) ?b = (Inr r, c)"
        by (simp add: guarded_def catch_def)
      with serve_step.no_lock [of p ?b "[]" "[]" path W r c] unknown show ?thesis by auto
    qed
    ultimately show ?thesis
      using guest_get_slot [OF Some _ run] False by (meson converse_rtranclp_into_rtranclp gr_zeroI)
  qed
qed

subsection \<open>Names in order\<close>

fun ordered :: "string list \<Rightarrow> bool" where
  "ordered (s # t # ts) = (string_le s t \<and> ordered (t # ts))"
| "ordered _ = True"

lemma string_le_total: "\<not> string_le s t \<Longrightarrow> string_le t s"
  by (induction s t rule: string_le.induct) auto

lemma ordered_insert: "ordered ts \<Longrightarrow> ordered (insert_name s ts)"
proof (induction ts rule: ordered.induct)
  case (1 t u ts)
  then show ?case by (cases "string_le s t"; cases "string_le s u") (auto dest: string_le_total)
qed (auto dest: string_le_total)

lemma ordered_sorted: "ordered (sorted_names ss)"
  by (induction ss) (simp_all add: sorted_names_def ordered_insert)

lemma sorted_id: "ordered ss \<Longrightarrow> sorted_names ss = ss"
proof (induction ss rule: ordered.induct)
  case (1 s t ts)
  then have "sorted_names (t # ts) = t # ts" by simp
  moreover have "sorted_names (s # t # ts) = insert_name s (sorted_names (t # ts))" by (simp add: sorted_names_def)
  ultimately show ?case using 1 by simp
qed (simp_all add: sorted_names_def)

lemma set_insert_name [simp]: "set (insert_name s ts) = insert s (set ts)"
  by (induction ts) auto

lemma distinct_insert_name: "distinct ts \<Longrightarrow> s \<notin> set ts \<Longrightarrow> distinct (insert_name s ts)"
  by (induction ts) auto

lemma sorted_distinct: "distinct ss \<Longrightarrow> distinct (sorted_names ss)"
proof (induction ss)
  case (Cons s ss)
  have "set (sorted_names ss) = set ss" by (induction ss) (simp_all add: sorted_names_def)
  with Cons show ?case by (simp add: sorted_names_def distinct_insert_name)
qed (simp add: sorted_names_def)

lemma fromkeys_id: "distinct ss \<Longrightarrow> fromkeys ss = ss"
proof -
  have "distinct ss \<Longrightarrow> set ss \<inter> set seen = {} \<Longrightarrow> fromkeys_acc seen ss = ss" for seen
    by (induction ss arbitrary: seen) auto
  then show "distinct ss \<Longrightarrow> fromkeys ss = ss" by (simp add: fromkeys_def)
qed

lemma json_int_show: "json_int (JNum (show_int n)) = Some n" if "0 \<le> n"
  using that show_nat_digits [of "nat n"] by (simp add: json_int_def show_int_def is_ascii_number_def list_all_iff)

subsection \<open>Properties\<close>

text \<open>A broker for one profile, in a world where the tool answers with an hour to go.\<close>

definition dev_world :: aws_world where
  "dev_world = nine_o_clock (printed ''AKIA'' ''s3cret'' ''t0ken'' ''2024-02-29T10:00:00Z'')"

definition dev_broker :: broker where
  "dev_broker = start_broker 70 42 5 [''dev'']"

lemma dev_run: "\<exists>r b. serves dev_world dev_broker (b, [Replied ''/creds/dev'' r]) \<and> status r = 200"
proof -
  have "process_request True dev_broker = (True, dev_broker\<lparr>free_connections := 63\<rparr>)" by code_simp
  from serve_step.connect [OF this, of dev_world "[]"]
  have "serves dev_world dev_broker (dev_broker\<lparr>free_connections := 63\<rparr>, [Reading])"
    by (auto intro: serves.intros)
  moreover obtain r b where run: "guest_get dev_world ''/creds/dev'' True (dev_broker\<lparr>free_connections := 63\<rparr>) = (Inr r, b)"
    "(serve_step dev_world)\<^sup>*\<^sup>* (dev_broker\<lparr>free_connections := 63\<rparr>, [Reading]) (b, [Replied ''/creds/dev'' r])"
    using lone_run by blast
  moreover have "serves W x t" if "(serve_step W)\<^sup>*\<^sup>* s t" "serves W x s" for W x s t
    using that by (induction rule: rtranclp_induct) (auto intro: serves.goes_on)
  ultimately have "serves dev_world dev_broker (b, [Replied ''/creds/dev'' r])" by blast
  moreover have "map_sum (\<lambda>f. ()) status (fst (guest_get dev_world ''/creds/dev'' True (dev_broker\<lparr>free_connections := 63\<rparr>))) = Inr 200"
    by code_simp
  with run(1) have "status r = 200" by simp
  ultimately show ?thesis by blast
qed

text \<open>
  C5: whatever the guest asks for on however many connections, a reply with credentials goes only to
  a request for a profile of \<open>--allow\<close>, carries a session token and had not lapsed by a reading of the
  clock; any other reply with status 200 is the health of the broker, asked for by its path.
\<close>

theorem credentials_only_for_allowed_profiles:
  assumes "serves W (start_broker pid watched interval allow) (b, ts)" and "Replied path r \<in> set ts" and "status r = 200"
  shows "(\<exists>p held h. path = CREDS_PATH_PREFIX @ p \<and> p \<in> set allow \<and> r = json_reply 200 (creds_json held)
      \<and> servable held \<and> prefix h (past b) \<and> utc_clock W h < expires_at held)
    \<or> path = ''/health'' \<and> r = json_reply 200 (health_json b)"
proof -
  from serves_start [OF assms(1)] assms(2) have good: "good_reply W b path r"
    and keys: "map fst (states b) = fromkeys allow"
    by (auto simp: serving_ok_def start_broker_def)
  show ?thesis
  proof (cases "creds_profile path")
    case None
    with good assms(3) show ?thesis by (auto simp: good_reply_def text_reply_def split: if_splits)
  next
    case (Some p)
    then have path: "path = CREDS_PATH_PREFIX @ p"
      by (auto simp: creds_profile_def startswith_after split: if_splits)
    from good Some assms(3) obtain held h where "p \<in> set (map fst (states b))" "servable held" "r = json_reply 200 (creds_json held)"
      "prefix h (past b)" "utc_clock W h < expires_at held"
      by (auto simp: good_reply_def good_creds_reply_def)
    with path keys show ?thesis by (metis set_fromkeys)
  qed
qed

theorem credentials_only_for_allowed_profiles_witness:
  "\<exists>b r held h. serves dev_world dev_broker (b, [Replied ''/creds/dev'' r]) \<and> r = json_reply 200 (creds_json held)
    \<and> session_token held \<noteq> [] \<and> utc_clock dev_world h < expires_at held"
proof -
  obtain r b where run: "serves dev_world dev_broker (b, [Replied ''/creds/dev'' r])" "status r = 200" using dev_run by blast
  from credentials_only_for_allowed_profiles [OF run(1) [unfolded dev_broker_def] _ run(2)] run(1)
  show ?thesis by (auto simp: servable_def)
qed

text \<open>
  C6: however fast the guest opens connections and asks, at most 64 are open, at most 32 requests for
  credentials are served at a time, at most one mint of a profile runs, and no place is lost or given
  back twice.
\<close>

theorem guest_cannot_exhaust_the_broker:
  assumes "serves W (start_broker pid watched interval allow) (b, ts)"
  shows "length ts \<le> 64 \<and> free_connections b = 64 - length ts
    \<and> length (filter in_slot ts) \<le> 32 \<and> free_slots b = 32 - length (filter in_slot ts)
    \<and> length (filter (mints_for p) ts) \<le> 1"
  using serves_start [OF assms]
  by (auto simp: serving_ok_def start_broker_def MAX_CONNECTIONS_def MAX_CONCURRENT_REQUESTS_def)

theorem guest_cannot_exhaust_the_broker_witness:
  "\<exists>b. serves dev_world dev_broker (b, [Reading]) \<and> free_connections b = 63 \<and> free_slots b = 32"
proof -
  have "process_request True dev_broker = (True, dev_broker\<lparr>free_connections := 63\<rparr>)" by code_simp
  from serve_step.connect [OF this, of dev_world "[]"]
  have run: "serves dev_world dev_broker (dev_broker\<lparr>free_connections := 63\<rparr>, [Reading])"
    by (auto intro: serves.intros)
  from guest_cannot_exhaust_the_broker [OF run [unfolded dev_broker_def]] run show ?thesis
    by (intro exI [of _ "dev_broker\<lparr>free_connections := 63\<rparr>"]) (simp add: dev_broker_def)
qed

text \<open>
  C17: the cap on a request's head is exact: a client whose head takes at most 8192 bytes is answered
  as if there were no cap, and one whose head is longer, by a line without end or by headers, is
  refused, whatever it sends.
\<close>

theorem head_cap_is_exact:
  "\<exists>a t. read_request \<lparr>incoming = s, remaining = int (length s)\<rparr> = (Inr a, t)
    \<and> fst (received s) = (if length s - length (incoming t) \<le> 8192 then Inr a else Inl Head_Too_Large)"
proof -
  from transparent_request obtain a t where run: "read_request \<lparr>incoming = s, remaining = int (length s)\<rparr> = (Inr a, t)"
    and "0 \<le> used s t" and cut: "if used s t \<le> 8192
      then read_request \<lparr>incoming = s, remaining = 8192\<rparr> = (Inr a, \<lparr>incoming = incoming t, remaining = 8192 - used s t\<rparr>)
      else fst (read_request \<lparr>incoming = s, remaining = 8192\<rparr>) = Inl Head_Too_Large"
    unfolding transparent_def by (metis order_refl of_nat_0_le_iff zero_le_numeral)
  then have "used s t = int (length s - length (incoming t))" by (simp add: used_def)
  with run cut show ?thesis
    by (intro exI [of _ a] exI [of _ t]) (auto simp: received_def MAX_REQUEST_HEAD_BYTES_def split: if_splits)
qed

text \<open>
  C16: a broker yo has started for a keepalive process and a set of profiles, asked for its health
  after any number of requests, is one yo leaves alone: what \<open>/health\<close> says, written as JSON and read
  back, names that process and those profiles.
\<close>

theorem own_broker_is_left_alone:
  assumes "serves W (start_broker pid watched interval (sorted_names names)) (b, ts)"
    and "distinct names" and "1 < watched"
    and "health_ans E h (aws_broker_ctl_sock E) = Some (status r, body r)" and "health_get ''/health'' b = (Inr r, c)"
  shows "fst (keep_broker E watched (sorted_names names) h) = Inr () \<and>
    filter (\<lambda>e. \<exists>a i. e = Spawned a i) (drop (length h) (snd (keep_broker E watched (sorted_names names) h))) = []"
proof -
  let ?names = "sorted_names names" and ?health = "reread (health_json b)"
  have r: "r = json_reply 200 (health_json b)" using assms(5) by (auto simp: health_get_run)
  have "writable (health_json b)" by (auto simp: health_json_def list_all_iff)
  then have read: "json_loads (body r) = Some ?health" by (simp add: r json_reply_def dumps_loads)
  from serves_start [OF assms(1)] have b: "watch_pid b = watched" "map fst (states b) = fromkeys ?names"
    by (auto simp: serving_ok_def start_broker_def)
  have "sorted_names (map fst (states b)) = ?names"
    using b(2) fromkeys_id [OF sorted_distinct [OF assms(2)]] sorted_id [OF ordered_sorted] by simp
  then have health: "?health = JObj [(''allow'', JArr (map JStr ?names)), (''watch_pid'', JNum (show_int watched)),
      (''pid'', JNum (show_int (own_pid b)))]"
    by (simp add: health_json_def b(1) comp_def)
  have "health_on E (aws_broker_ctl_sock E) h = (Inr (Some ?health), h @ [Did ''GET /health'' [aws_broker_ctl_sock E]])"
    using assms(4) read unfolding health
    by (simp add: health_on_def bnd_def reads_def emit_def modifies_def ret_def r json_reply_def HTTP_OK_def)
  then have "aws_broker_health E h = (Inr \<lparr>bh_state = Broker_Healthy, bh_info = ?health, bh_sock = aws_broker_ctl_sock E\<rparr>,
      h @ [Did ''GET /health'' [aws_broker_ctl_sock E]])"
    by (simp add: aws_broker_health_def bnd_def ret_def)
  moreover have "checked_pid (json_get ''watch_pid'' ?health) = Some watched"
    using assms(3) unfolding health by (simp add: json_get_def checked_pid_def json_int_show)
  moreover have "json_get ''allow'' ?health = Some (JArr (map JStr ?names))" unfolding health by (simp add: json_get_def)
  ultimately show ?thesis
    by (simp add: keep_broker_left_alone broker_needs_restart_def)
qed

theorem own_broker_is_left_alone_witness:
  "fst (keep_broker (sample_env\<lparr>health_ans := (\<lambda>h p. Some (200, json_dumps (health_json dev_broker)))\<rparr>) 42 [''dev''] []) = Inr ()"
proof -
  let ?r = "json_reply 200 (health_json dev_broker)"
  let ?E = "sample_env\<lparr>health_ans := (\<lambda>h p. Some (200, json_dumps (health_json dev_broker)))\<rparr>"
  have names: "sorted_names [''dev''] = [''dev'']" by code_simp
  have "serves dev_world (start_broker 70 42 5 (sorted_names [''dev''])) (dev_broker, [])"
    unfolding names dev_broker_def by (rule serves.opens)
  moreover have "health_ans ?E [] (aws_broker_ctl_sock ?E) = Some (status ?r, body ?r)" by (simp add: json_reply_def)
  moreover have "health_get ''/health'' dev_broker = (Inr ?r, dev_broker)" by (simp add: health_get_run)
  ultimately show ?thesis
    using own_broker_is_left_alone [of dev_world 70 42 5 "[''dev'']" dev_broker "[]" ?E "[]" ?r dev_broker] names by simp
qed

text \<open>
  \<open>do_GET\<close> as one thread runs it alone is a run of the system of threads: a request that meets no
  other gets the same reply through the system's steps and leaves the same state.
\<close>

lemma lone_request_is_a_run:
  "\<exists>r c. guest_get W path True b = (Inr r, c) \<and> (serve_step W)\<^sup>*\<^sup>* (b, [Reading]) (c, [Replied path r])"
  by (rule lone_run)

end
