(* ===== verification/Yo_Broker_Process.thy ===== *)
theory Yo_Broker_Process
  imports Yo_Broker
begin

text \<open>
  The start and the end of \<open>aws-broker\<close>: its arguments, the lock under which it takes over a stale
  socket and binds its own two, the watch on the keepalive process, the one line it prints, and what
  it removes when it ends. Also \<open>pid_alive\<close> and \<open>pid_exit_watch\<close> of \<open>common.py\<close>. The lemmas show which
  files it ever unlinks and that yo reads from its line how it began.
\<close>

definition EXIT_OK :: int where "EXIT_OK = 0"
definition EXIT_WATCH_FAILED :: int where "EXIT_WATCH_FAILED = 1"

subsection \<open>The host\<close>

text \<open>
  \<open>lstat\<close> of a path: nothing there, a failure, or a file with whether it is a socket and its device
  and inode; a connect to a socket; what Python offers to watch a process with; and a failure's
  reason for the other calls, none when they succeed.
\<close>

datatype lstat_answer = Absent | Stat_Fails string | There bool "nat \<times> nat"

datatype probe_answer = Connects | Refuses | Vanished | Probe_Fails string

datatype unlink_answer = Removed | Already_Removed | Unlink_Fails string

datatype watch_kind = Kqueue | Pidfd | No_Watch

datatype watch_begin = Watched | Watched_Gone | Watch_Fails string

record broker_host =
  lstat_ans :: "history \<Rightarrow> string \<Rightarrow> lstat_answer"
  probe_ans :: "history \<Rightarrow> string \<Rightarrow> probe_answer"
  unlink_ans :: "history \<Rightarrow> string \<Rightarrow> unlink_answer"
  lock_open_error :: "history \<Rightarrow> string \<Rightarrow> string option"
  flock_error :: "history \<Rightarrow> string \<Rightarrow> string option"
  bind_error :: "history \<Rightarrow> string \<Rightarrow> string option"
  signal_zero :: "history \<Rightarrow> int \<Rightarrow> kill_answer"   \<comment> \<open>\<open>os.kill(pid, 0)\<close>\<close>
  watch_kind :: watch_kind
  watch_begins :: "history \<Rightarrow> int \<Rightarrow> watch_begin"
  wait_error :: "history \<Rightarrow> string option"       \<comment> \<open>the wait for the exit fails\<close>

text \<open>How the process leaves: \<open>sys.exit\<close> or \<open>os._exit\<close>, or an \<open>OSError\<close> nothing catches.\<close>

datatype leave = Exits int | Raises string

type_synonym 'a starting = "(history, leave, 'a) eff"

definition does :: "event \<Rightarrow> unit starting" where
  "does e = modifies (\<lambda>h. h @ [e])"

definition broker_log :: "string \<Rightarrow> string list \<Rightarrow> unit starting" where
  "broker_log what args = does (log_event what args)"

text \<open>\<open>fail\<close>: the handshake line as it is printed, then status 1.\<close>

definition fail :: "string \<Rightarrow> 'a starting" where
  "fail msg = sq (does (Said (''ERROR='' @ msg, []))) (raise (Exits 1))"

subsection \<open>Watching a process (common.py)\<close>

definition pid_alive :: "broker_host \<Rightarrow> int \<Rightarrow> bool starting" where
  "pid_alive H pid = reads (\<lambda>h. signal_zero H h pid \<noteq> No_Such_Process)"

text \<open>\<open>pid_exit_watch\<close>: the kind of watch that was set up, none when the process is not running.\<close>

definition pid_exit_watch :: "broker_host \<Rightarrow> int \<Rightarrow> history \<Rightarrow> string + watch_kind option" where
  "pid_exit_watch H pid h =
     (if watch_kind H = No_Watch
      then Inl (''cannot watch pid '' @ show_int pid @ '': this Python has neither select.kqueue nor os.pidfd_open (macOS, or Linux with a Python that offers pidfd_open)'')
      else (case watch_begins H h pid of
              Watched \<Rightarrow> Inr (Some (watch_kind H))
            | Watched_Gone \<Rightarrow> Inr None
            | Watch_Fails reason \<Rightarrow> Inl reason))"

definition register_pid_watch_event :: "broker_host \<Rightarrow> int \<Rightarrow> unit starting" where
  "register_pid_watch_event H pid =
     bnd (reads (pid_exit_watch H pid)) (\<lambda>watch.
     case watch of
       Inl reason \<Rightarrow> fail (''registration of a watch on pid '' @ show_int pid @ '' failed: '' @ reason)
     | Inr None \<Rightarrow> fail (''watched pid '' @ show_int pid @ '' is not running'')
     | Inr (Some kind) \<Rightarrow> does (Did ''watch'' [show_int pid]))"

subsection \<open>Arguments\<close>

record broker_args =
  socket_path :: string
  control_path :: string
  watched_pid :: int
  allow :: "string list"
  remint_interval :: rat

definition PROFILE_NAME_PATTERN :: string where
  "PROFILE_NAME_PATTERN = ''^[A-Za-z0-9][A-Za-z0-9._-]*$''"

text \<open>\<open>repr\<close> of a string.\<close>

definition py_repr :: "string \<Rightarrow> string" where
  "py_repr s =
     (let single = \<not> (CHR 0x27 \<in> set s \<and> CHR 0x22 \<notin> set s); q = (if single then CHR 0x27 else CHR 0x22)
      in q # concat (map (repr_char single) s) @ [q])"

definition check_allow :: "string list \<Rightarrow> unit starting" where
  "check_allow names = for_each names (\<lambda>name.
     if \<not> fullmatch PROFILE_NAME_RE name
     then fail (''invalid profile name '' @ py_repr name @ '': must match '' @ PROFILE_NAME_PATTERN) else ret ())"

subsection \<open>Sockets\<close>

definition socket_lock :: "string \<Rightarrow> string" where
  "socket_lock path = path @ ''.lock''"

definition held_socket_lock :: "broker_host \<Rightarrow> string \<Rightarrow> 'a starting \<Rightarrow> 'a starting" where
  "held_socket_lock H path inside =
     bnd (reads (\<lambda>h. lock_open_error H h (socket_lock path))) (\<lambda>failure.
     case failure of
       Some reason \<Rightarrow> fail (''cannot open lock file '' @ socket_lock path @ '': '' @ reason)
     | None \<Rightarrow>
         bnd (reads (\<lambda>h. flock_error H h (socket_lock path))) (\<lambda>failure.
         case failure of
           Some reason \<Rightarrow> fail (''cannot lock '' @ socket_lock path @ '': '' @ reason)
         | None \<Rightarrow>
             sq (does (Took_Lock (socket_lock path)))
                (finally_do inside (\<lambda>h. h @ [Dropped_Lock (socket_lock path)]))))"

definition unlinked :: "string \<Rightarrow> event" where
  "unlinked path = Did ''unlink'' [path]"

definition reclaim_socket_path :: "broker_host \<Rightarrow> string \<Rightarrow> unit starting" where
  "reclaim_socket_path H path =
     bnd (reads (\<lambda>h. lstat_ans H h path)) (\<lambda>found.
     case found of
       Absent \<Rightarrow> ret ()
     | Stat_Fails reason \<Rightarrow> fail (''cannot stat existing path '' @ path @ '': '' @ reason)
     | There is_socket ident \<Rightarrow>
         if \<not> is_socket then fail (path @ '' exists and is not a socket; refusing to remove it'')
         else
           bnd (reads (\<lambda>h. probe_ans H h path)) (\<lambda>probe.
           sq (does (Did ''connect'' [path]))
           (case probe of
              Vanished \<Rightarrow> ret ()
            | Probe_Fails reason \<Rightarrow> fail (''cannot probe existing socket '' @ path @ '': '' @ reason)
            | Connects \<Rightarrow> fail (''another aws-broker is already serving '' @ path)
            | Refuses \<Rightarrow>
                bnd (reads (\<lambda>h. unlink_ans H h path)) (\<lambda>answer.
                case answer of
                  Removed \<Rightarrow> does (unlinked path)
                | Already_Removed \<Rightarrow> ret ()
                | Unlink_Fails reason \<Rightarrow> fail (''cannot remove stale socket '' @ path @ '': '' @ reason)))))"

record bound_socket =
  bound_path :: string
  identity :: "nat \<times> nat"

definition unlink_if_same_identity :: "broker_host \<Rightarrow> bound_socket \<Rightarrow> unit starting" where
  "unlink_if_same_identity H s =
     bnd (reads (\<lambda>h. lstat_ans H h (bound_path s))) (\<lambda>found.
     case found of
       There is_socket ident \<Rightarrow>
         if ident \<noteq> identity s
         then broker_log ''is not the socket this broker bound; leaving it'' [bound_path s]
         else
           bnd (reads (\<lambda>h. unlink_ans H h (bound_path s))) (\<lambda>answer.
           case answer of
             Removed \<Rightarrow> does (unlinked (bound_path s))
           | Already_Removed \<Rightarrow> broker_log ''cannot remove at shutdown'' [bound_path s, ''no such file'']
           | Unlink_Fails reason \<Rightarrow> broker_log ''cannot remove at shutdown'' [bound_path s, reason])
     | Absent \<Rightarrow> broker_log ''cannot stat at shutdown, leaving it'' [bound_path s, ''no such file'']
     | Stat_Fails reason \<Rightarrow> broker_log ''cannot stat at shutdown, leaving it'' [bound_path s, reason])"

definition unlink_bound :: "broker_host \<Rightarrow> bound_socket list \<Rightarrow> unit starting" where
  "unlink_bound H sockets = for_each sockets (unlink_if_same_identity H)"

text \<open>\<open>bind_server\<close>: the socket file is made with mode 0600; then its identity is read.\<close>

definition bound :: "string \<Rightarrow> event" where
  "bound path = Did ''bind'' [path, ''600'']"

definition bind_server :: "broker_host \<Rightarrow> string \<Rightarrow> bound_socket starting" where
  "bind_server H path =
     bnd (reads (\<lambda>h. bind_error H h path)) (\<lambda>failure.
     case failure of
       Some reason \<Rightarrow> fail (''cannot bind unix socket '' @ path @ '': '' @ reason)
     | None \<Rightarrow>
         sq (does (bound path))
         (bnd (reads (\<lambda>h. lstat_ans H h path)) (\<lambda>found.
          case found of
            There is_socket ident \<Rightarrow> ret \<lparr>bound_path = path, identity = ident\<rparr>
          | Absent \<Rightarrow> raise (Raises ''no such file'')
          | Stat_Fails reason \<Rightarrow> raise (Raises reason))))"

text \<open>\<open>except SystemExit: f; raise\<close>\<close>

definition on_exit_do :: "'a starting \<Rightarrow> unit starting \<Rightarrow> 'a starting" where
  "on_exit_do m f = catch m (\<lambda>e. case e of Exits code \<Rightarrow> sq f (raise e) | Raises reason \<Rightarrow> raise e)"

definition bind_servers :: "broker_host \<Rightarrow> string \<Rightarrow> string \<Rightarrow> bound_socket list starting" where
  "bind_servers H path control =
     bnd (bind_server H path) (\<lambda>guest.
     bnd (on_exit_do (bind_server H control)
            (sq (does (Did ''close'' [path])) (unlink_if_same_identity H guest))) (\<lambda>ctl.
     ret [guest, ctl]))"

subsection \<open>The process\<close>

text \<open>\<open>main\<close> up to and with its handshake line, from the arguments \<open>argparse\<close> found.\<close>

definition broker_start :: "broker_host \<Rightarrow> broker_args \<Rightarrow> bound_socket list starting" where
  "broker_start H args =
     sq (check_allow (allow args))
     (bnd (pid_alive H (watched_pid args)) (\<lambda>alive.
      sq (if \<not> alive then fail (''watched pid '' @ show_int (watched_pid args) @ '' is not running'') else ret ())
      (bnd
        (held_socket_lock H (socket_path args)
          (sq (reclaim_socket_path H (socket_path args))
          (sq (reclaim_socket_path H (control_path args))
          (sq (register_pid_watch_event H (watched_pid args))
              (bind_servers H (socket_path args) (control_path args)))))) (\<lambda>sockets.
       sq (does (Said (''READY'', []))) (ret sockets)))))"

text \<open>
  How a broker that serves comes to its end: SIGTERM, the watched process's exit or the failure of the
  wait for it, or an exception out of \<open>serve_forever\<close>.
\<close>

datatype ending = Sigterm | Watch_Ended | Serve_Fails string

definition exit_cleanly :: "broker_host \<Rightarrow> string \<Rightarrow> string list \<Rightarrow> bound_socket list \<Rightarrow> int \<Rightarrow> 'a starting" where
  "exit_cleanly H why args sockets code =
     sq (broker_log why args) (sq (unlink_bound H sockets) (raise (Exits code)))"

definition await_pid_exit :: "broker_host \<Rightarrow> int \<Rightarrow> bound_socket list \<Rightarrow> 'a starting" where
  "await_pid_exit H pid sockets =
     bnd (reads (wait_error H)) (\<lambda>failure.
     case failure of
       Some reason \<Rightarrow> exit_cleanly H ''waiting for pid failed; shutting down'' [show_int pid, reason] sockets EXIT_WATCH_FAILED
     | None \<Rightarrow> exit_cleanly H ''watched pid exited; shutting down'' [show_int pid] sockets EXIT_OK)"

definition broker_end :: "broker_host \<Rightarrow> broker_args \<Rightarrow> bound_socket list \<Rightarrow> ending \<Rightarrow> unit starting" where
  "broker_end H args sockets cause =
     (case cause of
        Sigterm \<Rightarrow> exit_cleanly H ''SIGTERM; shutting down'' [] sockets EXIT_OK
      | Watch_Ended \<Rightarrow> await_pid_exit H (watched_pid args) sockets
      | Serve_Fails reason \<Rightarrow> sq (unlink_bound H sockets) (raise (Raises reason)))"

definition broker_main :: "broker_host \<Rightarrow> broker_args \<Rightarrow> event list \<Rightarrow> ending \<Rightarrow> unit starting" where
  "broker_main H args served cause =
     bnd (broker_start H args) (\<lambda>sockets. sq (modifies (\<lambda>h. h @ served)) (broker_end H args sockets cause))"

subsection \<open>Which files a broker removes\<close>

text \<open>
  A broker may unlink a path after it has seen a socket there that refused a connection, while it
  holds the lock; or when the file is, by device and inode, the one it saw after its own bind.
\<close>

definition owned :: "broker_host \<Rightarrow> bound_socket \<Rightarrow> history \<Rightarrow> bool" where
  "owned H s h \<longleftrightarrow> (\<exists>k is_socket. prefix k h \<and> bound (bound_path s) \<in> set k
     \<and> lstat_ans H k (bound_path s) = There is_socket (identity s))"

definition licensed :: "broker_host \<Rightarrow> string \<Rightarrow> history \<Rightarrow> string \<Rightarrow> bool" where
  "licensed H l h p \<longleftrightarrow>
     (\<exists>j k ident. prefix j h \<and> prefix k h \<and> lstat_ans H j p = There True ident \<and> probe_ans H k p = Refuses \<and> holds l h)
     \<or> (\<exists>s is_socket. bound_path s = p \<and> owned H s h \<and> lstat_ans H h p = There is_socket (identity s))"

definition unlinks_licensed :: "broker_host \<Rightarrow> string \<Rightarrow> history \<Rightarrow> bool" where
  "unlinks_licensed H l h \<longleftrightarrow> (\<forall>k p. prefix (k @ [unlinked p]) h \<longrightarrow> licensed H l k p)"

lemma unlinks_Nil [simp]: "unlinks_licensed H l []"
  by (simp add: unlinks_licensed_def)

lemma unlinks_snoc [simp]:
  "unlinks_licensed H l (h @ [e]) \<longleftrightarrow> unlinks_licensed H l h \<and> (\<forall>p. e = unlinked p \<longrightarrow> licensed H l h p)"
  by (auto simp: unlinks_licensed_def)

lemma unlinks_snoc2 [simp]:
  "unlinks_licensed H l (h @ [d, e]) \<longleftrightarrow> unlinks_licensed H l h \<and> (\<forall>p. d = unlinked p \<longrightarrow> licensed H l h p)
     \<and> (\<forall>p. e = unlinked p \<longrightarrow> licensed H l (h @ [d]) p)"
  using unlinks_snoc [of H l "h @ [d]" e] by simp

lemma unlinked_eq [simp]: "unlinked p = unlinked q \<longleftrightarrow> p = q" "unlinked p \<noteq> Said m" "unlinked p \<noteq> Warned m"
  "unlinked p \<noteq> Took_Lock l" "unlinked p \<noteq> Dropped_Lock l" "unlinked p \<noteq> bound q" "unlinked p \<noteq> log_event w a"
  "Said m \<noteq> unlinked p" "Took_Lock l \<noteq> unlinked p" "Dropped_Lock l \<noteq> unlinked p" "bound q \<noteq> unlinked p"
  "log_event w a \<noteq> unlinked p" "c \<noteq> ''unlink'' \<Longrightarrow> Did c x \<noteq> unlinked p"
  by (simp_all add: unlinked_def bound_def log_event_def)

lemma lock_step_unlinked [simp]: "lock_step l b (unlinked p) = b"
  by (simp add: lock_step_def unlinked_def)

lemma lock_step_event: "lock_step l b (Said m) = b" "lock_step l b (Did c x) = b"
  by (simp_all add: lock_step_def)

lemma owned_later: "owned H s h \<Longrightarrow> owned H s (h @ es)"
  unfolding owned_def by (meson prefix_prefix)

lemma does_run: "does e h = (Inr (), h @ [e])"
  and broker_log_run: "broker_log w a h = (Inr (), h @ [log_event w a])"
  and fail_run: "fail msg h = (Inl (Exits 1), h @ [Said (''ERROR='' @ msg, [])])"
  by (simp_all add: does_def broker_log_def fail_def modifies_def bnd_def raise_def)

lemmas starting_runs = does_run broker_log_run fail_run bnd_def reads_def ret_def raise_def

text \<open>\<open>guards l P m\<close>: under \<open>P\<close>, which only the history's growth can keep, \<open>m\<close> unlinks only as licensed.\<close>

definition guards :: "broker_host \<Rightarrow> string \<Rightarrow> (history \<Rightarrow> bool) \<Rightarrow> 'a starting \<Rightarrow> bool" where
  "guards H l P m \<longleftrightarrow> keeps (\<lambda>h. unlinks_licensed H l h \<and> P h) m"

lemma guards_does: "(\<And>p. e \<noteq> unlinked p) \<Longrightarrow> (\<And>h. P h \<Longrightarrow> P (h @ [e])) \<Longrightarrow> guards H l P (does e)"
  by (auto simp: guards_def does_run intro!: keepsI)

lemma guards_bnd: "guards H l P m \<Longrightarrow> (\<And>x. guards H l P (f x)) \<Longrightarrow> guards H l P (bnd m f)"
  unfolding guards_def by (rule keeps_bnd)

lemma guards_plain: "guards H l P (ret x)" "guards H l P (raise e)" "guards H l P (reads f)"
  by (simp_all add: guards_def keeps_ret keeps_raise keeps_reads)

lemma guards_for_each: "(\<And>x. x \<in> set xs \<Longrightarrow> guards H l P (f x)) \<Longrightarrow> guards H l P (for_each xs f)"
  unfolding guards_def by (rule keeps_for_each)

lemma guards_log: "(\<And>h e. P h \<Longrightarrow> P (h @ [log_event w a])) \<Longrightarrow> guards H l P (broker_log w a)"
  unfolding broker_log_def by (rule guards_does) simp_all

lemma guards_fail: "(\<And>h m. P h \<Longrightarrow> P (h @ [Said m])) \<Longrightarrow> guards H l P (fail msg)"
  unfolding fail_def by (intro guards_bnd guards_does guards_plain) simp_all

lemma reclaim_guards: "guards H l (holds l) (reclaim_socket_path H path)"
  unfolding guards_def
proof (rule keepsI)
  fix h r t
  assume I: "unlinks_licensed H l h \<and> holds l h" and run: "reclaim_socket_path H path h = (r, t)"
  have "licensed H l (h @ [Did ''connect'' [path]]) path"
    if "lstat_ans H h path = There True ident" "probe_ans H h path = Refuses" for ident
    using I that unfolding licensed_def by (intro disjI1 exI [of _ h]) (auto simp: holds_append lock_step_def)
  with I run show "unlinks_licensed H l t \<and> holds l t"
    by (auto simp: reclaim_socket_path_def starting_runs holds_append lock_step_event
        split: lstat_answer.splits if_splits probe_answer.splits unlink_answer.splits)
qed

lemma unlink_same_guards:
  assumes "s \<in> S"
  shows "guards H l (\<lambda>h. \<forall>x \<in> S. owned H x h) (unlink_if_same_identity H s)"
  unfolding guards_def
proof (rule keepsI)
  fix h r t
  assume I: "unlinks_licensed H l h \<and> (\<forall>x \<in> S. owned H x h)" and run: "unlink_if_same_identity H s h = (r, t)"
  have "licensed H l h (bound_path s)" if "lstat_ans H h (bound_path s) = There is_socket (identity s)" for is_socket
    using I that assms by (auto simp: licensed_def)
  with I run show "unlinks_licensed H l t \<and> (\<forall>x \<in> S. owned H x t)"
    by (auto simp: unlink_if_same_identity_def starting_runs intro: owned_later
        split: lstat_answer.splits if_splits unlink_answer.splits)
qed

lemma bind_server_guards:
  "hoare (\<lambda>h. unlinks_licensed H l h \<and> P h) (bind_server H path) (\<lambda>s h. unlinks_licensed H l h \<and> P h \<and> owned H s h)
     (\<lambda>e h. unlinks_licensed H l h \<and> P h)"
  if "\<And>h e. P h \<Longrightarrow> P (h @ [Said e])" "\<And>h. P h \<Longrightarrow> P (h @ [bound path])"
  using that
  by (intro hoareI) (auto simp: bind_server_def starting_runs owned_def split: option.splits lstat_answer.splits
      intro!: exI [of _ "_ @ [bound path]"])

lemma bind_servers_guards:
  "hoare (unlinks_licensed H l) (bind_servers H path control)
     (\<lambda>sockets h. unlinks_licensed H l h \<and> (\<forall>s \<in> set sockets. owned H s h)) (\<lambda>e. unlinks_licensed H l)"
  unfolding bind_servers_def
proof (rule hoare_bnd)
  show "hoare (unlinks_licensed H l) (bind_server H path) (\<lambda>s h. unlinks_licensed H l h \<and> owned H s h) (\<lambda>e. unlinks_licensed H l)"
    using bind_server_guards [of "\<lambda>_. True" path H l] by simp
  fix guest
  have undo: "keeps (\<lambda>h. unlinks_licensed H l h \<and> owned H guest h)
      (sq (does (Did ''close'' [path])) (unlink_if_same_identity H guest))"
  proof -
    have "guards H l (\<lambda>h. \<forall>x \<in> {guest}. owned H x h) (sq (does (Did ''close'' [path])) (unlink_if_same_identity H guest))"
      by (intro guards_bnd guards_does unlink_same_guards) (simp_all add: owned_later)
    then show ?thesis by (simp add: guards_def)
  qed
  have after: "hoare (\<lambda>h. unlinks_licensed H l h \<and> owned H guest h)
      (case e of Exits code \<Rightarrow> sq (sq (does (Did ''close'' [path])) (unlink_if_same_identity H guest)) (raise e) | Raises reason \<Rightarrow> raise e)
      (\<lambda>c h. unlinks_licensed H l h \<and> owned H guest h \<and> owned H c h) (\<lambda>e. unlinks_licensed H l)" for e
  proof (cases e)
    case (Exits code)
    have "hoare (\<lambda>h. unlinks_licensed H l h \<and> owned H guest h) (sq (does (Did ''close'' [path])) (unlink_if_same_identity H guest))
        (\<lambda>_. unlinks_licensed H l) (\<lambda>_. unlinks_licensed H l)"
      using undo unfolding keeps_def by (rule hoare_weaken) simp_all
    then show ?thesis unfolding Exits leave.case by (rule hoare_bnd) (simp add: hoare_def raise_def)
  qed (simp add: hoare_def raise_def)
  have "hoare (\<lambda>h. unlinks_licensed H l h \<and> owned H guest h)
      (on_exit_do (bind_server H control) (sq (does (Did ''close'' [path])) (unlink_if_same_identity H guest)))
      (\<lambda>c h. unlinks_licensed H l h \<and> owned H guest h \<and> owned H c h) (\<lambda>e. unlinks_licensed H l)"
    unfolding on_exit_do_def by (intro hoare_catch [OF bind_server_guards after] owned_later)
  then show "hoare (\<lambda>h. unlinks_licensed H l h \<and> owned H guest h)
      (bnd (on_exit_do (bind_server H control) (sq (does (Did ''close'' [path])) (unlink_if_same_identity H guest))) (\<lambda>ctl. ret [guest, ctl]))
      (\<lambda>sockets h. unlinks_licensed H l h \<and> (\<forall>s \<in> set sockets. owned H s h)) (\<lambda>e. unlinks_licensed H l)"
    by (rule hoare_bnd) (simp add: hoare_def ret_def)
qed
text \<open>The whole start, and the end of a broker that serves.\<close>

abbreviation owns :: "broker_host \<Rightarrow> bound_socket list \<Rightarrow> history \<Rightarrow> bool" where
  "owns H sockets h \<equiv> \<forall>s \<in> set sockets. owned H s h"

lemma hoare_keeps: "keeps I m \<Longrightarrow> hoare I m (\<lambda>_. I) (\<lambda>_. I)"
  by (simp add: keeps_def)

lemma check_allow_guards: "keeps (unlinks_licensed H l) (check_allow names)"
proof -
  have "guards H l (\<lambda>_. True) (check_allow names)"
    unfolding check_allow_def by (intro guards_for_each) (auto intro: guards_fail guards_plain)
  then show ?thesis by (simp add: guards_def)
qed

lemma register_guards: "guards H l (holds l) (register_pid_watch_event H pid)"
  unfolding register_pid_watch_event_def
  by (intro guards_bnd guards_plain)
     (auto split: sum.split option.split intro!: guards_fail guards_does simp: holds_append lock_step_event)

lemma locked_guards:
  "hoare (\<lambda>h. unlinks_licensed H l h \<and> holds l h)
     (sq (reclaim_socket_path H path) (sq (reclaim_socket_path H control)
       (sq (register_pid_watch_event H pid) (bind_servers H path control))))
     (\<lambda>sockets h. unlinks_licensed H l h \<and> owns H sockets h) (\<lambda>e. unlinks_licensed H l)"
proof -
  have step: "hoare (\<lambda>h. unlinks_licensed H l h \<and> holds l h) m (\<lambda>_ h. unlinks_licensed H l h \<and> holds l h) (\<lambda>e. unlinks_licensed H l)"
    if "guards H l (holds l) m" for m :: "unit starting"
    using hoare_keeps [OF that [unfolded guards_def]] by (rule hoare_weaken) simp_all
  have last: "hoare (\<lambda>h. unlinks_licensed H l h \<and> holds l h) (bind_servers H path control)
      (\<lambda>sockets h. unlinks_licensed H l h \<and> owns H sockets h) (\<lambda>e. unlinks_licensed H l)"
    using bind_servers_guards by (rule hoare_weaken) simp_all
  show ?thesis
    by (rule hoare_bnd [OF step [OF reclaim_guards]], rule hoare_bnd [OF step [OF reclaim_guards]],
        rule hoare_bnd [OF step [OF register_guards]], rule last)
qed

lemma held_lock_guards:
  assumes "hoare (\<lambda>h. unlinks_licensed H (socket_lock path) h \<and> holds (socket_lock path) h) m
     (\<lambda>sockets h. unlinks_licensed H (socket_lock path) h \<and> owns H sockets h) (\<lambda>e. unlinks_licensed H (socket_lock path))"
  shows "hoare (unlinks_licensed H (socket_lock path)) (held_socket_lock H path m)
     (\<lambda>sockets h. unlinks_licensed H (socket_lock path) h \<and> owns H sockets h) (\<lambda>e. unlinks_licensed H (socket_lock path))"
proof (rule hoareI)
  let ?l = "socket_lock path"
  fix h s t
  assume I: "unlinks_licensed H ?l h" and run: "held_socket_lock H path m h = (Inr s, t)"
  let ?h = "h @ [Took_Lock ?l]"
  from run obtain u where u: "m ?h = (Inr s, u)" "t = u @ [Dropped_Lock ?l]"
    by (auto simp: held_socket_lock_def starting_runs finally_do_def split: option.splits prod.splits)
  have "unlinks_licensed H ?l ?h \<and> holds ?l ?h" using I by (simp add: holds_append lock_step_def)
  from hoare_Inr [OF assms this u(1)] u(2) show "unlinks_licensed H ?l t \<and> owns H s t" by (simp add: owned_later)
next
  let ?l = "socket_lock path"
  fix h e t
  assume I: "unlinks_licensed H ?l h" and run: "held_socket_lock H path m h = (Inl e, t)"
  let ?h = "h @ [Took_Lock ?l]"
  have locked: "unlinks_licensed H ?l ?h \<and> holds ?l ?h" using I by (simp add: holds_append lock_step_def)
  from run have "(\<exists>msg. t = h @ [Said msg]) \<or> (\<exists>u. m ?h = (Inl e, u) \<and> t = u @ [Dropped_Lock ?l])"
    by (auto simp: held_socket_lock_def starting_runs finally_do_def split: option.splits prod.splits)
  then show "unlinks_licensed H ?l t"
    using I hoare_Inl [OF assms locked, of e] by auto
qed

lemma start_guards:
  "hoare (unlinks_licensed H (socket_lock (socket_path args))) (broker_start H args)
     (\<lambda>sockets h. unlinks_licensed H (socket_lock (socket_path args)) h \<and> owns H sockets h)
     (\<lambda>e. unlinks_licensed H (socket_lock (socket_path args)))"
proof -
  let ?I = "unlinks_licensed H (socket_lock (socket_path args))"
  have alive: "keeps ?I (if \<not> b then fail msg else ret ())" for b msg
  proof -
    have "guards H (socket_lock (socket_path args)) (\<lambda>_. True) (fail msg :: unit starting)" by (rule guards_fail) simp
    then show ?thesis by (simp add: guards_def keeps_ret)
  qed
  have ready: "hoare (\<lambda>h. ?I h \<and> owns H sockets h) (sq (does (Said (''READY'', []))) (ret sockets))
      (\<lambda>sockets h. ?I h \<and> owns H sockets h) (\<lambda>e. ?I)" for sockets
    by (rule hoareI) (auto simp: starting_runs intro: owned_later)
  show ?thesis
    unfolding broker_start_def pid_alive_def
    by (rule hoare_bnd [OF hoare_keeps [OF check_allow_guards]], rule hoare_bnd [OF hoare_keeps [OF keeps_reads]],
        rule hoare_bnd [OF hoare_keeps [OF alive]], rule hoare_bnd [OF held_lock_guards [OF locked_guards]], rule ready)
qed

lemma end_guards:
  "keeps (\<lambda>h. unlinks_licensed H l h \<and> owns H sockets h) (broker_end H args sockets cause)"
proof -
  have bound: "guards H l (owns H sockets) (unlink_bound H sockets)"
    unfolding unlink_bound_def by (intro guards_for_each) (rule unlink_same_guards)
  have exit: "guards H l (owns H sockets) (exit_cleanly H why a sockets code)" for why a code
    unfolding exit_cleanly_def by (intro guards_bnd guards_log bound guards_plain) (simp add: owned_later)
  show ?thesis
    unfolding guards_def [symmetric] broker_end_def await_pid_exit_def
    by (cases cause) (auto intro!: guards_bnd guards_plain exit bound split: option.split)
qed

definition unlink_free :: "history \<Rightarrow> bool" where
  "unlink_free es \<longleftrightarrow> list_all (\<lambda>e. case e of Did c _ \<Rightarrow> c \<noteq> ''unlink'' | _ \<Rightarrow> True) es"

lemma unlinks_append_free: "unlink_free es \<Longrightarrow> unlinks_licensed H l h \<Longrightarrow> unlinks_licensed H l (h @ es)"
proof (induction es rule: rev_induct)
  case (snoc e es)
  then have "\<And>p. e \<noteq> unlinked p" by (auto simp: unlink_free_def unlinked_def)
  with snoc unlinks_snoc [of H l "h @ es" e] show ?case by (simp add: unlink_free_def)
qed simp

subsection \<open>The line a broker prints\<close>

definition stdout_of :: "history \<Rightarrow> string" where
  "stdout_of h = concat (map (\<lambda>e. case e of Said (w, _) \<Rightarrow> w @ NL | _ \<Rightarrow> []) h)"

lemma stdout_simps [simp]:
  "stdout_of [] = []" "stdout_of (h @ g) = stdout_of h @ stdout_of g" "stdout_of (Said m # h) = fst m @ NL @ stdout_of h"
  "stdout_of (Did c a # h) = stdout_of h" "stdout_of (Took_Lock l # h) = stdout_of h" "stdout_of (Dropped_Lock l # h) = stdout_of h"
  "stdout_of (unlinked p # h) = stdout_of h" "stdout_of (bound p # h) = stdout_of h" "stdout_of (log_event w a # h) = stdout_of h"
  by (auto simp: stdout_of_def unlinked_def bound_def log_event_def split: prod.split)

text \<open>\<open>tells m\<close>: \<open>m\<close> prints nothing, or one line of its failure with which the process exits.\<close>

definition told :: "leave \<Rightarrow> history \<Rightarrow> bool" where
  "told e h = (case e of Exits code \<Rightarrow> code = 1 \<and> (\<exists>msg. stdout_of h = ''ERROR='' @ msg @ NL) | Raises _ \<Rightarrow> stdout_of h = [])"

definition tells :: "'a starting \<Rightarrow> bool" where
  "tells m \<longleftrightarrow> hoare (\<lambda>h. stdout_of h = []) m (\<lambda>_ h. stdout_of h = []) told"

lemma tells_bnd: "tells m \<Longrightarrow> (\<And>x. tells (f x)) \<Longrightarrow> tells (bnd m f)"
  unfolding tells_def by (rule hoare_bnd)

lemma tells_plain: "tells (ret x)" "tells (reads f)"
  by (simp_all add: tells_def hoare_def ret_def reads_def)

lemma tells_fail: "tells (fail msg)"
  by (auto simp: tells_def hoare_def fail_run told_def)

lemma tells_does: "(\<And>h. stdout_of (h @ [e]) = stdout_of h) \<Longrightarrow> tells (does e)"
  by (simp add: tells_def hoare_def does_run)

lemma tells_for_each: "(\<And>x. tells (f x)) \<Longrightarrow> tells (for_each xs f)"
  by (induction xs) (auto intro: tells_plain tells_bnd)

lemma tells_reclaim: "tells (reclaim_socket_path H path)"
  unfolding reclaim_socket_path_def
  by (intro tells_bnd tells_plain)
     (auto intro!: tells_plain tells_fail tells_bnd tells_does split: lstat_answer.split probe_answer.split unlink_answer.split)

lemma tells_register: "tells (register_pid_watch_event H pid)"
  unfolding register_pid_watch_event_def
  by (intro tells_bnd tells_plain) (auto intro!: tells_fail tells_does split: sum.split option.split)

lemma tells_bind: "tells (bind_server H path)"
  unfolding tells_def
  by (rule hoareI) (auto simp: bind_server_def starting_runs told_def split: option.splits lstat_answer.splits)

lemma unlink_same_quiet: "unlink_if_same_identity H s h = (r, t) \<Longrightarrow> stdout_of t = stdout_of h \<and> r = Inr ()"
  by (auto simp: unlink_if_same_identity_def starting_runs split: lstat_answer.splits if_splits unlink_answer.splits)

lemma tells_bind_servers: "tells (bind_servers H path control)"
proof -
  have "tells (on_exit_do (bind_server H control) (sq (does (Did ''close'' [path])) (unlink_if_same_identity H guest)))" for guest
    unfolding tells_def on_exit_do_def
  proof (rule hoare_catch [OF tells_bind [unfolded tells_def]], rule hoareI)
    fix e h f t
    assume "told e h" and "(case e of Exits code \<Rightarrow> sq (sq (does (Did ''close'' [path])) (unlink_if_same_identity H guest)) (raise e)
      | Raises reason \<Rightarrow> raise e) h = (Inl f, t)"
    then show "told f t"
      by (cases e) (auto simp: starting_runs told_def dest!: unlink_same_quiet split: prod.splits sum.splits)
  next
    fix e h x t
    assume "told e h" and "(case e of Exits code \<Rightarrow> sq (sq (does (Did ''close'' [path])) (unlink_if_same_identity H guest)) (raise e)
      | Raises reason \<Rightarrow> raise e) h = (Inr x, t)"
    then show "stdout_of t = []"
      by (cases e) (auto simp: starting_runs split: prod.splits sum.splits)
  qed
  then show ?thesis unfolding bind_servers_def by (intro tells_bnd tells_bind tells_plain)
qed

lemma tells_held_lock:
  assumes "tells m"
  shows "tells (held_socket_lock H path m)"
proof -
  have "tells (finally_do m (\<lambda>h. h @ [Dropped_Lock l]))" for l
    using assms unfolding tells_def told_def by (intro hoare_finally) (simp cong: leave.case_cong)
  then show ?thesis
    unfolding held_socket_lock_def
    by (intro tells_bnd tells_plain) (auto intro!: tells_bnd tells_plain tells_does tells_fail split: option.split)
qed

lemma start_tells:
  "hoare (\<lambda>h. stdout_of h = []) (broker_start H args) (\<lambda>_ h. stdout_of h = ''READY'' @ NL) told"
proof -
  have allow: "tells (check_allow names)" for names
    unfolding check_allow_def by (intro tells_for_each) (auto intro: tells_fail tells_plain)
  have alive: "tells (if \<not> b then fail msg else ret ())" for b msg
    by (cases b) (simp_all add: tells_fail tells_plain)
  have inside: "tells (held_socket_lock H path (sq (reclaim_socket_path H path) (sq (reclaim_socket_path H control)
      (sq (register_pid_watch_event H pid) (bind_servers H path control)))))" for path control pid
    by (intro tells_held_lock tells_bnd tells_reclaim tells_register tells_bind_servers)
  have ready: "hoare (\<lambda>h. stdout_of h = []) (sq (does (Said (''READY'', []))) (ret sockets)) (\<lambda>_ h. stdout_of h = ''READY'' @ NL) told"
    for sockets :: "bound_socket list"
    by (rule hoareI) (auto simp: starting_runs)
  show ?thesis
    unfolding broker_start_def pid_alive_def
    by (rule hoare_bnd [OF allow [unfolded tells_def]], rule hoare_bnd [OF tells_plain(2) [unfolded tells_def]],
        rule hoare_bnd [OF alive [unfolded tells_def]], rule hoare_bnd [OF inside [unfolded tells_def]], rule ready)
qed

lemma line_scan_starts: "acc \<noteq> [] \<Longrightarrow> \<exists>l ls. line_scan acc s = (rev acc @ l) # ls"
proof (induction acc s rule: line_scan.induct)
  case (3 acc c d s)
  then show ?case by (cases "is_line_end c") auto
qed auto

lemma line_scan_clean_start: "clean_line p \<Longrightarrow> s \<noteq> [] \<Longrightarrow> line_scan acc (p @ s) = line_scan (rev p @ acc) s"
proof (induction p arbitrary: acc)
  case (Cons c p)
  then have "\<not> is_line_end c" "c \<noteq> CHR 0x0D" by (auto simp: clean_line_def is_line_end_def)
  moreover obtain d u where "p @ s = d # u" using Cons.prems(2) by (cases "p @ s") auto
  moreover from this Cons have "line_scan (c # acc) (d # u) = line_scan (rev p @ c # acc) s" by (auto simp: clean_line_def)
  ultimately show ?case by simp
qed simp

subsection \<open>Properties\<close>

text \<open>
  C13: whatever else happens on the host, every file a broker unlinks in its life is either a socket
  that refused a connection, removed while the broker held the lock beside its socket, or the very
  file, by device and inode, that it saw after its own bind.
\<close>

theorem broker_removes_stale_or_own_sockets:
  assumes "broker_main H args served cause [] = (r, h)" and "unlink_free served" and "prefix (k @ [unlinked p]) h"
  shows "licensed H (socket_lock (socket_path args)) k p"
proof -
  let ?I = "unlinks_licensed H (socket_lock (socket_path args))"
  have main: "keeps ?I (broker_main H args served cause)"
    unfolding keeps_def broker_main_def
  proof (rule hoare_bnd [OF start_guards])
    fix sockets
    have "hoare (\<lambda>h. ?I h \<and> owns H sockets h) (modifies (\<lambda>h. h @ served)) (\<lambda>_ h. ?I h \<and> owns H sockets h) (\<lambda>_. ?I)"
      using assms(2) by (auto simp: hoare_def modifies_def intro: unlinks_append_free owned_later)
    then show "hoare (\<lambda>h. ?I h \<and> owns H sockets h) (sq (modifies (\<lambda>h. h @ served)) (broker_end H args sockets cause)) (\<lambda>_. ?I) (\<lambda>_. ?I)"
      by (rule hoare_bnd) (rule hoare_weaken [OF end_guards [of H "socket_lock (socket_path args)" sockets args cause, unfolded keeps_def]], simp_all)
  qed
  from keepsD [OF main _ assms(1)] assms(3) show ?thesis by (simp add: unlinks_licensed_def)
qed

text \<open>A host on which a stale socket lies where the broker wants to serve, and which it may end by SIGTERM.\<close>

definition sample_host :: broker_host where
  "sample_host = \<lparr>lstat_ans = (\<lambda>h p. if bound p \<in> set h then There True (1, 7)
       else if p = ''/s'' \<and> unlinked p \<notin> set h then There True (1, 2) else Absent),
     probe_ans = (\<lambda>h p. Refuses), unlink_ans = (\<lambda>h p. Removed), lock_open_error = (\<lambda>h p. None),
     flock_error = (\<lambda>h p. None), bind_error = (\<lambda>h p. None), signal_zero = (\<lambda>h p. Signalled),
     watch_kind = Kqueue, watch_begins = (\<lambda>h p. Watched), wait_error = (\<lambda>h. None)\<rparr>"

definition sample_args :: broker_args where
  "sample_args = \<lparr>socket_path = ''/s'', control_path = ''/c'', watched_pid = 9, allow = [''dev''], remint_interval = 60\<rparr>"

lemma broker_removes_stale_or_own_sockets_witness:
  "licensed sample_host ''/s.lock'' [Took_Lock ''/s.lock'', Did ''connect'' [''/s'']] ''/s''"
proof -
  have first: "take 3 (snd (broker_main sample_host sample_args [] Sigterm [])) = [Took_Lock ''/s.lock'', Did ''connect'' [''/s''], unlinked ''/s'']"
    by code_simp
  obtain r h where run: "broker_main sample_host sample_args [] Sigterm [] = (r, h)" by fastforce
  have "prefix [Took_Lock ''/s.lock'', Did ''connect'' [''/s''], unlinked ''/s''] h"
    using first take_is_prefix [of 3 h] by (simp add: run)
  then show ?thesis
    using broker_removes_stale_or_own_sockets [OF run, of "[Took_Lock ''/s.lock'', Did ''connect'' [''/s'']]" "''/s''"]
    by (simp add: unlink_free_def sample_args_def socket_lock_def)
qed

text \<open>
  C7: what yo reads from a broker's output is how it began: one that serves has printed \<open>READY\<close> and
  is taken as ready; one that gave up has exited with status 1 and is taken as failed, with its reason;
  only an \<open>OSError\<close> that nothing catches leaves no line.
\<close>

theorem handshake_tells_how_the_broker_began:
  "case broker_start H args [] of
     (Inr sockets, h) \<Rightarrow> judge_handshake (splitlines (stdout_of h)) eof = Broker_Ready
   | (Inl (Exits code), h) \<Rightarrow> code = 1 \<and> (\<exists>reason. judge_handshake (splitlines (stdout_of h)) eof = Broker_Failed reason)
   | (Inl (Raises why), h) \<Rightarrow> judge_handshake (splitlines (stdout_of h)) True = Silent_Close"
proof -
  have ready: "judge_handshake (splitlines (''READY'' @ NL)) eof = Broker_Ready"
    using judge_ready_line [of "[]" eof] by (simp add: NL_def)
  have failed: "\<exists>reason. judge_handshake (splitlines (''ERROR='' @ msg @ NL)) eof = Broker_Failed reason" for msg
  proof -
    have "clean_line ''ERROR=''" by (simp add: clean_line_def is_line_end_def)
    from line_scan_clean_start [OF this, of "msg @ NL" "[]"]
    obtain l ls where "splitlines (''ERROR='' @ msg @ NL) = (''ERROR='' @ l) # ls"
      using line_scan_starts [of "rev ''ERROR=''" "msg @ NL"] by (auto simp: splitlines_def NL_def)
    then show ?thesis by (simp add: judge_handshake_def startswith_def)
  qed
  obtain r h where run: "broker_start H args [] = (r, h)" by fastforce
  show ?thesis
  proof (cases r)
    case (Inl e)
    with run have "told e h" using hoare_Inl [OF start_tells, of "[]" H args e h] by simp
    with run Inl failed show ?thesis
      by (cases e) (auto simp: told_def judge_handshake_def startswith_def)
  next
    case (Inr sockets)
    with run have "stdout_of h = ''READY'' @ NL" using hoare_Inr [OF start_tells, of "[]" H args sockets h] by simp
    with run Inr ready show ?thesis by simp
  qed
qed

end
